theory Spec2Isabelle
  imports Main "HOL-Library.Word"
begin

section \<open>Data model\<close>

text \<open>
  The objects of \<^verbatim>\<open>pkg/controller/clone-controller.go\<close> and of the upload proxy that
  follows it in the same source file. Kubernetes objects are records holding the fields
  the code reads or writes; a Go \<^verbatim>\<open>map[string]string\<close> is a partial function (a nil map and
  an empty map read alike; for writes see \<open>setAnnotation\<close>), a Go pointer or slice that may
  be nil is an \<open>option\<close>.
\<close>

record ObjectMeta =
  Name :: string
  Namespace :: string
  UID :: string
  Labels :: "string \<rightharpoonup> string"
  Annotations :: "string \<rightharpoonup> string"
  Finalizers :: "string list"
  DeletionTimestamp :: "nat option"

text \<open>
  \<open>Requests\<close> maps a resource name to \<^verbatim>\<open>Quantity.Value()\<close>, the request in bytes as
  an integer; \<open>VolumeMode\<close> is \<^verbatim>\<open>*PersistentVolumeMode\<close>, a pointer to a string.
\<close>

record PersistentVolumeClaimSpec =
  Requests :: "string \<rightharpoonup> int"
  VolumeMode :: "string option"

record PersistentVolumeClaim =
  PvcMeta :: ObjectMeta
  Spec :: PersistentVolumeClaimSpec

text \<open>Go errors: the two API status errors the code tests for, errors of collaborators,
  errors made by \<^verbatim>\<open>errors.New\<close>/\<^verbatim>\<open>Errorf\<close>, \<^verbatim>\<open>errors.Wrap\<close>, and \<^verbatim>\<open>*strconv.NumError\<close> with its
  fields \<^verbatim>\<open>Func\<close>, \<^verbatim>\<open>Num\<close> and \<^verbatim>\<open>Err\<close>. A runtime panic is not an error value in Go; it is
  kept apart as \<open>Panic\<close>.\<close>

datatype error =
    StatusNotFound
  | StatusAlreadyExists
  | External string
  | New string
  | Wrap error string
  | NumError string string error
  | Panic string

definition IsNotFound :: "error \<Rightarrow> bool" where
  "IsNotFound e = (e = StatusNotFound)"

subsection \<open>Constants\<close>

definition AnnCloneRequest :: string where
  "AnnCloneRequest = ''k8s.io/CloneRequest''"

definition AnnCloneOf :: string where
  "AnnCloneOf = ''k8s.io/CloneOf''"

definition AnnCloneToken :: string where
  "AnnCloneToken = ''cdi.kubevirt.io/storage.clone.token''"

definition CloneUniqueID :: string where
  "CloneUniqueID = ''cdi.kubevirt.io/storage.clone.cloneUniqeId''"

definition CloneSucceededPVC :: string where
  "CloneSucceededPVC = ''CloneSucceeded''"

definition cloneSourcePodFinalizer :: string where
  "cloneSourcePodFinalizer = ''cdi.kubevirt.io/cloneSource''"

definition ResourceStorage :: string where
  "ResourceStorage = ''storage''"

definition PersistentVolumeBlock :: string where
  "PersistentVolumeBlock = ''Block''"

definition PersistentVolumeFilesystem :: string where
  "PersistentVolumeFilesystem = ''Filesystem''"

text \<open>Go's map read \<^verbatim>\<open>m[k]\<close>: the zero value (the empty string) for a missing key.\<close>

definition lookup :: "(string \<rightharpoonup> string) \<Rightarrow> string \<Rightarrow> string" where
  "lookup m k = (case m k of None \<Rightarrow> [] | Some v \<Rightarrow> v)"

section \<open>Clone request parser and validator\<close>

text \<open>\<^verbatim>\<open>strings.Split(s, sep)\<close> for a one-byte separator: the pieces of \<open>s\<close> between the
  occurrences of \<open>sep\<close>, one piece more than there are occurrences.\<close>

fun splitAcc :: "char \<Rightarrow> string \<Rightarrow> string \<Rightarrow> string list" where
  "splitAcc sep acc [] = [rev acc]"
| "splitAcc sep acc (c # cs) =
     (if c = sep then rev acc # splitAcc sep [] cs else splitAcc sep (c # acc) cs)"

definition Split :: "string \<Rightarrow> char \<Rightarrow> string list" where
  "Split s sep = splitAcc sep [] s"

text \<open>\<^verbatim>\<open>ParseCloneRequestAnnotation\<close>: (exists, namespace, name), the strings empty
  when \<open>exists\<close> is false (Go's named results keep their zero values).\<close>

definition ParseCloneRequestAnnotation :: "PersistentVolumeClaim \<Rightarrow> bool \<times> string \<times> string" where
  "ParseCloneRequestAnnotation pvc =
     (case Annotations (PvcMeta pvc) AnnCloneRequest of
        None \<Rightarrow> (False, [], [])
      | Some ann \<Rightarrow>
          (case Split ann (CHR ''/'') of
             [namespace, name] \<Rightarrow> (True, namespace, name)
           | _ \<Rightarrow> (False, [], [])))"

text \<open>\<^verbatim>\<open>ValidateCanCloneSourceAndTargetSpec\<close>. A request missing from the map is the zero
  quantity. \<^verbatim>\<open>fmt.Errorf\<close> with two \<^verbatim>\<open>%s\<close> verbs is written out as concatenation.\<close>

definition storageRequest :: "PersistentVolumeClaimSpec \<Rightarrow> int" where
  "storageRequest spec = (case Requests spec ResourceStorage of None \<Rightarrow> 0 | Some v \<Rightarrow> v)"

definition effectiveVolumeMode :: "PersistentVolumeClaimSpec \<Rightarrow> string" where
  "effectiveVolumeMode spec =
     (if VolumeMode spec \<noteq> None \<and> the (VolumeMode spec) = PersistentVolumeBlock
      then PersistentVolumeBlock else PersistentVolumeFilesystem)"

definition ValidateCanCloneSourceAndTargetSpec ::
  "PersistentVolumeClaimSpec \<Rightarrow> PersistentVolumeClaimSpec \<Rightarrow> error + unit" where
  "ValidateCanCloneSourceAndTargetSpec sourceSpec targetSpec =
     (let sourceRequest = storageRequest sourceSpec;
          targetRequest = storageRequest targetSpec
      in if sourceRequest > targetRequest
         then Inl (New ''target resources requests storage size is smaller than the source'')
         else
           let sourceVolumeMode = effectiveVolumeMode sourceSpec;
               targetVolumeMode = effectiveVolumeMode targetSpec
           in if sourceVolumeMode \<noteq> targetVolumeMode
              then Inl (New (''source volumeMode ('' @ sourceVolumeMode @
                             '') and target volumeMode ('' @ targetVolumeMode @
                             '') do not match''))
              else Inr ())"

subsection \<open>Tokens\<close>

text \<open>
  Modelled from the spec: the token package (\<^verbatim>\<open>token.Payload\<close>, \<^verbatim>\<open>token.Operation\<close>,
  \<^verbatim>\<open>token.Validator\<close>) is not among the sources. The payload carries an operation (upload,
  clone, or another), a name, a namespace, a resource \<open>{group, version, resource}\<close> and a
  string-to-string \<open>params\<close> mapping. A validator is a function from the token's text to the
  payload or one opaque error.
\<close>

datatype Operation = OperationClone | OperationUpload | OperationOther string

record GroupVersionResource =
  Group :: string
  Version :: string
  Resource :: string

record Payload =
  Operation :: Operation
  TokName :: string
  TokNamespace :: string
  TokResource :: GroupVersionResource
  Params :: "string \<rightharpoonup> string"

type_synonym Validator = "string \<Rightarrow> error + Payload"

definition validateCloneToken ::
  "Validator \<Rightarrow> PersistentVolumeClaim \<Rightarrow> PersistentVolumeClaim \<Rightarrow> error + unit" where
  "validateCloneToken validator source target =
     (case Annotations (PvcMeta target) AnnCloneToken of
        None \<Rightarrow> Inl (New ''clone token missing'')
      | Some tok \<Rightarrow>
          (case validator tok of
             Inl err \<Rightarrow> Inl (Wrap err ''error verifying token'')
           | Inr tokenData \<Rightarrow>
               if Operation tokenData \<noteq> OperationClone \<or>
                  TokName tokenData \<noteq> Name (PvcMeta source) \<or>
                  TokNamespace tokenData \<noteq> Namespace (PvcMeta source) \<or>
                  Resource (TokResource tokenData) \<noteq> ''persistentvolumeclaims'' \<or>
                  lookup (Params tokenData) ''targetNamespace'' \<noteq> Namespace (PvcMeta target) \<or>
                  lookup (Params tokenData) ''targetName'' \<noteq> Name (PvcMeta target)
               then Inl (New ''invalid token'')
               else Inr ()))"

section \<open>Upload proxy\<close>

text \<open>
  Modelled from the spec: the annotation keys \<^verbatim>\<open>AnnPodPhase\<close>, \<^verbatim>\<open>AnnPodReady\<close>,
  \<^verbatim>\<open>AnnPodRestarts\<close> and \<^verbatim>\<open>AnnUploadClientName\<close> are declared in files of the controller
  package that are not among the sources; the names of the spec's annotation vocabulary
  stand for their literals.
\<close>

definition AnnPodPhase :: string where
  "AnnPodPhase = ''PodPhase''"

definition AnnPodReady :: string where
  "AnnPodReady = ''PodReady''"

definition AnnPodRestarts :: string where
  "AnnPodRestarts = ''PodRestarts''"

definition AnnUploadClientName :: string where
  "AnnUploadClientName = ''UploadClientName''"

text \<open>Two pod phases of the orchestrator's API, and the proxy's two poll constants in
  seconds.\<close>

definition PodSucceeded :: string where
  "PodSucceeded = ''Succeeded''"

definition PodRunning :: string where
  "PodRunning = ''Running''"

definition waitReadyTime :: nat where
  "waitReadyTime = 10"

definition waitReadyImterval :: nat where
  "waitReadyImterval = 1"

text \<open>The two errors \<^verbatim>\<open>strconv\<close> wraps in a \<^verbatim>\<open>NumError\<close>.\<close>

definition ErrSyntax :: error where
  "ErrSyntax = New ''invalid syntax''"

definition ErrRange :: error where
  "ErrRange = New ''value out of range''"

text \<open>\<^verbatim>\<open>strconv.ParseBool\<close>: six spellings of true, six of false, and otherwise the error
  \<^verbatim>\<open>&NumError{"ParseBool", str, ErrSyntax}\<close>.\<close>

definition ParseBool :: "string \<Rightarrow> error + bool" where
  "ParseBool str =
     (if str \<in> set [''1'', ''t'', ''T'', ''TRUE'', ''true'', ''True''] then Inr True
      else if str \<in> set [''0'', ''f'', ''F'', ''FALSE'', ''false'', ''False''] then Inr False
      else Inl (NumError ''ParseBool'' str ErrSyntax))"

subsection \<open>The Authorization header\<close>

text \<open>
  \<^verbatim>\<open>authHeaderMatcher\<close> is the regular expression
  \<^verbatim>\<open>(?i)^Bearer\s+([A-Za-z0-9\-\._~\+\/]+)$\<close>. Strings are byte sequences (UTF-8).
  \<^verbatim>\<open>\s\<close> is tab, newline, form feed, carriage return or space. Under \<^verbatim>\<open>(?i)\<close> Go folds
  case by Unicode simple folding, which adds to the class \<^verbatim>\<open>[A-Za-z]\<close> the two code points
  that fold to ASCII letters, U+017F (bytes C5 BF) and U+212A (bytes E2 84 AA); the letters
  of \<^verbatim>\<open>Bearer\<close> have no such partner. The three parts draw on disjoint sets of bytes, so
  a match is unique. \<^verbatim>\<open>FindStringSubmatch\<close> gives the whole match and the group, or nil.
\<close>

fun matchFold :: "(char \<times> char) list \<Rightarrow> string \<Rightarrow> string option" where
  "matchFold [] s = Some s"
| "matchFold ((u, l) # ps) [] = None"
| "matchFold ((u, l) # ps) (c # cs) = (if c = u \<or> c = l then matchFold ps cs else None)"

definition bearerLiteral :: "(char \<times> char) list" where
  "bearerLiteral = zip ''BEARER'' ''bearer''"

definition isSpace :: "char \<Rightarrow> bool" where
  "isSpace c = (c \<in> set [CHR 0x09, CHR 0x0A, CHR 0x0C, CHR 0x0D, CHR 0x20])"

definition isTokenChar :: "char \<Rightarrow> bool" where
  "isTokenChar c =
     (c \<in> set ''ABCDEFGHIJKLMNOPQRSTUVWXYZabcdefghijklmnopqrstuvwxyz0123456789-._~+/'')"

fun tokenRunes :: "string \<Rightarrow> bool" where
  "tokenRunes [] = True"
| "tokenRunes (c # cs) =
     (if isTokenChar c then tokenRunes cs
      else if c = CHR 0xC5 \<and> take 1 cs = [CHR 0xBF] then tokenRunes (drop 1 cs)
      else if c = CHR 0xE2 \<and> take 2 cs = [CHR 0x84, CHR 0xAA] then tokenRunes (drop 2 cs)
      else False)"

definition FindStringSubmatch :: "string \<Rightarrow> string list" where
  "FindStringSubmatch s =
     (case matchFold bearerLiteral s of
        None \<Rightarrow> []
      | Some rest \<Rightarrow>
          let spaces = takeWhile isSpace rest; tok = dropWhile isSpace rest
          in if spaces \<noteq> [] \<and> tok \<noteq> [] \<and> tokenRunes tok then [s, tok] else [])"

subsection \<open>The handler\<close>

text \<open>
  The incoming request, the outbound request built by \<^verbatim>\<open>http.NewRequest\<close>, and the upstream
  response. \<open>Header\<close> is read with \<^verbatim>\<open>Header.Get\<close>, the empty string for an absent header.
\<close>

record Request =
  Method :: string
  Path :: string
  Header :: "string \<rightharpoonup> string"
  Body :: string
  ContentLength :: int

record OutRequest =
  OutMethod :: string
  OutURL :: string
  OutBody :: string
  OutContentLength :: int

record Response =
  StatusCode :: nat
  RespBody :: string

text \<open>An \<^verbatim>\<open>*http.Client\<close> is what its \<^verbatim>\<open>Do\<close> answers; a nil pointer is \<open>None\<close>.\<close>

type_synonym HttpClient = "OutRequest \<Rightarrow> error + Response"

text \<open>
  The standard library as the proxy uses it: \<^verbatim>\<open>http.NewRequest\<close> (nil and an error for a
  method or URL it does not accept), \<^verbatim>\<open>tls.X509KeyPair\<close>, and the client that a transport
  with a given certificate and CA bundle makes.
\<close>

record HttpLib =
  NewRequest :: "string \<Rightarrow> string \<Rightarrow> string \<Rightarrow> OutRequest option"
  X509KeyPair :: "string \<Rightarrow> string \<Rightarrow> error + string"
  MakeClient :: "string \<Rightarrow> string \<Rightarrow> HttpClient"

text \<open>
  \<^verbatim>\<open>uploadProxyApp\<close>. \<open>client\<close> is the orchestrator's API as the proxy uses it: the answer
  to the \<open>i\<close>-th \<^verbatim>\<open>PersistentVolumeClaims(namespace).Get(name)\<close> of a request; the proxy calls
  nothing else on it. \<open>clientCreator\<close> is the pair \<^verbatim>\<open>CreateClient()\<close> returns.
\<close>

record uploadProxyApp =
  client :: "nat \<Rightarrow> string \<Rightarrow> string \<Rightarrow> error + PersistentVolumeClaim"
  clientCreator :: "HttpClient option \<times> error option"
  tokenValidator :: Validator
  urlResolver :: "string \<Rightarrow> string \<Rightarrow> string \<Rightarrow> string"

text \<open>The production \<^verbatim>\<open>clientCreator.CreateClient\<close>, from the three fetchers' answers.\<close>

record clientCreator =
  CertBytes :: "error + string"
  KeyBytes :: "error + string"
  BundleBytes :: "error + string"

definition CreateClient :: "HttpLib \<Rightarrow> clientCreator \<Rightarrow> HttpClient option \<times> error option" where
  "CreateClient lib c =
     (case CertBytes c of
        Inl err \<Rightarrow> (None, Some err)
      | Inr clientCertBytes \<Rightarrow>
          (case KeyBytes c of
             Inl err \<Rightarrow> (None, Some err)
           | Inr clientKeyBytes \<Rightarrow>
               (case BundleBytes c of
                  Inl err \<Rightarrow> (None, Some err)
                | Inr serverBundleBytes \<Rightarrow>
                    (case X509KeyPair lib clientCertBytes clientKeyBytes of
                       Inl err \<Rightarrow> (None, Some err)
                     | Inr clientCert \<Rightarrow>
                         (Some (MakeClient lib clientCert serverBundleBytes), None)))))"

text \<open>What a handler has done when it ends: the status written with \<^verbatim>\<open>WriteHeader\<close>, the
  body copied to the caller, the calls made to collaborators in order, and whether it ended
  in a runtime panic.\<close>

datatype ProxyCall =
    CallValidate string
  | CallGetPVC string string
  | CallCreateClient
  | CallDo OutRequest

record HandlerResult =
  status :: "nat option"
  body :: string
  calls :: "ProxyCall list"
  panicked :: bool

definition respond :: "ProxyCall list \<Rightarrow> nat \<Rightarrow> HandlerResult" where
  "respond cs code = \<lparr>status = Some code, body = [], calls = cs, panicked = False\<rparr>"

definition panic :: "ProxyCall list \<Rightarrow> HandlerResult" where
  "panic cs = \<lparr>status = None, body = [], calls = cs, panicked = True\<rparr>"

definition StatusBadRequest :: nat where
  "StatusBadRequest = 400"

definition StatusUnauthorized :: nat where
  "StatusUnauthorized = 401"

definition StatusInternalServerError :: nat where
  "StatusInternalServerError = 500"

definition StatusServiceUnavailable :: nat where
  "StatusServiceUnavailable = 503"

text \<open>The condition \<^verbatim>\<open>uploadReady\<close> hands to the poll, on the answer of one Get.\<close>

definition readyCondition :: "string \<Rightarrow> error + PersistentVolumeClaim \<Rightarrow> error + bool" where
  "readyCondition pvcName got =
     (case got of
        Inl err \<Rightarrow>
          if IsNotFound err
          then Inl (New (''rejecting Upload Request for PVC '' @ pvcName @ '' that doesn't exist''))
          else Inl err
      | Inr pvc \<Rightarrow>
          let phase = lookup (Annotations (PvcMeta pvc)) AnnPodPhase
          in if phase = PodSucceeded
             then Inl (New (''rejecting Upload Request for PVC '' @ pvcName @
                            '' that already finished uploading''))
             else (case ParseBool (lookup (Annotations (PvcMeta pvc)) AnnPodReady) of
                     Inl err \<Rightarrow> Inr False
                   | Inr ready \<Rightarrow> Inr ready))"

text \<open>
  \<^verbatim>\<open>wait.PollImmediate(interval, timeout, condition)\<close> of the Kubernetes client library.
  It calls the condition at once and returns if that answers true or an error; otherwise
  it starts the poller, a channel that receives a value at every \<open>interval\<close> and is closed
  when \<open>timeout\<close> has passed, and hands it to \<^verbatim>\<open>WaitFor\<close>. \<^verbatim>\<open>WaitFor\<close> calls the condition once
  for every value placed on the channel and once more when the channel is closed: it
  returns nil when the condition answers true, the condition's error when it answers one,
  and \<^verbatim>\<open>ErrWaitTimeout\<close> when the call made on the closed channel answers false.

  Real time is not modelled. \<open>ticks\<close> is the number of values the poller places on the
  channel before it closes it; with the ticker and the timer started together that is at
  most \<open>timeout div interval\<close> (the poller drops a tick nobody is waiting for, and the last
  tick may lose against the timer). So with an interval of 1 s and a timeout of 10 s the
  condition is called at most twelve times: at once, at up to ten ticks, and on the close.
  The second argument of \<open>WaitFor\<close> numbers the calls; the result comes with the number of
  calls made.
\<close>

definition ErrWaitTimeout :: error where
  "ErrWaitTimeout = New ''timed out waiting for the condition''"

fun WaitFor :: "nat \<Rightarrow> nat \<Rightarrow> (nat \<Rightarrow> error + bool) \<Rightarrow> (error + unit) \<times> nat" where
  "WaitFor 0 i fn =
     (case fn i of
        Inl err \<Rightarrow> (Inl err, Suc i)
      | Inr ok \<Rightarrow> if ok then (Inr (), Suc i) else (Inl ErrWaitTimeout, Suc i))"
| "WaitFor (Suc n) i fn =
     (case fn i of
        Inl err \<Rightarrow> (Inl err, Suc i)
      | Inr ok \<Rightarrow> if ok then (Inr (), Suc i) else WaitFor n (Suc i) fn)"

definition PollImmediate ::
  "nat \<Rightarrow> nat \<Rightarrow> nat \<Rightarrow> (nat \<Rightarrow> error + bool) \<Rightarrow> (error + unit) \<times> nat" where
  "PollImmediate interval timeout ticks condition =
     (case condition 0 of
        Inl err \<Rightarrow> (Inl err, 1)
      | Inr done \<Rightarrow>
          if done then (Inr (), 1)
          else WaitFor (min ticks (timeout div interval)) 1 condition)"

definition uploadReady ::
  "uploadProxyApp \<Rightarrow> nat \<Rightarrow> string \<Rightarrow> string \<Rightarrow> (error + unit) \<times> ProxyCall list" where
  "uploadReady app ticks pvcName pvcNamespace =
     (case PollImmediate waitReadyImterval waitReadyTime ticks
             (\<lambda>i. readyCondition pvcName (client app i pvcNamespace pvcName)) of
        (res, n) \<Rightarrow> (res, replicate n (CallGetPVC pvcNamespace pvcName)))"

definition proxyUploadRequest ::
  "HttpLib \<Rightarrow> uploadProxyApp \<Rightarrow> string \<Rightarrow> string \<Rightarrow> Request \<Rightarrow> HandlerResult" where
  "proxyUploadRequest lib app namespace pvc r =
     (let url = urlResolver app namespace pvc (Path r)
      in case NewRequest lib (Method r) url (Body r) of
           None \<Rightarrow> panic []
         | Some req0 \<Rightarrow>
             let req = req0\<lparr>OutContentLength := ContentLength r\<rparr>
             in (case clientCreator app of
                   (httpClient, err) \<Rightarrow>
                     (case httpClient of
                        None \<Rightarrow> panic [CallCreateClient]
                      | Some do \<Rightarrow>
                          (case do req of
                             Inl err' \<Rightarrow>
                               respond [CallCreateClient, CallDo req] StatusInternalServerError
                           | Inr response \<Rightarrow>
                               \<lparr>status = Some (StatusCode response), body = RespBody response,
                                calls = [CallCreateClient, CallDo req], panicked = False\<rparr>))))"

definition prependCalls :: "ProxyCall list \<Rightarrow> HandlerResult \<Rightarrow> HandlerResult" where
  "prependCalls cs res = res\<lparr>calls := cs @ calls res\<rparr>"

definition handleUploadRequest ::
  "HttpLib \<Rightarrow> uploadProxyApp \<Rightarrow> nat \<Rightarrow> Request \<Rightarrow> HandlerResult" where
  "handleUploadRequest lib app ticks r =
     (let tokenHeader = lookup (Header r) ''Authorization''
      in if tokenHeader = [] then respond [] StatusBadRequest
         else
           let match = FindStringSubmatch tokenHeader
           in if length match \<noteq> 2 then respond [] StatusBadRequest
              else
                (case tokenValidator app (match ! 1) of
                   Inl err \<Rightarrow> respond [CallValidate (match ! 1)] StatusUnauthorized
                 | Inr tokenData \<Rightarrow>
                     if Operation tokenData \<noteq> OperationUpload \<or>
                        TokName tokenData = [] \<or>
                        TokNamespace tokenData = [] \<or>
                        Resource (TokResource tokenData) \<noteq> ''persistentvolumeclaims''
                     then respond [CallValidate (match ! 1)] StatusBadRequest
                     else
                       (case uploadReady app ticks (TokName tokenData) (TokNamespace tokenData) of
                          (Inl err, gets) \<Rightarrow>
                            respond (CallValidate (match ! 1) # gets) StatusServiceUnavailable
                        | (Inr u, gets) \<Rightarrow>
                            prependCalls (CallValidate (match ! 1) # gets)
                              (proxyUploadRequest lib app (TokNamespace tokenData)
                                 (TokName tokenData) r))))"

section \<open>Clone reconciler\<close>

subsection \<open>Pods and the cluster\<close>

text \<open>
  A pod as the reconciler reads and writes it: its metadata, its phase and its container
  statuses (a slice that may be nil). \<open>RestartCount\<close> is an \<^verbatim>\<open>int32\<close>. The containers,
  environment and volumes that \<^verbatim>\<open>MakeCloneSourcePodSpec\<close> builds are read by no function
  here and are left out.
\<close>

record ContainerStatus =
  RestartCount :: "32 word"

record PodStatus =
  Phase :: string
  ContainerStatuses :: "ContainerStatus list option"

record Pod =
  PodMeta :: ObjectMeta
  Status :: PodStatus

record Cluster =
  pvcs :: "PersistentVolumeClaim list"
  pods :: "Pod list"

text \<open>
  The calls the reconciler makes on the orchestrator's API and on the event recorder. A
  trace keeps every call with its outcome (\<open>None\<close> for success) in the order made.
\<close>

datatype Call =
    GetPVC string string
  | ListPods string string string
  | CreatePod Pod
  | DeletePod Pod
  | UpdatePVC PersistentVolumeClaim
  | Event PersistentVolumeClaim string string string

type_synonym Trace = "(Call \<times> error option) list"

text \<open>
  A function with effects takes the cluster and gives its result, the cluster after it
  and the calls it made. \<^verbatim>\<open>CloneReconciler\<close>: \<open>Client\<close> stands for the API client, the
  error, if any, with which a call fails before it reaches the store (a call that does not
  fail is served from the cluster as the store operations below say). The validator field
  of the Go struct is \<open>cloneTokenValidator\<close> here and its image field \<open>Image'\<close>.
  \<open>clientCertGenerator\<close> and \<open>serverCAFetcher\<close> are the answers of \<^verbatim>\<open>MakeClientCert\<close> and
  \<^verbatim>\<open>BundleBytes\<close>. Two helpers called by the code are declared outside the sources and are
  fields as well: \<open>labelSelector\<close> is the error, if any, of
  \<^verbatim>\<open>metav1.LabelSelectorAsSelector\<close> for a label value, and \<open>defaultPodResourceRequirements\<close>
  is the answer of \<^verbatim>\<open>GetDefaultPodResourceRequirements\<close>.
\<close>

type_synonym 'a effect = "(error + 'a) \<times> Cluster \<times> Trace"

record CloneReconciler =
  Client :: "Call \<Rightarrow> error option"
  cloneTokenValidator :: Validator
  clientCertGenerator :: "string \<Rightarrow> error + string \<times> string"
  serverCAFetcher :: "error + string"
  labelSelector :: "string \<Rightarrow> error option"
  defaultPodResourceRequirements :: "error + string option"
  Image' :: string
  PullPolicy :: string

subsection \<open>The store\<close>

text \<open>
  What a call that reaches the store does: objects are found by namespace and name, a
  list selects by namespace (every namespace when the option is empty) and one label,
  create refuses an existing name, delete and update need the object to exist. Delete
  removes the pod at once; resource versions are not modelled.
\<close>

definition samePVC :: "string \<Rightarrow> string \<Rightarrow> PersistentVolumeClaim \<Rightarrow> bool" where
  "samePVC namespace name p = (Namespace (PvcMeta p) = namespace \<and> Name (PvcMeta p) = name)"

definition samePod :: "string \<Rightarrow> string \<Rightarrow> Pod \<Rightarrow> bool" where
  "samePod namespace name p = (Namespace (PodMeta p) = namespace \<and> Name (PodMeta p) = name)"

definition storeGetPVC ::
  "string \<Rightarrow> string \<Rightarrow> Cluster \<Rightarrow> (error + PersistentVolumeClaim) \<times> Cluster" where
  "storeGetPVC namespace name c =
     (case find (samePVC namespace name) (pvcs c) of
        None \<Rightarrow> (Inl StatusNotFound, c)
      | Some pvc \<Rightarrow> (Inr pvc, c))"

definition storeListPods ::
  "string \<Rightarrow> string \<Rightarrow> string \<Rightarrow> Cluster \<Rightarrow> (error + Pod list) \<times> Cluster" where
  "storeListPods namespace label v c =
     (Inr (filter (\<lambda>p. (namespace = [] \<or> Namespace (PodMeta p) = namespace) \<and>
                       Labels (PodMeta p) label = Some v)
             (pods c)), c)"

definition storeCreatePod :: "Pod \<Rightarrow> Cluster \<Rightarrow> (error + unit) \<times> Cluster" where
  "storeCreatePod pod c =
     (if list_ex (samePod (Namespace (PodMeta pod)) (Name (PodMeta pod))) (pods c)
      then (Inl StatusAlreadyExists, c)
      else (Inr (), c\<lparr>pods := pods c @ [pod]\<rparr>))"

definition storeDeletePod :: "Pod \<Rightarrow> Cluster \<Rightarrow> (error + unit) \<times> Cluster" where
  "storeDeletePod pod c =
     (if list_ex (samePod (Namespace (PodMeta pod)) (Name (PodMeta pod))) (pods c)
      then (Inr (),
            c\<lparr>pods := filter (\<lambda>p. \<not> samePod (Namespace (PodMeta pod)) (Name (PodMeta pod)) p)
                         (pods c)\<rparr>)
      else (Inl StatusNotFound, c))"

definition storeUpdatePVC :: "PersistentVolumeClaim \<Rightarrow> Cluster \<Rightarrow> (error + unit) \<times> Cluster" where
  "storeUpdatePVC pvc c =
     (if list_ex (samePVC (Namespace (PvcMeta pvc)) (Name (PvcMeta pvc))) (pvcs c)
      then (Inr (),
            c\<lparr>pvcs := map (\<lambda>p. if samePVC (Namespace (PvcMeta pvc)) (Name (PvcMeta pvc)) p
                                then pvc else p) (pvcs c)\<rparr>)
      else (Inl StatusNotFound, c))"

definition outcome :: "error + 'a \<Rightarrow> error option" where
  "outcome res = (case res of Inl err \<Rightarrow> Some err | Inr v \<Rightarrow> None)"

definition serve ::
  "CloneReconciler \<Rightarrow> Call \<Rightarrow> (Cluster \<Rightarrow> (error + 'a) \<times> Cluster) \<Rightarrow> Cluster \<Rightarrow> 'a effect" where
  "serve r call operation c =
     (case Client r call of
        Some err \<Rightarrow> (Inl err, c, [(call, Some err)])
      | None \<Rightarrow> (case operation c of (res, c') \<Rightarrow> (res, c', [(call, outcome res)])))"

definition ClientGet ::
  "CloneReconciler \<Rightarrow> Cluster \<Rightarrow> string \<Rightarrow> string \<Rightarrow> PersistentVolumeClaim effect" where
  "ClientGet r c namespace name = serve r (GetPVC namespace name) (storeGetPVC namespace name) c"

definition ClientList ::
  "CloneReconciler \<Rightarrow> Cluster \<Rightarrow> string \<Rightarrow> string \<Rightarrow> string \<Rightarrow> Pod list effect" where
  "ClientList r c namespace label v =
     serve r (ListPods namespace label v) (storeListPods namespace label v) c"

definition ClientCreate :: "CloneReconciler \<Rightarrow> Cluster \<Rightarrow> Pod \<Rightarrow> unit effect" where
  "ClientCreate r c pod = serve r (CreatePod pod) (storeCreatePod pod) c"

definition ClientDelete :: "CloneReconciler \<Rightarrow> Cluster \<Rightarrow> Pod \<Rightarrow> unit effect" where
  "ClientDelete r c pod = serve r (DeletePod pod) (storeDeletePod pod) c"

definition ClientUpdate ::
  "CloneReconciler \<Rightarrow> Cluster \<Rightarrow> PersistentVolumeClaim \<Rightarrow> unit effect" where
  "ClientUpdate r c pvc = serve r (UpdatePVC pvc) (storeUpdatePVC pvc) c"

text \<open>\<^verbatim>\<open>recorder.Event\<close>: the event is one more entry of the trace.\<close>

definition recorderEvent ::
  "PersistentVolumeClaim \<Rightarrow> string \<Rightarrow> string \<Rightarrow> string \<Rightarrow> Trace" where
  "recorderEvent object eventtype reason message =
     [(Event object eventtype reason message, None)]"

subsection \<open>Integers as text\<close>

text \<open>
  \<^verbatim>\<open>strconv.Itoa\<close> and \<^verbatim>\<open>strconv.Atoi\<close> on a 64-bit \<^verbatim>\<open>int\<close>. \<open>Atoi\<close> gives the value together
  with the error: zero with a syntax error, the nearest bound with a range error.
\<close>

definition digitChar :: "nat \<Rightarrow> char" where
  "digitChar d = ''0123456789'' ! d"

fun digitsOf :: "nat \<Rightarrow> string" where
  "digitsOf n = (if n < 10 then [digitChar n] else digitsOf (n div 10) @ [digitChar (n mod 10)])"

definition Itoa :: "int \<Rightarrow> string" where
  "Itoa i = (if i < 0 then CHR ''-'' # digitsOf (nat (- i)) else digitsOf (nat i))"

definition digitVal :: "char \<Rightarrow> nat option" where
  "digitVal c =
     map_of [(CHR ''0'', 0), (CHR ''1'', 1), (CHR ''2'', 2), (CHR ''3'', 3), (CHR ''4'', 4),
             (CHR ''5'', 5), (CHR ''6'', 6), (CHR ''7'', 7), (CHR ''8'', 8), (CHR ''9'', 9)] c"

fun parseDigits :: "nat \<Rightarrow> string \<Rightarrow> nat option" where
  "parseDigits acc [] = Some acc"
| "parseDigits acc (c # cs) =
     (case digitVal c of None \<Rightarrow> None | Some d \<Rightarrow> parseDigits (acc * 10 + d) cs)"

definition Atoi :: "string \<Rightarrow> int \<times> error option" where
  "Atoi s =
     (let neg = (s \<noteq> [] \<and> hd s = CHR ''-'');
          ds = (if s \<noteq> [] \<and> (hd s = CHR ''-'' \<or> hd s = CHR ''+'') then tl s else s)
      in if ds = [] then (0, Some (NumError ''Atoi'' s ErrSyntax))
         else (case parseDigits 0 ds of
                 None \<Rightarrow> (0, Some (NumError ''Atoi'' s ErrSyntax))
               | Some n \<Rightarrow>
                   let v = (if neg then - int n else int n)
                   in if v > 2 ^ 63 - 1 then (2 ^ 63 - 1, Some (NumError ''Atoi'' s ErrRange))
                      else if v < - (2 ^ 63) then (- (2 ^ 63), Some (NumError ''Atoi'' s ErrRange))
                      else (v, None)))"

subsection \<open>The reconciler's functions\<close>

text \<open>\<^verbatim>\<open>metav1.HasAnnotation\<close>: the key is present in the annotations.\<close>

definition HasAnnotation :: "ObjectMeta \<Rightarrow> string \<Rightarrow> bool" where
  "HasAnnotation object ann = (Annotations object ann \<noteq> None)"

text \<open>
  Modelled from the spec: \<^verbatim>\<open>checkPVC\<close> and \<^verbatim>\<open>podSucceededFromPVC\<close> are declared in a file of
  the controller package that is not among the sources, as are the annotation keys
  \<^verbatim>\<open>AnnCreatedBy\<close> and \<^verbatim>\<open>AnnOwnerRef\<close>. The spec's relevance check is that the claim has the
  annotation; the upload pod has succeeded when \<open>PodPhase\<close> is \<^verbatim>\<open>Succeeded\<close>; the pod carries
  a created-by marker and the owner reference as annotations.
\<close>

definition checkPVC :: "PersistentVolumeClaim \<Rightarrow> string \<Rightarrow> bool" where
  "checkPVC pvc annotation = HasAnnotation (PvcMeta pvc) annotation"

definition podSucceededFromPVC :: "PersistentVolumeClaim \<Rightarrow> bool" where
  "podSucceededFromPVC pvc = (lookup (Annotations (PvcMeta pvc)) AnnPodPhase = PodSucceeded)"

definition AnnCreatedBy :: string where
  "AnnCreatedBy = ''createdBy''"

definition AnnOwnerRef :: string where
  "AnnOwnerRef = ''ownerRef''"

definition shouldReconcile :: "PersistentVolumeClaim \<Rightarrow> bool" where
  "shouldReconcile pvc =
     (checkPVC pvc AnnCloneRequest \<and> \<not> HasAnnotation (PvcMeta pvc) AnnCloneOf)"

definition hasFinalizer :: "ObjectMeta \<Rightarrow> string \<Rightarrow> bool" where
  "hasFinalizer object v = (v \<in> set (Finalizers object))"

definition addFinalizer :: "PersistentVolumeClaim \<Rightarrow> string \<Rightarrow> PersistentVolumeClaim" where
  "addFinalizer pvc name =
     (if hasFinalizer (PvcMeta pvc) name then pvc
      else pvc\<lparr>PvcMeta := (PvcMeta pvc)\<lparr>Finalizers := Finalizers (PvcMeta pvc) @ [name]\<rparr>\<rparr>)"

definition removeFinalizer :: "PersistentVolumeClaim \<Rightarrow> string \<Rightarrow> PersistentVolumeClaim" where
  "removeFinalizer pvc name =
     (if \<not> hasFinalizer (PvcMeta pvc) name then pvc
      else pvc\<lparr>PvcMeta := (PvcMeta pvc)\<lparr>Finalizers :=
                  filter (\<lambda>f. f \<noteq> name) (Finalizers (PvcMeta pvc))\<rparr>\<rparr>)"

text \<open>
  The assignment \<^verbatim>\<open>pvc.Annotations[k] = v\<close>. Go panics on an assignment into a nil map. The
  model has one empty map for the nil and for the empty map, so this write is the code's
  for a claim whose map is not nil, as the map of a claim that has an annotation is. Both
  writes of \<^verbatim>\<open>updatePvcFromPod\<close> are of this kind when \<open>Reconcile\<close> makes them: it goes on only
  with a claim that has the \<open>CloneRequest\<close> annotation. What is proved of a write outside
  \<open>Reconcile\<close> is stated for a claim that has an annotation.
\<close>

definition setAnnotation ::
  "PersistentVolumeClaim \<Rightarrow> string \<Rightarrow> string \<Rightarrow> PersistentVolumeClaim" where
  "setAnnotation pvc k v =
     pvc\<lparr>PvcMeta := (PvcMeta pvc)\<lparr>Annotations := (Annotations (PvcMeta pvc))(k \<mapsto> v)\<rparr>\<rparr>"

definition updatePVC ::
  "CloneReconciler \<Rightarrow> Cluster \<Rightarrow> PersistentVolumeClaim \<Rightarrow> unit effect" where
  "updatePVC r c pvc = ClientUpdate r c pvc"

definition waitTargetPodRunningOrSucceeded :: "PersistentVolumeClaim \<Rightarrow> error + bool" where
  "waitTargetPodRunningOrSucceeded pvc =
     (case Annotations (PvcMeta pvc) AnnPodReady of
        None \<Rightarrow> Inr False
      | Some rs \<Rightarrow>
          (case ParseBool rs of
             Inl err \<Rightarrow> Inl (Wrap err (''error parsing '' @ AnnPodReady @ '' annotation''))
           | Inr ready \<Rightarrow> if \<not> ready then Inr (podSucceededFromPVC pvc) else Inr True))"

definition getCloneSourcePodName :: "PersistentVolumeClaim \<Rightarrow> string" where
  "getCloneSourcePodName targetPvc = UID (PvcMeta targetPvc) @ ''-source-pod''"

definition findCloneSourcePod ::
  "CloneReconciler \<Rightarrow> Cluster \<Rightarrow> PersistentVolumeClaim \<Rightarrow> Pod option effect" where
  "findCloneSourcePod r c pvc =
     (case ParseCloneRequestAnnotation pvc of
        (isCloneRequest, sourceNamespace, name) \<Rightarrow>
          if \<not> isCloneRequest then (Inr None, c, [])
          else
            (case labelSelector r (UID (PvcMeta pvc) @ ''-source-pod'') of
               Some err \<Rightarrow> (Inl (Wrap err ''error creating label selector''), c, [])
             | None \<Rightarrow>
                 (case ClientList r c sourceNamespace CloneUniqueID
                         (UID (PvcMeta pvc) @ ''-source-pod'') of
                    (Inl err, c', t) \<Rightarrow> (Inl (Wrap err ''error listing pods''), c', t)
                  | (Inr items, c', t) \<Rightarrow>
                      if length items > 1
                      then (Inl (New (''multiple source pods found for clone PVC '' @
                                      Namespace (PvcMeta pvc) @ ''/'' @ Name (PvcMeta pvc))), c', t)
                      else if length items = 0 then (Inr None, c', t)
                      else (Inr (Some (items ! 0)), c', t))))"

definition getCloneRequestSourcePVC ::
  "CloneReconciler \<Rightarrow> Cluster \<Rightarrow> PersistentVolumeClaim \<Rightarrow> PersistentVolumeClaim effect" where
  "getCloneRequestSourcePVC r c pvc =
     (case ParseCloneRequestAnnotation pvc of
        (exists, namespace, name) \<Rightarrow>
          if \<not> exists then (Inl (New ''error parsing clone request annotation''), c, [])
          else
            (case ClientGet r c namespace name of
               (Inl err, c', t) \<Rightarrow> (Inl (Wrap err ''error getting clone source PVC''), c', t)
             | (Inr source, c', t) \<Rightarrow> (Inr source, c', t)))"

definition validateSourceAndTarget ::
  "CloneReconciler \<Rightarrow> Cluster \<Rightarrow> PersistentVolumeClaim \<Rightarrow> unit effect" where
  "validateSourceAndTarget r c targetPvc =
     (case getCloneRequestSourcePVC r c targetPvc of
        (Inl err, c', t) \<Rightarrow> (Inl err, c', t)
      | (Inr sourcePvc, c', t) \<Rightarrow>
          (case validateCloneToken (cloneTokenValidator r) sourcePvc targetPvc of
             Inl err \<Rightarrow> (Inl err, c', t)
           | Inr u \<Rightarrow>
               (ValidateCanCloneSourceAndTargetSpec (Spec sourcePvc) (Spec targetPvc), c', t)))"

text \<open>\<^verbatim>\<open>cache.MetaNamespaceKeyFunc\<close> on a claim: \<^verbatim>\<open>namespace/name\<close>, or the name alone
  when the namespace is empty. Its error is for values without object metadata, which a
  claim is not, so the error branch of the caller is never taken.\<close>

definition MetaNamespaceKeyFunc :: "PersistentVolumeClaim \<Rightarrow> string" where
  "MetaNamespaceKeyFunc pvc =
     (if Namespace (PvcMeta pvc) \<noteq> [] then Namespace (PvcMeta pvc) @ ''/'' @ Name (PvcMeta pvc)
      else Name (PvcMeta pvc))"

text \<open>\<^verbatim>\<open>MakeCloneSourcePodSpec\<close>, as far as the metadata goes; of the four labels the one
  the lookup uses is kept.\<close>

definition MakeCloneSourcePodSpec ::
  "string \<Rightarrow> string \<Rightarrow> PersistentVolumeClaim \<Rightarrow> Pod" where
  "MakeCloneSourcePodSpec sourcePvcNamespace ownerRefAnno targetPvc =
     \<lparr>PodMeta =
        \<lparr>Name = getCloneSourcePodName targetPvc, Namespace = sourcePvcNamespace, UID = [],
         Labels = [CloneUniqueID \<mapsto> getCloneSourcePodName targetPvc],
         Annotations = [AnnCreatedBy \<mapsto> ''yes'', AnnOwnerRef \<mapsto> ownerRefAnno],
         Finalizers = [], DeletionTimestamp = None\<rparr>,
      Status = \<lparr>Phase = [], ContainerStatuses = None\<rparr>\<rparr>"

definition CreateCloneSourcePod ::
  "CloneReconciler \<Rightarrow> Cluster \<Rightarrow> string \<Rightarrow> string \<Rightarrow> string \<Rightarrow> PersistentVolumeClaim \<Rightarrow>
   Pod effect" where
  "CreateCloneSourcePod r c img pullPolicy clientName pvc =
     (case ParseCloneRequestAnnotation pvc of
        (exists, sourcePvcNamespace, sourcePvcName) \<Rightarrow>
          if \<not> exists then (Inl (New ''bad CloneRequest Annotation''), c, [])
          else
            let ownerKey = MetaNamespaceKeyFunc pvc
            in (case clientCertGenerator r clientName of
                  Inl err \<Rightarrow> (Inl err, c, [])
                | Inr clientCertAndKey \<Rightarrow>
                    (case serverCAFetcher r of
                       Inl err \<Rightarrow> (Inl err, c, [])
                     | Inr serverCABundle \<Rightarrow>
                         (case defaultPodResourceRequirements r of
                            Inl err \<Rightarrow> (Inl err, c, [])
                          | Inr podResourceRequirements \<Rightarrow>
                              let pod = MakeCloneSourcePodSpec sourcePvcNamespace ownerKey pvc
                              in (case ClientCreate r c pod of
                                    (Inl err, c', t) \<Rightarrow>
                                      (Inl (Wrap err ''source pod API create errored''), c', t)
                                  | (Inr u, c', t) \<Rightarrow> (Inr pod, c', t))))))"

definition reconcileSourcePod ::
  "CloneReconciler \<Rightarrow> Cluster \<Rightarrow> Pod option \<Rightarrow> PersistentVolumeClaim \<Rightarrow> unit effect" where
  "reconcileSourcePod r c sourcePod pvc =
     (if sourcePod = None then
        (case validateSourceAndTarget r c pvc of
           (Inl err, c', t) \<Rightarrow> (Inl err, c', t)
         | (Inr u, c', t) \<Rightarrow>
             (case Annotations (PvcMeta pvc) AnnUploadClientName of
                None \<Rightarrow>
                  (Inl (New (''PVC '' @ Namespace (PvcMeta pvc) @ ''/'' @ Name (PvcMeta pvc) @
                             '' missing required '' @ AnnUploadClientName @ '' annotation'')),
                   c', t)
              | Some clientName \<Rightarrow>
                  (case CreateCloneSourcePod r c' (Image' r) (PullPolicy r) clientName pvc of
                     (Inl err, c'', t') \<Rightarrow> (Inl err, c'', t @ t')
                   | (Inr created, c'', t') \<Rightarrow> (Inr (), c'', t @ t'))))
      else (Inr (), c, []))"

text \<open>
  \<^verbatim>\<open>updatePvcFromPod\<close>. The read of \<^verbatim>\<open>ContainerStatuses[0]\<close> is guarded by a test for nil,
  so a slice that is not nil and empty is indexed out of range: a runtime panic.
\<close>

definition updatePvcFromPod ::
  "CloneReconciler \<Rightarrow> Cluster \<Rightarrow> Pod option \<Rightarrow> PersistentVolumeClaim \<Rightarrow> unit effect" where
  "updatePvcFromPod r c sourcePod pvc0 =
     (let currentPvcCopy = pvc0;
          pvc1 = addFinalizer pvc0 cloneSourcePodFinalizer;
          succeeded = (podSucceededFromPVC pvc1 \<and>
                       lookup (Annotations (PvcMeta pvc1)) AnnCloneOf \<noteq> ''true'');
          pvc2 = (if succeeded then setAnnotation pvc1 AnnCloneOf ''true'' else pvc1);
          ev = (if succeeded
                then recorderEvent pvc2 ''Normal'' CloneSucceededPVC ''Clone Successful'' else [])
      in if sourcePod \<noteq> None \<and> ContainerStatuses (Status (the sourcePod)) \<noteq> None
         then
           (case the (ContainerStatuses (Status (the sourcePod))) of
              [] \<Rightarrow> (Inl (Panic ''index out of range [0] with length 0''), c, ev)
            | first # others \<Rightarrow>
                let annPodRestarts = fst (Atoi (lookup (Annotations (PvcMeta pvc2)) AnnPodRestarts));
                    podRestarts = sint (RestartCount first);
                    pvc3 = (if podRestarts > annPodRestarts
                            then setAnnotation pvc2 AnnPodRestarts (Itoa podRestarts) else pvc2)
                in if currentPvcCopy \<noteq> pvc3
                   then (case updatePVC r c pvc3 of (res, c', t) \<Rightarrow> (res, c', ev @ t))
                   else (Inr (), c, ev))
         else if currentPvcCopy \<noteq> pvc2
              then (case updatePVC r c pvc2 of (res, c', t) \<Rightarrow> (res, c', ev @ t))
              else (Inr (), c, ev))"

definition cleanup ::
  "CloneReconciler \<Rightarrow> Cluster \<Rightarrow> PersistentVolumeClaim \<Rightarrow> unit effect" where
  "cleanup r c pvc =
     (case findCloneSourcePod r c pvc of
        (Inl err, c', t) \<Rightarrow> (Inl err, c', t)
      | (Inr pod, c', t) \<Rightarrow>
          if pod \<noteq> None \<and> DeletionTimestamp (PodMeta (the pod)) = None
          then
            if podSucceededFromPVC pvc \<and> Phase (Status (the pod)) = PodRunning
            then (Inr (), c', t)
            else
              (case ClientDelete r c' (the pod) of
                 (Inl err, c'', t') \<Rightarrow>
                   if \<not> IsNotFound err
                   then (Inl (Wrap err ''error deleting clone source pod''), c'', t @ t')
                   else (case updatePVC r c'' (removeFinalizer pvc cloneSourcePodFinalizer) of
                           (res, c3, t'') \<Rightarrow> (res, c3, t @ t' @ t''))
               | (Inr u, c'', t') \<Rightarrow>
                   (case updatePVC r c'' (removeFinalizer pvc cloneSourcePodFinalizer) of
                      (res, c3, t'') \<Rightarrow> (res, c3, t @ t' @ t'')))
          else (case updatePVC r c' (removeFinalizer pvc cloneSourcePodFinalizer) of
                  (res, c3, t'') \<Rightarrow> (res, c3, t @ t'')))"

definition Reconcile ::
  "CloneReconciler \<Rightarrow> Cluster \<Rightarrow> string \<Rightarrow> string \<Rightarrow> unit effect" where
  "Reconcile r c namespace name =
     (case ClientGet r c namespace name of
        (Inl err, c0, t0) \<Rightarrow> if IsNotFound err then (Inr (), c0, t0) else (Inl err, c0, t0)
      | (Inr pvc, c0, t0) \<Rightarrow>
          if \<not> shouldReconcile pvc
          then
            if hasFinalizer (PvcMeta pvc) cloneSourcePodFinalizer
            then (case cleanup r c0 pvc of
                    (Inl err, c1, t1) \<Rightarrow> (Inl err, c1, t0 @ t1)
                  | (Inr u, c1, t1) \<Rightarrow> (Inr (), c1, t0 @ t1))
            else (Inr (), c0, t0)
          else
            (case waitTargetPodRunningOrSucceeded pvc of
               Inl err \<Rightarrow> (Inl (Wrap err ''error ensuring target upload pod running''), c0, t0)
             | Inr ready \<Rightarrow>
                 if \<not> ready then (Inr (), c0, t0)
                 else
                   (case findCloneSourcePod r c0 pvc of
                      (Inl err, c1, t1) \<Rightarrow> (Inl err, c1, t0 @ t1)
                    | (Inr sourcePod, c1, t1) \<Rightarrow>
                        (case reconcileSourcePod r c1 sourcePod pvc of
                           (Inl err, c2, t2) \<Rightarrow> (Inl err, c2, t0 @ t1 @ t2)
                         | (Inr u, c2, t2) \<Rightarrow>
                             (case updatePvcFromPod r c2 sourcePod pvc of
                                (Inl err, c3, t3) \<Rightarrow> (Inl err, c3, t0 @ t1 @ t2 @ t3)
                              | (Inr u', c3, t3) \<Rightarrow> (Inr (), c3, t0 @ t1 @ t2 @ t3))))))"

text \<open>A call that reads the cluster, as opposed to one that writes it or records an event.\<close>

fun isRead :: "Call \<Rightarrow> bool" where
  "isRead (GetPVC namespace name) = True"
| "isRead (ListPods namespace label v) = True"
| "isRead call = False"

fun isEvent :: "Call \<Rightarrow> bool" where
  "isEvent (Event object eventtype reason message) = True"
| "isEvent call = False"

text \<open>
  Not a function of the source, but a name for what \<^verbatim>\<open>updatePvcFromPod\<close> makes of the
  claim before it compares it with its snapshot: the finalizer added, \<open>CloneOf\<close> set when
  the upload pod has succeeded, and the restart count raised to the pod's.
\<close>

definition mutatedPVC :: "Pod option \<Rightarrow> PersistentVolumeClaim \<Rightarrow> PersistentVolumeClaim" where
  "mutatedPVC sourcePod pvc0 =
     (let pvc1 = addFinalizer pvc0 cloneSourcePodFinalizer;
          pvc2 = (if podSucceededFromPVC pvc1 \<and>
                     lookup (Annotations (PvcMeta pvc1)) AnnCloneOf \<noteq> ''true''
                  then setAnnotation pvc1 AnnCloneOf ''true'' else pvc1)
      in case sourcePod of
           None \<Rightarrow> pvc2
         | Some pod \<Rightarrow>
             (case ContainerStatuses (Status pod) of
                None \<Rightarrow> pvc2
              | Some [] \<Rightarrow> pvc2
              | Some (first # others) \<Rightarrow>
                  if sint (RestartCount first) >
                     fst (Atoi (lookup (Annotations (PvcMeta pvc2)) AnnPodRestarts))
                  then setAnnotation pvc2 AnnPodRestarts (Itoa (sint (RestartCount first)))
                  else pvc2))"

text \<open>The three parts of what a function with effects gives.\<close>

definition resultOf :: "'a effect \<Rightarrow> error + 'a" where
  "resultOf e = fst e"

definition clusterAfter :: "'a effect \<Rightarrow> Cluster" where
  "clusterAfter e = fst (snd e)"

definition callsOf :: "'a effect \<Rightarrow> Call list" where
  "callsOf e = map fst (snd (snd e))"

section \<open>Scenarios\<close>

text \<open>Concrete objects for the scenarios of the specification: the target claim
  \<^verbatim>\<open>prod/pvc-dst\<close>, the source claim \<^verbatim>\<open>stage/pvc-src\<close>, tokens and an upload proxy.\<close>

definition objectMeta :: "string \<Rightarrow> string \<Rightarrow> string \<Rightarrow> (string \<rightharpoonup> string) \<Rightarrow> string list \<Rightarrow> ObjectMeta" where
  "objectMeta name namespace uid anns fins =
     \<lparr>Name = name, Namespace = namespace, UID = uid, Labels = Map.empty, Annotations = anns,
      Finalizers = fins, DeletionTimestamp = None\<rparr>"

definition targetPVC :: "(string \<rightharpoonup> string) \<Rightarrow> string list \<Rightarrow> PersistentVolumeClaim" where
  "targetPVC anns fins =
     \<lparr>PvcMeta = objectMeta ''pvc-dst'' ''prod'' ''uid-1'' anns fins,
      Spec = \<lparr>Requests = [ResourceStorage \<mapsto> 10], VolumeMode = None\<rparr>\<rparr>"

definition uploadPayload :: Payload where
  "uploadPayload =
     \<lparr>Operation = OperationUpload, TokName = ''pvc-dst'', TokNamespace = ''prod'',
      TokResource = \<lparr>Group = [], Version = ''v1'', Resource = ''persistentvolumeclaims''\<rparr>,
      Params = Map.empty\<rparr>"

definition readyFrom :: "nat \<Rightarrow> string \<Rightarrow> nat \<Rightarrow> string \<Rightarrow> string \<Rightarrow> error + PersistentVolumeClaim" where
  "readyFrom n v i namespace name =
     (if namespace = ''prod'' \<and> name = ''pvc-dst''
      then Inr (targetPVC (if i < n then Map.empty else [AnnPodReady \<mapsto> v]) [])
      else Inl StatusNotFound)"

definition upstreamOK :: HttpClient where
  "upstreamOK req = Inr \<lparr>StatusCode = 200, RespBody = ''done''\<rparr>"

definition proxyApp ::
  "(nat \<Rightarrow> string \<Rightarrow> string \<Rightarrow> error + PersistentVolumeClaim) \<Rightarrow>
   HttpClient option \<times> error option \<Rightarrow> Payload \<Rightarrow> uploadProxyApp" where
  "proxyApp api creator payload =
     \<lparr>client = api, clientCreator = creator,
      tokenValidator = (\<lambda>t. if t = ''abc.def'' then Inr payload else Inl (External ''bad token'')),
      urlResolver = (\<lambda>namespace pvc path. ''https://upload.'' @ namespace @ ''/'' @ pvc @ path)\<rparr>"

definition httpLib :: HttpLib where
  "httpLib =
     \<lparr>NewRequest = (\<lambda>m u b. Some \<lparr>OutMethod = m, OutURL = u, OutBody = b, OutContentLength = 0\<rparr>),
      X509KeyPair = (\<lambda>c k. Inr (c @ k)),
      MakeClient = (\<lambda>c b. upstreamOK)\<rparr>"

definition uploadRequest :: "string \<Rightarrow> Request" where
  "uploadRequest auth =
     \<lparr>Method = ''POST'', Path = ''/upload/sync'', Header = [''Authorization'' \<mapsto> auth],
      Body = ''data'', ContentLength = 4\<rparr>"

definition sourcePVC :: PersistentVolumeClaim where
  "sourcePVC =
     \<lparr>PvcMeta = objectMeta ''pvc-src'' ''stage'' ''uid-0'' Map.empty [],
      Spec = \<lparr>Requests = [ResourceStorage \<mapsto> 10], VolumeMode = None\<rparr>\<rparr>"

definition clonePayload :: "string \<Rightarrow> Payload" where
  "clonePayload targetName =
     \<lparr>Operation = OperationClone, TokName = ''pvc-src'', TokNamespace = ''stage'',
      TokResource = \<lparr>Group = [], Version = ''v1'', Resource = ''persistentvolumeclaims''\<rparr>,
      Params = [''targetNamespace'' \<mapsto> ''prod'', ''targetName'' \<mapsto> targetName]\<rparr>"

definition cloneValidator :: "Payload \<Rightarrow> Validator" where
  "cloneValidator payload t =
     (if t = ''signed-token'' then Inr payload else Inl (External ''bad token''))"

definition cloneReconciler :: CloneReconciler where
  "cloneReconciler =
     \<lparr>Client = (\<lambda>call. None),
      cloneTokenValidator = cloneValidator (clonePayload ''pvc-dst''),
      clientCertGenerator = (\<lambda>name. Inr (''cert'', ''key'')),
      serverCAFetcher = Inr ''ca-bundle'',
      labelSelector = (\<lambda>v. None),
      defaultPodResourceRequirements = Inr None,
      Image' = ''cloner'', PullPolicy = ''IfNotPresent''\<rparr>"

definition cloneAnnotations :: "string \<rightharpoonup> string" where
  "cloneAnnotations =
     [AnnCloneRequest \<mapsto> ''stage/pvc-src'', AnnCloneToken \<mapsto> ''signed-token'',
      AnnUploadClientName \<mapsto> ''ci'', AnnPodReady \<mapsto> ''true'']"

definition clonePod :: "string \<Rightarrow> string \<Rightarrow> ContainerStatus list option \<Rightarrow> Pod" where
  "clonePod name phase statuses =
     \<lparr>PodMeta = (objectMeta name ''stage'' ''uid-pod'' Map.empty [])
                  \<lparr>Labels := [CloneUniqueID \<mapsto> ''uid-1-source-pod'']\<rparr>,
      Status = \<lparr>Phase = phase, ContainerStatuses = statuses\<rparr>\<rparr>"

definition freshCluster :: Cluster where
  "freshCluster = \<lparr>pvcs = [targetPVC cloneAnnotations [], sourcePVC], pods = []\<rparr>"

definition succeededCluster :: Cluster where
  "succeededCluster =
     \<lparr>pvcs = [targetPVC (cloneAnnotations(AnnPodPhase \<mapsto> ''Succeeded''))
                [cloneSourcePodFinalizer], sourcePVC],
      pods = [clonePod ''uid-1-source-pod'' ''Succeeded'' None]\<rparr>"

text \<open>The upload has succeeded and the source pod is still running.\<close>

definition runningCluster :: Cluster where
  "runningCluster =
     \<lparr>pvcs = [targetPVC (cloneAnnotations(AnnPodPhase \<mapsto> ''Succeeded''))
                [cloneSourcePodFinalizer], sourcePVC],
      pods = [clonePod ''uid-1-source-pod'' ''Running'' None]\<rparr>"

section \<open>Properties of the parser and validator\<close>

lemma splitAcc_length: "length (splitAcc sep acc s) = Suc (count_list s sep)"
  by (induction s arbitrary: acc) auto

lemma splitAcc_no_sep: "sep \<notin> set s \<Longrightarrow> splitAcc sep acc s = [rev acc @ s]"
  by (induction s arbitrary: acc) auto

lemma splitAcc_sep:
  "sep \<in> set s \<Longrightarrow> splitAcc sep acc s =
     (rev acc @ takeWhile (\<lambda>c. c \<noteq> sep) s) # splitAcc sep [] (tl (dropWhile (\<lambda>c. c \<noteq> sep) s))"
  by (induction s arbitrary: acc) auto

lemma count_list_0_iff': "count_list s x = 0 \<longleftrightarrow> x \<notin> set s"
  by (induction s) auto

lemma count_list_tl_dropWhile:
  "x \<in> set s \<Longrightarrow> count_list s x = Suc (count_list (tl (dropWhile (\<lambda>c. c \<noteq> x) s)) x)"
  by (induction s) auto

lemma Split_one:
  "count_list s sep = 1 \<Longrightarrow>
     Split s sep = [takeWhile (\<lambda>c. c \<noteq> sep) s, tl (dropWhile (\<lambda>c. c \<noteq> sep) s)]"
proof -
  assume h: "count_list s sep = 1"
  then have a: "sep \<in> set s" using count_list_0_iff'[of s sep] by auto
  from count_list_tl_dropWhile[OF a] h
  have "count_list (tl (dropWhile (\<lambda>c. c \<noteq> sep) s)) sep = 0" by simp
  then have b: "sep \<notin> set (tl (dropWhile (\<lambda>c. c \<noteq> sep) s))" by (simp add: count_list_0_iff')
  show ?thesis unfolding Split_def by (simp add: splitAcc_sep[OF a] splitAcc_no_sep[OF b])
qed

lemma Split_length: "length (Split s sep) = Suc (count_list s sep)"
  by (simp add: Split_def splitAcc_length)

text \<open>
  Claim C4, as the code has it. \<^verbatim>\<open>ParseCloneRequestAnnotation\<close> reports a clone request
  exactly when the annotation is present and its value holds exactly one \<^verbatim>\<open>/\<close> (the split
  yields two parts); the namespace is what stands before the separator and the name what
  stands after it, and either may be empty. In every other case it reports not-a-request
  with two empty strings.
\<close>

theorem ParseCloneRequestAnnotation_one_separator:
  "ParseCloneRequestAnnotation pvc =
     (case Annotations (PvcMeta pvc) AnnCloneRequest of
        None \<Rightarrow> (False, [], [])
      | Some ann \<Rightarrow>
          if count_list ann (CHR ''/'') = 1
          then (True, takeWhile (\<lambda>c. c \<noteq> CHR ''/'') ann, tl (dropWhile (\<lambda>c. c \<noteq> CHR ''/'') ann))
          else (False, [], []))"
proof (cases "Annotations (PvcMeta pvc) AnnCloneRequest")
  case None
  then show ?thesis by (simp add: ParseCloneRequestAnnotation_def)
next
  case (Some ann)
  show ?thesis
  proof (cases "count_list ann (CHR ''/'') = 1")
    case True
    then show ?thesis using Some
      by (simp add: ParseCloneRequestAnnotation_def Split_one)
  next
    case False
    then have "length (Split ann (CHR ''/'')) \<noteq> 2" by (simp add: Split_length)
    then show ?thesis using Some False
      by (auto simp: ParseCloneRequestAnnotation_def split: list.splits)
  qed
qed

text \<open>
  Claim C4 as stated asks for two non-empty parts. The value \<^verbatim>\<open>stage/\<close> splits into the
  namespace \<^verbatim>\<open>stage\<close> and an empty name, and the code reports a clone request.
\<close>

theorem ParseCloneRequestAnnotation_empty_name_counterexample:
  "ParseCloneRequestAnnotation
     \<lparr>PvcMeta = \<lparr>Name = ''pvc-dst'', Namespace = ''prod'', UID = ''u1'', Labels = Map.empty,
                 Annotations = [AnnCloneRequest \<mapsto> ''stage/''], Finalizers = [],
                 DeletionTimestamp = None\<rparr>,
      Spec = \<lparr>Requests = Map.empty, VolumeMode = None\<rparr>\<rparr> = (True, ''stage'', '''')"
  by (simp add: ParseCloneRequestAnnotation_def Split_def)

text \<open>
  Claim C7. For volume modes that are absent, \<^verbatim>\<open>Block\<close> or \<^verbatim>\<open>Filesystem\<close> (the values the
  orchestrator's API admits), \<^verbatim>\<open>ValidateCanCloneSourceAndTargetSpec\<close> succeeds exactly when
  the target's storage request is at least the source's and the two modes are equal, an
  absent mode read as \<^verbatim>\<open>Filesystem\<close>; a smaller target gives the size error, and otherwise
  differing modes give the message that names both modes.
\<close>

theorem ValidateCanCloneSourceAndTargetSpec_iff:
  assumes s: "VolumeMode s = None \<or> VolumeMode s = Some PersistentVolumeBlock \<or>
              VolumeMode s = Some PersistentVolumeFilesystem"
      and t: "VolumeMode t = None \<or> VolumeMode t = Some PersistentVolumeBlock \<or>
              VolumeMode t = Some PersistentVolumeFilesystem"
  shows "((ValidateCanCloneSourceAndTargetSpec s t = Inr ()) =
            (storageRequest s \<le> storageRequest t \<and>
             (case VolumeMode s of None \<Rightarrow> PersistentVolumeFilesystem | Some m \<Rightarrow> m) =
             (case VolumeMode t of None \<Rightarrow> PersistentVolumeFilesystem | Some m \<Rightarrow> m))) \<and>
         (storageRequest t < storageRequest s \<longrightarrow>
            ValidateCanCloneSourceAndTargetSpec s t =
              Inl (New ''target resources requests storage size is smaller than the source'')) \<and>
         (storageRequest s \<le> storageRequest t \<and>
          (case VolumeMode s of None \<Rightarrow> PersistentVolumeFilesystem | Some m \<Rightarrow> m) \<noteq>
          (case VolumeMode t of None \<Rightarrow> PersistentVolumeFilesystem | Some m \<Rightarrow> m) \<longrightarrow>
            ValidateCanCloneSourceAndTargetSpec s t =
              Inl (New (''source volumeMode ('' @
                        (case VolumeMode s of None \<Rightarrow> PersistentVolumeFilesystem | Some m \<Rightarrow> m) @
                        '') and target volumeMode ('' @
                        (case VolumeMode t of None \<Rightarrow> PersistentVolumeFilesystem | Some m \<Rightarrow> m) @
                        '') do not match'')))"
proof -
  have es: "effectiveVolumeMode s = (case VolumeMode s of None \<Rightarrow> PersistentVolumeFilesystem | Some m \<Rightarrow> m)"
    using s by (auto simp: effectiveVolumeMode_def)
  have et: "effectiveVolumeMode t = (case VolumeMode t of None \<Rightarrow> PersistentVolumeFilesystem | Some m \<Rightarrow> m)"
    using t by (auto simp: effectiveVolumeMode_def)
  show ?thesis
    unfolding ValidateCanCloneSourceAndTargetSpec_def Let_def es et
    by (simp add: not_less)
qed

theorem ValidateCanCloneSourceAndTargetSpec_witness:
  "ValidateCanCloneSourceAndTargetSpec
     \<lparr>Requests = [ResourceStorage \<mapsto> 10], VolumeMode = None\<rparr>
     \<lparr>Requests = [ResourceStorage \<mapsto> 10], VolumeMode = Some PersistentVolumeBlock\<rparr> =
     Inl (New ''source volumeMode (Filesystem) and target volumeMode (Block) do not match'') \<and>
   ValidateCanCloneSourceAndTargetSpec
     \<lparr>Requests = [ResourceStorage \<mapsto> 10], VolumeMode = Some PersistentVolumeFilesystem\<rparr>
     \<lparr>Requests = [ResourceStorage \<mapsto> 5], VolumeMode = None\<rparr> =
     Inl (New ''target resources requests storage size is smaller than the source'') \<and>
   ValidateCanCloneSourceAndTargetSpec
     \<lparr>Requests = [ResourceStorage \<mapsto> 5], VolumeMode = Some PersistentVolumeFilesystem\<rparr>
     \<lparr>Requests = [ResourceStorage \<mapsto> 10], VolumeMode = None\<rparr> = Inr ()"
  using ValidateCanCloneSourceAndTargetSpec_iff
          [of "\<lparr>Requests = [ResourceStorage \<mapsto> 10], VolumeMode = None\<rparr>"
              "\<lparr>Requests = [ResourceStorage \<mapsto> 10], VolumeMode = Some PersistentVolumeBlock\<rparr>"]
        ValidateCanCloneSourceAndTargetSpec_iff
          [of "\<lparr>Requests = [ResourceStorage \<mapsto> 10], VolumeMode = Some PersistentVolumeFilesystem\<rparr>"
              "\<lparr>Requests = [ResourceStorage \<mapsto> 5], VolumeMode = None\<rparr>"]
        ValidateCanCloneSourceAndTargetSpec_iff
          [of "\<lparr>Requests = [ResourceStorage \<mapsto> 5], VolumeMode = Some PersistentVolumeFilesystem\<rparr>"
              "\<lparr>Requests = [ResourceStorage \<mapsto> 10], VolumeMode = None\<rparr>"]
  by (simp add: storageRequest_def PersistentVolumeBlock_def PersistentVolumeFilesystem_def)

text \<open>
  Claim C2. For a target that carries a clone token which the validator accepts,
  \<^verbatim>\<open>validateCloneToken\<close> succeeds exactly when the six bindings hold (a parameter missing
  from \<open>params\<close> reads as the empty string, as a Go map does); every rejection is the
  error \<^verbatim>\<open>invalid token\<close>; and a payload that differs from an accepted one in any of the
  six bound fields is rejected with that error.
\<close>

theorem validateCloneToken_binding:
  assumes tok: "Annotations (PvcMeta target) AnnCloneToken = Some tok"
      and valid: "validator tok = Inr td"
  shows "((validateCloneToken validator source target = Inr ()) =
            (Operation td = OperationClone \<and>
             TokName td = Name (PvcMeta source) \<and>
             TokNamespace td = Namespace (PvcMeta source) \<and>
             Resource (TokResource td) = ''persistentvolumeclaims'' \<and>
             lookup (Params td) ''targetNamespace'' = Namespace (PvcMeta target) \<and>
             lookup (Params td) ''targetName'' = Name (PvcMeta target))) \<and>
         (validateCloneToken validator source target \<noteq> Inr () \<longrightarrow>
            validateCloneToken validator source target = Inl (New ''invalid token'')) \<and>
         (\<forall>validator' td'.
            validateCloneToken validator source target = Inr () \<and>
            validator' tok = Inr td' \<and>
            (Operation td' \<noteq> Operation td \<or> TokName td' \<noteq> TokName td \<or>
             TokNamespace td' \<noteq> TokNamespace td \<or>
             Resource (TokResource td') \<noteq> Resource (TokResource td) \<or>
             lookup (Params td') ''targetNamespace'' \<noteq> lookup (Params td) ''targetNamespace'' \<or>
             lookup (Params td') ''targetName'' \<noteq> lookup (Params td) ''targetName'') \<longrightarrow>
            validateCloneToken validator' source target = Inl (New ''invalid token''))"
  using tok valid by (auto simp: validateCloneToken_def)

theorem validateCloneToken_binding_witness:
  "validateCloneToken (cloneValidator (clonePayload ''pvc-dst'')) sourcePVC
     (targetPVC [AnnCloneToken \<mapsto> ''signed-token''] []) = Inr () \<and>
   validateCloneToken (cloneValidator (clonePayload ''pvc-other'')) sourcePVC
     (targetPVC [AnnCloneToken \<mapsto> ''signed-token''] []) = Inl (New ''invalid token'')"
proof -
  let ?t = "targetPVC [AnnCloneToken \<mapsto> ''signed-token''] []"
  have a: "Annotations (PvcMeta ?t) AnnCloneToken = Some ''signed-token''"
    by (simp add: targetPVC_def objectMeta_def)
  have v: "cloneValidator (clonePayload ''pvc-dst'') ''signed-token'' = Inr (clonePayload ''pvc-dst'')"
    by (simp add: cloneValidator_def)
  have v': "cloneValidator (clonePayload ''pvc-other'') ''signed-token'' = Inr (clonePayload ''pvc-other'')"
    by (simp add: cloneValidator_def)
  note bnd = validateCloneToken_binding[where validator = "cloneValidator (clonePayload ''pvc-dst'')"
      and tok = "''signed-token''" and td = "clonePayload ''pvc-dst''" and target = ?t
      and source = sourcePVC, OF a v]
  have six: "Operation (clonePayload ''pvc-dst'') = OperationClone \<and>
             TokName (clonePayload ''pvc-dst'') = Name (PvcMeta sourcePVC) \<and>
             TokNamespace (clonePayload ''pvc-dst'') = Namespace (PvcMeta sourcePVC) \<and>
             Resource (TokResource (clonePayload ''pvc-dst'')) = ''persistentvolumeclaims'' \<and>
             lookup (Params (clonePayload ''pvc-dst'')) ''targetNamespace'' = Namespace (PvcMeta ?t) \<and>
             lookup (Params (clonePayload ''pvc-dst'')) ''targetName'' = Name (PvcMeta ?t)"
    by (simp add: clonePayload_def sourcePVC_def targetPVC_def objectMeta_def lookup_def)
  have g1: "validateCloneToken (cloneValidator (clonePayload ''pvc-dst'')) sourcePVC ?t = Inr ()"
    using bnd[THEN conjunct1] six by simp
  have diff: "lookup (Params (clonePayload ''pvc-other'')) ''targetName'' \<noteq>
              lookup (Params (clonePayload ''pvc-dst'')) ''targetName''"
    by (simp add: clonePayload_def lookup_def)
  have g2: "validateCloneToken (cloneValidator (clonePayload ''pvc-other'')) sourcePVC ?t =
              Inl (New ''invalid token'')"
    using bnd[THEN conjunct2, THEN conjunct2, rule_format,
              of "cloneValidator (clonePayload ''pvc-other'')" "clonePayload ''pvc-other''"]
          g1 v' diff by blast
  show ?thesis using g1 g2 by simp
qed

section \<open>Properties of the upload proxy\<close>

lemma WaitFor_true:
  "k \<le> n \<Longrightarrow> fn (i + k) = Inr True \<Longrightarrow> (\<forall>j<k. fn (i + j) = Inr False) \<Longrightarrow>
     WaitFor n i fn = (Inr (), Suc (i + k))"
proof (induction n arbitrary: i k)
  case 0
  then show ?case by simp
next
  case (Suc n)
  show ?case
  proof (cases k)
    case 0
    with Suc.prems show ?thesis by simp
  next
    case (Suc k')
    with Suc.prems have "fn (i + 0) = Inr False" by blast
    moreover have "WaitFor n (Suc i) fn = (Inr (), Suc (Suc i + k'))"
    proof (rule Suc.IH)
      show "k' \<le> n" using Suc.prems(1) \<open>k = Suc k'\<close> by simp
      show "fn (Suc i + k') = Inr True" using Suc.prems(2) \<open>k = Suc k'\<close> by simp
      show "\<forall>j<k'. fn (Suc i + j) = Inr False"
      proof (intro allI impI)
        fix j assume "j < k'"
        then have "Suc j < k" using \<open>k = Suc k'\<close> by simp
        with Suc.prems(3) have "fn (i + Suc j) = Inr False" by blast
        then show "fn (Suc i + j) = Inr False" by simp
      qed
    qed
    ultimately show ?thesis using \<open>k = Suc k'\<close> by simp
  qed
qed

lemma WaitFor_error:
  "k \<le> n \<Longrightarrow> fn (i + k) = Inl e \<Longrightarrow> (\<forall>j<k. fn (i + j) = Inr False) \<Longrightarrow>
     WaitFor n i fn = (Inl e, Suc (i + k))"
proof (induction n arbitrary: i k)
  case 0
  then show ?case by simp
next
  case (Suc n)
  show ?case
  proof (cases k)
    case 0
    with Suc.prems show ?thesis by simp
  next
    case (Suc k')
    with Suc.prems have "fn (i + 0) = Inr False" by blast
    moreover have "WaitFor n (Suc i) fn = (Inl e, Suc (Suc i + k'))"
    proof (rule Suc.IH)
      show "k' \<le> n" using Suc.prems(1) \<open>k = Suc k'\<close> by simp
      show "fn (Suc i + k') = Inl e" using Suc.prems(2) \<open>k = Suc k'\<close> by simp
      show "\<forall>j<k'. fn (Suc i + j) = Inr False"
      proof (intro allI impI)
        fix j assume "j < k'"
        then have "Suc j < k" using \<open>k = Suc k'\<close> by simp
        with Suc.prems(3) have "fn (i + Suc j) = Inr False" by blast
        then show "fn (Suc i + j) = Inr False" by simp
      qed
    qed
    ultimately show ?thesis using \<open>k = Suc k'\<close> by simp
  qed
qed

lemma WaitFor_timeout:
  "(\<forall>j\<le>n. fn (i + j) = Inr False) \<Longrightarrow> WaitFor n i fn = (Inl ErrWaitTimeout, Suc (i + n))"
proof (induction n arbitrary: i)
  case 0
  then show ?case by simp
next
  case (Suc n)
  from Suc.prems have "fn (i + 0) = Inr False" by blast
  moreover have "WaitFor n (Suc i) fn = (Inl ErrWaitTimeout, Suc (Suc i + n))"
  proof (rule Suc.IH, intro allI impI)
    fix j assume "j \<le> n"
    then have "Suc j \<le> Suc n" by simp
    with Suc.prems have "fn (i + Suc j) = Inr False" by blast
    then show "fn (Suc i + j) = Inr False" by simp
  qed
  ultimately show ?case by simp
qed

lemma WaitFor_success:
  "(fst (WaitFor n i fn) = Inr ()) =
     (\<exists>k\<le>n. fn (i + k) = Inr True \<and> (\<forall>j<k. fn (i + j) = Inr False))"
proof
  assume "\<exists>k\<le>n. fn (i + k) = Inr True \<and> (\<forall>j<k. fn (i + j) = Inr False)"
  then obtain k where "k \<le> n" "fn (i + k) = Inr True" "\<forall>j<k. fn (i + j) = Inr False" by blast
  from WaitFor_true[OF this] show "fst (WaitFor n i fn) = Inr ()" by simp
next
  assume ok: "fst (WaitFor n i fn) = Inr ()"
  show "\<exists>k\<le>n. fn (i + k) = Inr True \<and> (\<forall>j<k. fn (i + j) = Inr False)"
  proof (cases "\<forall>j\<le>n. fn (i + j) = Inr False")
    case True
    from WaitFor_timeout[OF True] ok show ?thesis by (simp add: ErrWaitTimeout_def)
  next
    case False
    then obtain j0 where j0: "j0 \<le> n" "fn (i + j0) \<noteq> Inr False" by blast
    define k where "k = (LEAST j. fn (i + j) \<noteq> Inr False)"
    have kne: "fn (i + k) \<noteq> Inr False"
      unfolding k_def using j0(2) by (rule LeastI)
    have kle: "k \<le> n"
      using Least_le[of "\<lambda>j. fn (i + j) \<noteq> Inr False" j0] j0 by (simp add: k_def)
    have before: "\<forall>j<k. fn (i + j) = Inr False"
      using not_less_Least[of _ "\<lambda>j. fn (i + j) \<noteq> Inr False"] by (auto simp: k_def)
    show ?thesis
    proof (cases "fn (i + k)")
      case (Inl e)
      from WaitFor_error[OF kle Inl before] ok show ?thesis by simp
    next
      case (Inr b)
      with kne have "fn (i + k) = Inr True" by (cases b) auto
      with kle before show ?thesis by blast
    qed
  qed
qed

lemma PollImmediate_WaitFor:
  "PollImmediate interval timeout ticks cond =
     WaitFor (Suc (min ticks (timeout div interval))) 0 cond"
  by (simp add: PollImmediate_def split: sum.splits)

lemma uploadReady_WaitFor:
  "uploadReady app ticks pvcName ns =
     (case WaitFor (Suc (min ticks (waitReadyTime div waitReadyImterval))) 0
             (\<lambda>i. readyCondition pvcName (client app i ns pvcName)) of
        (res, n) \<Rightarrow> (res, replicate n (CallGetPVC ns pvcName)))"
  by (simp only: uploadReady_def PollImmediate_WaitFor)

lemma uploadReady_success:
  "(fst (uploadReady app ticks pvcName ns) = Inr ()) =
     (\<exists>k\<le>Suc (min ticks (waitReadyTime div waitReadyImterval)).
         readyCondition pvcName (client app k ns pvcName) = Inr True \<and>
        (\<forall>j<k. readyCondition pvcName (client app j ns pvcName) = Inr False))"
proof -
  have "fst (uploadReady app ticks pvcName ns) =
        fst (WaitFor (Suc (min ticks (waitReadyTime div waitReadyImterval))) 0
               (\<lambda>i. readyCondition pvcName (client app i ns pvcName)))"
    by (simp add: uploadReady_WaitFor split: prod.splits)
  then show ?thesis
    using WaitFor_success[of "Suc (min ticks (waitReadyTime div waitReadyImterval))" 0
            "\<lambda>i. readyCondition pvcName (client app i ns pvcName)"]
    by simp
qed

lemma uploadReady_error:
  assumes "k \<le> Suc (min ticks (waitReadyTime div waitReadyImterval))"
      and "readyCondition pvcName (client app k ns pvcName) = Inl e"
      and "\<forall>j<k. readyCondition pvcName (client app j ns pvcName) = Inr False"
  shows "uploadReady app ticks pvcName ns = (Inl e, replicate (Suc k) (CallGetPVC ns pvcName))"
  using WaitFor_error[of k "Suc (min ticks (waitReadyTime div waitReadyImterval))"
          "\<lambda>i. readyCondition pvcName (client app i ns pvcName)" 0 e] assms
  by (simp add: uploadReady_WaitFor)

lemma uploadReady_timeout:
  assumes "\<forall>j\<le>Suc (min ticks (waitReadyTime div waitReadyImterval)).
             readyCondition pvcName (client app j ns pvcName) = Inr False"
  shows "uploadReady app ticks pvcName ns =
           (Inl ErrWaitTimeout,
            replicate (Suc (Suc (min ticks (waitReadyTime div waitReadyImterval))))
              (CallGetPVC ns pvcName))"
  using WaitFor_timeout[of "Suc (min ticks (waitReadyTime div waitReadyImterval))"
          "\<lambda>i. readyCondition pvcName (client app i ns pvcName)" 0] assms
  by (simp add: uploadReady_WaitFor)

lemma WaitFor_count: "i < snd (WaitFor n i fn) \<and> snd (WaitFor n i fn) \<le> Suc (i + n)"
proof (induction n arbitrary: i)
  case 0
  show ?case by (cases "fn i") auto
next
  case (Suc n)
  from Suc[of "Suc i"] show ?case by (cases "fn i") auto
qed

lemma uploadReady_gets:
  "\<exists>n. snd (uploadReady app ticks pvcName ns) = replicate n (CallGetPVC ns pvcName) \<and>
       1 \<le> n \<and> n \<le> 2 + min ticks (waitReadyTime div waitReadyImterval)"
proof -
  let ?w = "WaitFor (Suc (min ticks (waitReadyTime div waitReadyImterval))) 0
              (\<lambda>i. readyCondition pvcName (client app i ns pvcName))"
  have "snd (uploadReady app ticks pvcName ns) = replicate (snd ?w) (CallGetPVC ns pvcName)"
    by (simp add: uploadReady_WaitFor split: prod.splits)
  moreover from WaitFor_count[of 0 "Suc (min ticks (waitReadyTime div waitReadyImterval))"
                  "\<lambda>i. readyCondition pvcName (client app i ns pvcName)"]
  have "1 \<le> snd ?w \<and> snd ?w \<le> 2 + min ticks (waitReadyTime div waitReadyImterval)" by simp
  ultimately show ?thesis by blast
qed

lemma readyCondition_True:
  "(readyCondition pvcName got = Inr True) =
     (\<exists>pvc. got = Inr pvc \<and> lookup (Annotations (PvcMeta pvc)) AnnPodPhase \<noteq> PodSucceeded \<and>
        lookup (Annotations (PvcMeta pvc)) AnnPodReady \<in>
          set [''1'', ''t'', ''T'', ''TRUE'', ''true'', ''True''])"
  by (cases got) (auto simp: readyCondition_def ParseBool_def Let_def split: if_splits sum.splits)

lemma readyCondition_error:
  "(\<exists>e. readyCondition pvcName got = Inl e) =
     ((\<exists>err. got = Inl err) \<or>
      (\<exists>pvc. got = Inr pvc \<and> lookup (Annotations (PvcMeta pvc)) AnnPodPhase = PodSucceeded))"
  by (cases got) (auto simp: readyCondition_def Let_def split: if_splits sum.splits)

lemma uploadReady_calls:
  "set (snd (uploadReady app ticks pvcName ns)) \<subseteq> {CallGetPVC ns pvcName}"
  by (auto simp: uploadReady_def split: prod.splits)

lemma handleUploadRequest_not_ready:
  assumes "FindStringSubmatch (lookup (Header r) ''Authorization'') = [h, tok]"
      and "tokenValidator app tok = Inr td"
      and "Operation td = OperationUpload" "TokName td \<noteq> []" "TokNamespace td \<noteq> []"
          "Resource (TokResource td) = ''persistentvolumeclaims''"
      and "fst (uploadReady app ticks (TokName td) (TokNamespace td)) \<noteq> Inr ()"
  shows "handleUploadRequest lib app ticks r =
           respond (CallValidate tok # snd (uploadReady app ticks (TokName td) (TokNamespace td)))
             StatusServiceUnavailable"
proof -
  have ne: "lookup (Header r) ''Authorization'' \<noteq> []"
    using assms(1) by (auto simp: FindStringSubmatch_def bearerLiteral_def)
  obtain res gets where u: "uploadReady app ticks (TokName td) (TokNamespace td) = (res, gets)"
    by (cases "uploadReady app ticks (TokName td) (TokNamespace td)") auto
  with assms(7) obtain e where e: "res = Inl e" by (cases res) auto
  show ?thesis
    using assms(1-6) ne u e by (simp add: handleUploadRequest_def Let_def)
qed

text \<open>
  Claim C3, as the code has it. The readiness gate is \<^verbatim>\<open>wait.PollImmediate\<close> with an interval
  of 1 s and a timeout of 10 s on the readiness condition: it gets the claim named by the
  token at once, then once per second at each tick of the 10 seconds, and a last time when
  the 10 seconds are over, between one and twelve Gets in all and nothing else. It
  succeeds exactly when one of these polls finds the claim with a \<open>PodPhase\<close> other than
  \<^verbatim>\<open>Succeeded\<close> and a \<open>PodReady\<close> annotation that \<^verbatim>\<open>strconv.ParseBool\<close> reads as true (\<^verbatim>\<open>1\<close>,
  \<^verbatim>\<open>t\<close>, \<^verbatim>\<open>T\<close>, \<^verbatim>\<open>TRUE\<close>, \<^verbatim>\<open>true\<close> or \<^verbatim>\<open>True\<close>), every earlier poll having found it not ready.
  A poll that is reached and answers an error ends the gate with that error, and a poll
  answers an error exactly when the Get fails (not-found or otherwise) or \<open>PodPhase\<close> is
  \<^verbatim>\<open>Succeeded\<close>; when every poll finds the claim not ready the gate ends with
  \<^verbatim>\<open>ErrWaitTimeout\<close>. Whenever the gate fails, by such an error or by exhaustion, the handler
  writes status 503 and returns without a panic, having called only the validator and the
  Gets of the gate: no client is built and no upstream request is sent.
\<close>

theorem uploadReady_gate:
  "(waitReadyImterval = 1 \<and> waitReadyTime = 10 \<and>
    uploadReady app ticks pvcName ns =
      (case PollImmediate 1 10 ticks (\<lambda>i. readyCondition pvcName (client app i ns pvcName)) of
         (res, n) \<Rightarrow> (res, replicate n (CallGetPVC ns pvcName))) \<and>
    (\<exists>n. snd (uploadReady app ticks pvcName ns) = replicate n (CallGetPVC ns pvcName) \<and>
         1 \<le> n \<and> n \<le> 2 + min ticks 10 \<and> n \<le> 12)) \<and>
   ((fst (uploadReady app ticks pvcName ns) = Inr ()) =
      (\<exists>k\<le>Suc (min ticks 10).
         readyCondition pvcName (client app k ns pvcName) = Inr True \<and>
         (\<forall>j<k. readyCondition pvcName (client app j ns pvcName) = Inr False))) \<and>
   (k \<le> Suc (min ticks 10) \<and>
    readyCondition pvcName (client app k ns pvcName) = Inl e \<and>
    (\<forall>j<k. readyCondition pvcName (client app j ns pvcName) = Inr False) \<longrightarrow>
      uploadReady app ticks pvcName ns = (Inl e, replicate (Suc k) (CallGetPVC ns pvcName))) \<and>
   ((\<forall>j\<le>Suc (min ticks 10).
        readyCondition pvcName (client app j ns pvcName) = Inr False) \<longrightarrow>
      uploadReady app ticks pvcName ns =
        (Inl ErrWaitTimeout, replicate (2 + min ticks 10) (CallGetPVC ns pvcName))) \<and>
   ((readyCondition pvcName got = Inr True) =
      (\<exists>pvc. got = Inr pvc \<and> lookup (Annotations (PvcMeta pvc)) AnnPodPhase \<noteq> PodSucceeded \<and>
         lookup (Annotations (PvcMeta pvc)) AnnPodReady \<in>
           set [''1'', ''t'', ''T'', ''TRUE'', ''true'', ''True''])) \<and>
   ((\<exists>err. readyCondition pvcName got = Inl err) =
      ((\<exists>err. got = Inl err) \<or>
       (\<exists>pvc. got = Inr pvc \<and> lookup (Annotations (PvcMeta pvc)) AnnPodPhase = PodSucceeded))) \<and>
   (FindStringSubmatch (lookup (Header r) ''Authorization'') = [h, tok] \<and>
    tokenValidator app tok = Inr td \<and> Operation td = OperationUpload \<and>
    TokName td \<noteq> [] \<and> TokNamespace td \<noteq> [] \<and>
    Resource (TokResource td) = ''persistentvolumeclaims'' \<and>
    fst (uploadReady app ticks (TokName td) (TokNamespace td)) \<noteq> Inr () \<longrightarrow>
      status (handleUploadRequest lib app ticks r) = Some 503 \<and>
      body (handleUploadRequest lib app ticks r) = [] \<and>
      \<not> panicked (handleUploadRequest lib app ticks r) \<and>
      calls (handleUploadRequest lib app ticks r) =
        CallValidate tok # snd (uploadReady app ticks (TokName td) (TokNamespace td)) \<and>
      set (calls (handleUploadRequest lib app ticks r)) \<subseteq>
        {CallValidate tok, CallGetPVC (TokNamespace td) (TokName td)})"
  (is "?poll \<and> ?success \<and> ?error \<and> ?timeout \<and> ?ready \<and> ?fails \<and> ?handler")
proof -
  have w: "waitReadyTime div waitReadyImterval = 10"
    by (simp add: waitReadyTime_def waitReadyImterval_def)
  have poll: ?poll
  proof (intro conjI)
    show "waitReadyImterval = 1" by (simp add: waitReadyImterval_def)
    show "waitReadyTime = 10" by (simp add: waitReadyTime_def)
    show "uploadReady app ticks pvcName ns =
      (case PollImmediate 1 10 ticks (\<lambda>i. readyCondition pvcName (client app i ns pvcName)) of
         (res, n) \<Rightarrow> (res, replicate n (CallGetPVC ns pvcName)))"
      by (simp add: uploadReady_def waitReadyImterval_def waitReadyTime_def)
    from uploadReady_gets[of app ticks pvcName ns]
    show "\<exists>n. snd (uploadReady app ticks pvcName ns) = replicate n (CallGetPVC ns pvcName) \<and>
         1 \<le> n \<and> n \<le> 2 + min ticks 10 \<and> n \<le> 12"
      unfolding w by (elim exE conjE, intro exI conjI) (simp_all add: min_def split: if_splits)
  qed
  have success: ?success
    using uploadReady_success[of app ticks pvcName ns] unfolding w .
  have error: ?error
    using uploadReady_error[of k ticks pvcName app ns e] unfolding w by blast
  have timeout: ?timeout
    using uploadReady_timeout[of ticks pvcName app ns] unfolding w by simp
  have ready: ?ready by (rule readyCondition_True)
  have fails: ?fails by (rule readyCondition_error)
  have handler: ?handler
  proof (intro impI)
    assume a: "FindStringSubmatch (lookup (Header r) ''Authorization'') = [h, tok] \<and>
      tokenValidator app tok = Inr td \<and> Operation td = OperationUpload \<and>
      TokName td \<noteq> [] \<and> TokNamespace td \<noteq> [] \<and>
      Resource (TokResource td) = ''persistentvolumeclaims'' \<and>
      fst (uploadReady app ticks (TokName td) (TokNamespace td)) \<noteq> Inr ()"
    then have eq: "handleUploadRequest lib app ticks r =
             respond (CallValidate tok # snd (uploadReady app ticks (TokName td) (TokNamespace td)))
               StatusServiceUnavailable"
      by (intro handleUploadRequest_not_ready) simp_all
    show "status (handleUploadRequest lib app ticks r) = Some 503 \<and>
      body (handleUploadRequest lib app ticks r) = [] \<and>
      \<not> panicked (handleUploadRequest lib app ticks r) \<and>
      calls (handleUploadRequest lib app ticks r) =
        CallValidate tok # snd (uploadReady app ticks (TokName td) (TokNamespace td)) \<and>
      set (calls (handleUploadRequest lib app ticks r)) \<subseteq>
        {CallValidate tok, CallGetPVC (TokNamespace td) (TokName td)}"
      using uploadReady_calls[of app ticks "TokName td" "TokNamespace td"]
      by (auto simp: eq respond_def StatusServiceUnavailable_def)
  qed
  from poll success error timeout ready fails handler show ?thesis by blast
qed

lemma FindStringSubmatch_example:
  "FindStringSubmatch ''Bearer abc.def'' = [''Bearer abc.def'', ''abc.def'']"
  by (simp add: FindStringSubmatch_def bearerLiteral_def isSpace_def isTokenChar_def Let_def)

theorem uploadReady_gate_witness:
  "fst (uploadReady (proxyApp (readyFrom 2 ''true'') (Some upstreamOK, None) uploadPayload)
          10 ''pvc-dst'' ''prod'') = Inr () \<and>
   fst (uploadReady (proxyApp (readyFrom 11 ''true'') (Some upstreamOK, None) uploadPayload)
          10 ''pvc-dst'' ''prod'') = Inr () \<and>
   status (handleUploadRequest httpLib
             (proxyApp (readyFrom 12 ''true'') (Some upstreamOK, None) uploadPayload) 10
             (uploadRequest ''Bearer abc.def'')) = Some 503 \<and>
   calls (handleUploadRequest httpLib
             (proxyApp (readyFrom 12 ''true'') (Some upstreamOK, None) uploadPayload) 10
             (uploadRequest ''Bearer abc.def'')) =
     CallValidate ''abc.def'' # replicate 12 (CallGetPVC ''prod'' ''pvc-dst'')"
proof -
  let ?app = "proxyApp (readyFrom 12 ''true'') (Some upstreamOK, None) uploadPayload"
  let ?app2 = "proxyApp (readyFrom 2 ''true'') (Some upstreamOK, None) uploadPayload"
  let ?app11 = "proxyApp (readyFrom 11 ''true'') (Some upstreamOK, None) uploadPayload"
  have cond: "\<And>n i. readyCondition ''pvc-dst''
                 (client (proxyApp (readyFrom n ''true'') (Some upstreamOK, None) uploadPayload)
                    i ''prod'' ''pvc-dst'') = Inr (\<not> i < n)"
    by (simp add: proxyApp_def readyFrom_def readyCondition_def
        targetPVC_def objectMeta_def lookup_def AnnPodPhase_def AnnPodReady_def PodSucceeded_def
        ParseBool_def)
  have ex2: "\<exists>k\<le>Suc (min 10 10). readyCondition ''pvc-dst'' (client ?app2 k ''prod'' ''pvc-dst'') = Inr True \<and>
        (\<forall>j<k. readyCondition ''pvc-dst'' (client ?app2 j ''prod'' ''pvc-dst'') = Inr False)"
    by (intro exI[of _ 2]) (simp add: cond)
  have g1: "fst (uploadReady ?app2 10 ''pvc-dst'' ''prod'') = Inr ()"
    using uploadReady_gate[where app = ?app2 and ticks = 10 and pvcName = "''pvc-dst''"
            and ns = "''prod''", THEN conjunct2, THEN conjunct1] ex2 by simp
  have ex11: "\<exists>k\<le>Suc (min 10 10). readyCondition ''pvc-dst'' (client ?app11 k ''prod'' ''pvc-dst'') = Inr True \<and>
        (\<forall>j<k. readyCondition ''pvc-dst'' (client ?app11 j ''prod'' ''pvc-dst'') = Inr False)"
    by (intro exI[of _ 11]) (simp add: cond)
  have g11: "fst (uploadReady ?app11 10 ''pvc-dst'' ''prod'') = Inr ()"
    using uploadReady_gate[where app = ?app11 and ticks = 10 and pvcName = "''pvc-dst''"
            and ns = "''prod''", THEN conjunct2, THEN conjunct1] ex11 by simp
  have never: "\<forall>j\<le>Suc (min 10 10).
        readyCondition ''pvc-dst'' (client ?app j ''prod'' ''pvc-dst'') = Inr False"
    by (simp add: cond)
  have out: "uploadReady ?app 10 ''pvc-dst'' ''prod'' =
        (Inl ErrWaitTimeout, replicate (2 + min 10 10) (CallGetPVC ''prod'' ''pvc-dst''))"
    by (rule mp[OF uploadReady_gate[where app = ?app and ticks = 10 and pvcName = "''pvc-dst''"
            and ns = "''prod''", THEN conjunct2, THEN conjunct2, THEN conjunct2, THEN conjunct1]
          never])
  have h: "lookup (Header (uploadRequest ''Bearer abc.def'')) ''Authorization'' = ''Bearer abc.def''"
    by (simp add: uploadRequest_def lookup_def)
  have v: "tokenValidator ?app ''abc.def'' = Inr uploadPayload"
    by (simp add: proxyApp_def)
  have pre: "FindStringSubmatch (lookup (Header (uploadRequest ''Bearer abc.def'')) ''Authorization'') =
      [''Bearer abc.def'', ''abc.def''] \<and>
    tokenValidator ?app ''abc.def'' = Inr uploadPayload \<and> Operation uploadPayload = OperationUpload \<and>
    TokName uploadPayload \<noteq> [] \<and> TokNamespace uploadPayload \<noteq> [] \<and>
    Resource (TokResource uploadPayload) = ''persistentvolumeclaims'' \<and>
    fst (uploadReady ?app 10 (TokName uploadPayload) (TokNamespace uploadPayload)) \<noteq> Inr ()"
    using out v h FindStringSubmatch_example by (simp add: uploadPayload_def)
  have g2: "status (handleUploadRequest httpLib ?app 10 (uploadRequest ''Bearer abc.def'')) = Some 503 \<and>
            body (handleUploadRequest httpLib ?app 10 (uploadRequest ''Bearer abc.def'')) = [] \<and>
            \<not> panicked (handleUploadRequest httpLib ?app 10 (uploadRequest ''Bearer abc.def'')) \<and>
            calls (handleUploadRequest httpLib ?app 10 (uploadRequest ''Bearer abc.def'')) =
              CallValidate ''abc.def'' #
                snd (uploadReady ?app 10 (TokName uploadPayload) (TokNamespace uploadPayload)) \<and>
            set (calls (handleUploadRequest httpLib ?app 10 (uploadRequest ''Bearer abc.def''))) \<subseteq>
              {CallValidate ''abc.def'', CallGetPVC (TokNamespace uploadPayload) (TokName uploadPayload)}"
    by (rule mp[OF uploadReady_gate[where app = ?app and ticks = 10 and lib = httpLib
            and r = "uploadRequest ''Bearer abc.def''" and h = "''Bearer abc.def''"
            and tok = "''abc.def''" and td = uploadPayload,
            THEN conjunct2, THEN conjunct2, THEN conjunct2, THEN conjunct2, THEN conjunct2,
            THEN conjunct2] pre])
  have names: "TokName uploadPayload = ''pvc-dst''" "TokNamespace uploadPayload = ''prod''"
    by (simp_all add: uploadPayload_def)
  show ?thesis
    using g1 g11 g2 by (simp add: names out)
qed

text \<open>
  Claim C3 as stated lets the gate succeed only for \<open>PodReady\<close> equal to \<^verbatim>\<open>true\<close>. A
  claim whose annotation is \<^verbatim>\<open>1\<close> passes the gate, and the request is proxied.
\<close>

theorem uploadReady_other_spelling_counterexample:
  "fst (uploadReady (proxyApp (readyFrom 0 ''1'') (Some upstreamOK, None) uploadPayload)
          10 ''pvc-dst'' ''prod'') = Inr () \<and>
   (\<forall>i. \<exists>pvc. client (proxyApp (readyFrom 0 ''1'') (Some upstreamOK, None) uploadPayload)
                  i ''prod'' ''pvc-dst'' = Inr pvc \<and>
                Annotations (PvcMeta pvc) AnnPodReady = Some ''1'') \<and>
   status (handleUploadRequest httpLib
             (proxyApp (readyFrom 0 ''1'') (Some upstreamOK, None) uploadPayload) 10
             (uploadRequest ''Bearer abc.def'')) = Some 200"
  by (simp add: uploadReady_def PollImmediate_def waitReadyTime_def waitReadyImterval_def proxyApp_def readyFrom_def readyCondition_def
        targetPVC_def objectMeta_def lookup_def AnnPodPhase_def AnnPodReady_def PodSucceeded_def
        ParseBool_def handleUploadRequest_def FindStringSubmatch_example uploadRequest_def
        uploadPayload_def proxyUploadRequest_def httpLib_def upstreamOK_def prependCalls_def
        Let_def eval_nat_numeral)

lemma FindStringSubmatch_shape:
  "FindStringSubmatch s = [] \<or> (\<exists>tok. FindStringSubmatch s = [s, tok])"
  by (auto simp: FindStringSubmatch_def Let_def split: option.splits)

lemma matchFold_append:
  "list_all2 (\<lambda>c p. c = fst p \<or> c = snd p) b ps \<Longrightarrow> matchFold ps (b @ rest) = Some rest"
  by (induction b ps rule: list_all2_induct) auto

lemma matchFold_Some:
  "matchFold ps s = Some rest \<Longrightarrow>
     \<exists>b. s = b @ rest \<and> list_all2 (\<lambda>c p. c = fst p \<or> c = snd p) b ps"
proof (induction ps s rule: matchFold.induct)
  case (1 s)
  then show ?case by simp
next
  case (2 u l ps)
  then show ?case by simp
next
  case (3 u l ps c cs)
  from "3.prems" have m: "c = u \<or> c = l" and r: "matchFold ps cs = Some rest"
    by (auto split: if_splits)
  from "3.IH"[OF m r] obtain b where "cs = b @ rest"
    "list_all2 (\<lambda>c p. c = fst p \<or> c = snd p) b ps" by blast
  with m show ?case by (intro exI[of _ "c # b"]) auto
qed

lemma tokenRunes_ascii: "\<forall>c\<in>set tok. isTokenChar c \<Longrightarrow> tokenRunes tok"
  by (induction tok) auto

lemma isTokenChar_not_isSpace: "isTokenChar c \<Longrightarrow> \<not> isSpace c"
  by (auto simp: isTokenChar_def isSpace_def)

lemma tokenRunes_hd: "tokenRunes (c # cs) \<Longrightarrow> \<not> isSpace c"
  by (auto simp: isTokenChar_def isSpace_def split: if_splits)

lemma FindStringSubmatch_complete:
  assumes b: "list_all2 (\<lambda>c p. c = fst p \<or> c = snd p) b (zip ''BEARER'' ''bearer'')"
      and sp: "sp \<noteq> []" "set sp \<subseteq> {CHR 0x09, CHR 0x0A, CHR 0x0C, CHR 0x0D, CHR 0x20}"
      and tok: "tok \<noteq> []" "tokenRunes tok"
  shows "FindStringSubmatch (b @ sp @ tok) = [b @ sp @ tok, tok]"
proof -
  from tok obtain t ts where t: "tok = t # ts" by (cases tok) auto
  with tok(2) have nt: "\<not> isSpace t" using tokenRunes_hd by blast
  have allsp: "\<forall>x\<in>set sp. isSpace x" using sp(2) by (auto simp: isSpace_def)
  have tw: "takeWhile isSpace (sp @ tok) = sp"
    using allsp nt t by (simp add: takeWhile_append2)
  have dw: "dropWhile isSpace (sp @ tok) = tok"
    using allsp nt t by (simp add: dropWhile_append2)
  have m: "matchFold bearerLiteral (b @ sp @ tok) = Some (sp @ tok)"
    using matchFold_append[OF b] by (simp add: bearerLiteral_def)
  show ?thesis
    using sp(1) tok by (simp add: FindStringSubmatch_def m tw dw Let_def)
qed

lemma FindStringSubmatch_sound:
  assumes "FindStringSubmatch s = [h, tok]"
  shows "h = s \<and> (\<exists>b sp. s = b @ sp @ tok \<and>
           list_all2 (\<lambda>c p. c = fst p \<or> c = snd p) b (zip ''BEARER'' ''bearer'') \<and>
           sp \<noteq> [] \<and> set sp \<subseteq> {CHR 0x09, CHR 0x0A, CHR 0x0C, CHR 0x0D, CHR 0x20} \<and>
           tok \<noteq> [] \<and> tokenRunes tok)"
proof -
  from assms obtain rest where m: "matchFold bearerLiteral s = Some rest"
    by (auto simp: FindStringSubmatch_def split: option.splits)
  with assms have h: "h = s" and tk: "tok = dropWhile isSpace rest"
    and ne: "takeWhile isSpace rest \<noteq> []" "tok \<noteq> []" and tr: "tokenRunes tok"
    by (auto simp: FindStringSubmatch_def Let_def split: if_splits)
  from matchFold_Some[OF m] obtain b where b: "s = b @ rest"
    "list_all2 (\<lambda>c p. c = fst p \<or> c = snd p) b (zip ''BEARER'' ''bearer'')"
    by (auto simp: bearerLiteral_def)
  have "rest = takeWhile isSpace rest @ tok" using tk by simp
  with b have "s = b @ takeWhile isSpace rest @ tok" by simp
  moreover have "set (takeWhile isSpace rest) \<subseteq> {CHR 0x09, CHR 0x0A, CHR 0x0C, CHR 0x0D, CHR 0x20}"
    using set_takeWhileD[of _ isSpace rest] by (auto simp: isSpace_def)
  ultimately show ?thesis using h b(2) ne tr by blast
qed

lemma tokenRunes_bytes:
  "tokenRunes tok \<Longrightarrow>
     set tok \<subseteq> set ''ABCDEFGHIJKLMNOPQRSTUVWXYZabcdefghijklmnopqrstuvwxyz0123456789-._~+/'' \<union>
               {CHR 0xC5, CHR 0xBF, CHR 0xE2, CHR 0x84, CHR 0xAA}"
proof (induction tok rule: tokenRunes.induct)
  case 1
  then show ?case by simp
next
  case (2 c cs)
  show ?case
  proof (cases "isTokenChar c")
    case True
    with 2 show ?thesis by (auto simp: isTokenChar_def)
  next
    case nt: False
    show ?thesis
    proof (cases "c = CHR 0xC5 \<and> take 1 cs = [CHR 0xBF]")
      case True
      then obtain cs' where cs: "cs = CHR 0xBF # cs'" by (cases cs) auto
      with "2.prems" nt True have "tokenRunes cs'" by simp
      with "2.IH"(2)[OF nt True] cs True show ?thesis by auto
    next
      case n1: False
      with "2.prems" nt have e2: "c = CHR 0xE2 \<and> take 2 cs = [CHR 0x84, CHR 0xAA]"
        by (auto split: if_splits)
      then obtain cs' where cs: "cs = CHR 0x84 # CHR 0xAA # cs'"
        by (cases cs; cases "tl cs") auto
      with "2.prems" nt n1 e2 have "tokenRunes cs'" by simp
      with "2.IH"(3)[OF nt n1 e2] cs e2 show ?thesis by auto
    qed
  qed
qed

text \<open>
  Claim C8. For an absent (empty) Authorization header, or one the matcher rejects, the
  handler writes status 400 and returns having called nothing, the validator included; for
  a header that matches and whose token the validator rejects it writes 401; for a
  validated payload with an operation other than upload, an empty name, an empty namespace
  or a resource other than \<^verbatim>\<open>persistentvolumeclaims\<close> it writes 400. In the last two cases
  the validator is the only collaborator called. No body is written and the handler does
  not panic.

  The matcher gives nil or the pair of the whole header and the token. It accepts a header
  made of the six letters of \<^verbatim>\<open>Bearer\<close>, each in either case, one or more white-space bytes
  and a token that is not empty and drawn from \<^verbatim>\<open>[A-Za-z0-9\-._~+/]\<close>; and a header it accepts
  is made of these three parts and of nothing else, every byte of the token being of that
  class or a byte of U+017F or U+212A.
\<close>

theorem handleUploadRequest_auth_statuses:
  "(lookup (Header r) ''Authorization'' = [] \<or>
    FindStringSubmatch (lookup (Header r) ''Authorization'') = [] \<longrightarrow>
      status (handleUploadRequest lib app ticks r) = Some 400 \<and>
      calls (handleUploadRequest lib app ticks r) = [] \<and>
      body (handleUploadRequest lib app ticks r) = [] \<and>
      \<not> panicked (handleUploadRequest lib app ticks r)) \<and>
   (FindStringSubmatch (lookup (Header r) ''Authorization'') = [h, tok] \<and>
    tokenValidator app tok = Inl err \<longrightarrow>
      status (handleUploadRequest lib app ticks r) = Some 401 \<and>
      calls (handleUploadRequest lib app ticks r) = [CallValidate tok] \<and>
      body (handleUploadRequest lib app ticks r) = [] \<and>
      \<not> panicked (handleUploadRequest lib app ticks r)) \<and>
   (FindStringSubmatch (lookup (Header r) ''Authorization'') = [h, tok] \<and>
    tokenValidator app tok = Inr td \<and>
    (Operation td \<noteq> OperationUpload \<or> TokName td = [] \<or> TokNamespace td = [] \<or>
     Resource (TokResource td) \<noteq> ''persistentvolumeclaims'') \<longrightarrow>
      status (handleUploadRequest lib app ticks r) = Some 400 \<and>
      calls (handleUploadRequest lib app ticks r) = [CallValidate tok] \<and>
      body (handleUploadRequest lib app ticks r) = [] \<and>
      \<not> panicked (handleUploadRequest lib app ticks r)) \<and>
   (FindStringSubmatch (lookup (Header r) ''Authorization'') = [] \<or>
    (\<exists>t. FindStringSubmatch (lookup (Header r) ''Authorization'') =
           [lookup (Header r) ''Authorization'', t])) \<and>
   (list_all2 (\<lambda>c p. c = fst p \<or> c = snd p) b (zip ''BEARER'' ''bearer'') \<and>
    sp \<noteq> [] \<and> set sp \<subseteq> {CHR 0x09, CHR 0x0A, CHR 0x0C, CHR 0x0D, CHR 0x20} \<and>
    tk \<noteq> [] \<and>
    set tk \<subseteq> set ''ABCDEFGHIJKLMNOPQRSTUVWXYZabcdefghijklmnopqrstuvwxyz0123456789-._~+/'' \<longrightarrow>
      FindStringSubmatch (b @ sp @ tk) = [b @ sp @ tk, tk]) \<and>
   (FindStringSubmatch s = [h, tok] \<longrightarrow>
      h = s \<and>
      (\<exists>b sp. s = b @ sp @ tok \<and>
         list_all2 (\<lambda>c p. c = fst p \<or> c = snd p) b (zip ''BEARER'' ''bearer'') \<and>
         sp \<noteq> [] \<and> set sp \<subseteq> {CHR 0x09, CHR 0x0A, CHR 0x0C, CHR 0x0D, CHR 0x20} \<and>
         tok \<noteq> [] \<and> tokenRunes tok \<and>
         set tok \<subseteq>
           set ''ABCDEFGHIJKLMNOPQRSTUVWXYZabcdefghijklmnopqrstuvwxyz0123456789-._~+/'' \<union>
           {CHR 0xC5, CHR 0xBF, CHR 0xE2, CHR 0x84, CHR 0xAA}))"
proof (intro conjI impI)
  assume a: "list_all2 (\<lambda>c p. c = fst p \<or> c = snd p) b (zip ''BEARER'' ''bearer'') \<and>
    sp \<noteq> [] \<and> set sp \<subseteq> {CHR 0x09, CHR 0x0A, CHR 0x0C, CHR 0x0D, CHR 0x20} \<and>
    tk \<noteq> [] \<and>
    set tk \<subseteq> set ''ABCDEFGHIJKLMNOPQRSTUVWXYZabcdefghijklmnopqrstuvwxyz0123456789-._~+/''"
  then have sub: "set tk \<subseteq>
      set ''ABCDEFGHIJKLMNOPQRSTUVWXYZabcdefghijklmnopqrstuvwxyz0123456789-._~+/''"
    by blast
  have "\<forall>c\<in>set tk. isTokenChar c"
    unfolding isTokenChar_def using sub by blast
  then have tr: "tokenRunes tk" by (rule tokenRunes_ascii)
  from a tr show "FindStringSubmatch (b @ sp @ tk) = [b @ sp @ tk, tk]"
    by (intro FindStringSubmatch_complete) blast+
next
  assume a: "FindStringSubmatch s = [h, tok]"
  from FindStringSubmatch_sound[OF a] tokenRunes_bytes[of tok]
  show "h = s" and "\<exists>b sp. s = b @ sp @ tok \<and>
         list_all2 (\<lambda>c p. c = fst p \<or> c = snd p) b (zip ''BEARER'' ''bearer'') \<and>
         sp \<noteq> [] \<and> set sp \<subseteq> {CHR 0x09, CHR 0x0A, CHR 0x0C, CHR 0x0D, CHR 0x20} \<and>
         tok \<noteq> [] \<and> tokenRunes tok \<and>
         set tok \<subseteq>
           set ''ABCDEFGHIJKLMNOPQRSTUVWXYZabcdefghijklmnopqrstuvwxyz0123456789-._~+/'' \<union>
           {CHR 0xC5, CHR 0xBF, CHR 0xE2, CHR 0x84, CHR 0xAA}"
    by blast+
next
  assume "lookup (Header r) ''Authorization'' = [] \<or>
    FindStringSubmatch (lookup (Header r) ''Authorization'') = []"
  then have eq: "handleUploadRequest lib app ticks r = respond [] StatusBadRequest"
    by (auto simp: handleUploadRequest_def Let_def)
  show "status (handleUploadRequest lib app ticks r) = Some 400"
    by (simp add: eq respond_def StatusBadRequest_def)
  show "calls (handleUploadRequest lib app ticks r) = []"
    by (simp add: eq respond_def)
  show "body (handleUploadRequest lib app ticks r) = []"
    by (simp add: eq respond_def)
  show "\<not> panicked (handleUploadRequest lib app ticks r)"
    by (simp add: eq respond_def)
next
  assume a: "FindStringSubmatch (lookup (Header r) ''Authorization'') = [h, tok] \<and>
    tokenValidator app tok = Inl err"
  then have "lookup (Header r) ''Authorization'' \<noteq> []"
    by (auto simp: FindStringSubmatch_def bearerLiteral_def)
  with a have eq: "handleUploadRequest lib app ticks r =
                     respond [CallValidate tok] StatusUnauthorized"
    by (simp add: handleUploadRequest_def Let_def)
  show "status (handleUploadRequest lib app ticks r) = Some 401"
    by (simp add: eq respond_def StatusUnauthorized_def)
  show "calls (handleUploadRequest lib app ticks r) = [CallValidate tok]"
    by (simp add: eq respond_def)
  show "body (handleUploadRequest lib app ticks r) = []"
    by (simp add: eq respond_def)
  show "\<not> panicked (handleUploadRequest lib app ticks r)"
    by (simp add: eq respond_def)
next
  assume a: "FindStringSubmatch (lookup (Header r) ''Authorization'') = [h, tok] \<and>
    tokenValidator app tok = Inr td \<and>
    (Operation td \<noteq> OperationUpload \<or> TokName td = [] \<or> TokNamespace td = [] \<or>
     Resource (TokResource td) \<noteq> ''persistentvolumeclaims'')"
  then have "lookup (Header r) ''Authorization'' \<noteq> []"
    by (auto simp: FindStringSubmatch_def bearerLiteral_def)
  with a have eq: "handleUploadRequest lib app ticks r =
                     respond [CallValidate tok] StatusBadRequest"
    by (auto simp: handleUploadRequest_def Let_def)
  show "status (handleUploadRequest lib app ticks r) = Some 400"
    by (simp add: eq respond_def StatusBadRequest_def)
  show "calls (handleUploadRequest lib app ticks r) = [CallValidate tok]"
    by (simp add: eq respond_def)
  show "body (handleUploadRequest lib app ticks r) = []"
    by (simp add: eq respond_def)
  show "\<not> panicked (handleUploadRequest lib app ticks r)"
    by (simp add: eq respond_def)
next
  show "FindStringSubmatch (lookup (Header r) ''Authorization'') = [] \<or>
    (\<exists>t. FindStringSubmatch (lookup (Header r) ''Authorization'') =
           [lookup (Header r) ''Authorization'', t])"
    by (rule FindStringSubmatch_shape)
qed

theorem handleUploadRequest_auth_statuses_witness:
  "status (handleUploadRequest httpLib
     (proxyApp (readyFrom 0 ''true'') (Some upstreamOK, None) uploadPayload)
     10 (uploadRequest ''Basic xxx'')) = Some 400 \<and>
   calls (handleUploadRequest httpLib
     (proxyApp (readyFrom 0 ''true'') (Some upstreamOK, None) uploadPayload)
     10 (uploadRequest ''Basic xxx'')) = [] \<and>
   status (handleUploadRequest httpLib
     (proxyApp (readyFrom 0 ''true'') (Some upstreamOK, None) uploadPayload)
     10 (uploadRequest ''Bearer abc def'')) = Some 400 \<and>
   calls (handleUploadRequest httpLib
     (proxyApp (readyFrom 0 ''true'') (Some upstreamOK, None) uploadPayload)
     10 (uploadRequest ''Bearer abc def'')) = [] \<and>
   FindStringSubmatch (''bEaReR'' @ [CHR 0x09, CHR 0x20] @ ''a-b._~+/9'') =
     [''bEaReR'' @ [CHR 0x09, CHR 0x20] @ ''a-b._~+/9'', ''a-b._~+/9''] \<and>
   status (handleUploadRequest httpLib
     (proxyApp (readyFrom 0 ''true'') (Some upstreamOK, None) uploadPayload)
     10 (uploadRequest ''Bearer xyz'')) = Some 401 \<and>
   calls (handleUploadRequest httpLib
     (proxyApp (readyFrom 0 ''true'') (Some upstreamOK, None) uploadPayload)
     10 (uploadRequest ''Bearer xyz'')) = [CallValidate ''xyz''] \<and>
   status (handleUploadRequest httpLib
     (proxyApp (readyFrom 0 ''true'') (Some upstreamOK, None) (uploadPayload\<lparr>Operation := OperationClone\<rparr>))
     10 (uploadRequest ''bearer  abc.def'')) = Some 400 \<and>
   calls (handleUploadRequest httpLib
     (proxyApp (readyFrom 0 ''true'') (Some upstreamOK, None) (uploadPayload\<lparr>Operation := OperationClone\<rparr>))
     10 (uploadRequest ''bearer  abc.def'')) = [CallValidate ''abc.def'']"
proof -
  let ?app = "proxyApp (readyFrom 0 ''true'') (Some upstreamOK, None) uploadPayload"
  let ?app2 = "proxyApp (readyFrom 0 ''true'') (Some upstreamOK, None)
                 (uploadPayload\<lparr>Operation := OperationClone\<rparr>)"
  have m1: "FindStringSubmatch ''Basic xxx'' = []"
    by (simp add: FindStringSubmatch_def bearerLiteral_def)
  have m2: "FindStringSubmatch ''Bearer xyz'' = [''Bearer xyz'', ''xyz'']"
    by (simp add: FindStringSubmatch_def bearerLiteral_def isSpace_def isTokenChar_def Let_def)
  have m3: "FindStringSubmatch ''bearer  abc.def'' = [''bearer  abc.def'', ''abc.def'']"
    by (simp add: FindStringSubmatch_def bearerLiteral_def isSpace_def isTokenChar_def Let_def)
  have h: "\<And>a. lookup (Header (uploadRequest a)) ''Authorization'' = a"
    by (simp add: uploadRequest_def lookup_def)
  have g1: "status (handleUploadRequest httpLib ?app 10 (uploadRequest ''Basic xxx'')) = Some 400 \<and>
            calls (handleUploadRequest httpLib ?app 10 (uploadRequest ''Basic xxx'')) = [] \<and>
            body (handleUploadRequest httpLib ?app 10 (uploadRequest ''Basic xxx'')) = [] \<and>
            \<not> panicked (handleUploadRequest httpLib ?app 10 (uploadRequest ''Basic xxx''))"
    by (rule mp[OF handleUploadRequest_auth_statuses[THEN conjunct1]]) (simp add: h m1)
  have m4: "FindStringSubmatch ''Bearer abc def'' = []"
    by (simp add: FindStringSubmatch_def bearerLiteral_def isSpace_def isTokenChar_def Let_def)
  have g4: "status (handleUploadRequest httpLib ?app 10 (uploadRequest ''Bearer abc def'')) = Some 400 \<and>
            calls (handleUploadRequest httpLib ?app 10 (uploadRequest ''Bearer abc def'')) = [] \<and>
            body (handleUploadRequest httpLib ?app 10 (uploadRequest ''Bearer abc def'')) = [] \<and>
            \<not> panicked (handleUploadRequest httpLib ?app 10 (uploadRequest ''Bearer abc def''))"
    by (rule mp[OF handleUploadRequest_auth_statuses[THEN conjunct1]]) (simp add: h m4)
  have g5: "FindStringSubmatch (''bEaReR'' @ [CHR 0x09, CHR 0x20] @ ''a-b._~+/9'') =
              [''bEaReR'' @ [CHR 0x09, CHR 0x20] @ ''a-b._~+/9'', ''a-b._~+/9'']"
    by (rule mp[OF handleUploadRequest_auth_statuses[THEN conjunct2, THEN conjunct2,
                  THEN conjunct2, THEN conjunct2, THEN conjunct1]]) simp
  have g2: "status (handleUploadRequest httpLib ?app 10 (uploadRequest ''Bearer xyz'')) = Some 401 \<and>
            calls (handleUploadRequest httpLib ?app 10 (uploadRequest ''Bearer xyz'')) =
              [CallValidate ''xyz''] \<and>
            body (handleUploadRequest httpLib ?app 10 (uploadRequest ''Bearer xyz'')) = [] \<and>
            \<not> panicked (handleUploadRequest httpLib ?app 10 (uploadRequest ''Bearer xyz''))"
    by (rule mp[OF handleUploadRequest_auth_statuses[where h = "''Bearer xyz''"
                  and err = "External ''bad token''", THEN conjunct2, THEN conjunct1]])
       (simp add: h m2 proxyApp_def)
  have g3: "status (handleUploadRequest httpLib ?app2 10 (uploadRequest ''bearer  abc.def'')) = Some 400 \<and>
            calls (handleUploadRequest httpLib ?app2 10 (uploadRequest ''bearer  abc.def'')) =
              [CallValidate ''abc.def''] \<and>
            body (handleUploadRequest httpLib ?app2 10 (uploadRequest ''bearer  abc.def'')) = [] \<and>
            \<not> panicked (handleUploadRequest httpLib ?app2 10 (uploadRequest ''bearer  abc.def''))"
    by (rule mp[OF handleUploadRequest_auth_statuses[where h = "''bearer  abc.def''"
                  and td = "uploadPayload\<lparr>Operation := OperationClone\<rparr>",
                  THEN conjunct2, THEN conjunct2, THEN conjunct1]])
       (simp add: h m3 proxyApp_def)
  show ?thesis using g1 g2 g3 g4 g5 by simp
qed

text \<open>
  Claim C5 fails on the code. \<^verbatim>\<open>proxyUploadRequest\<close> logs the error of \<^verbatim>\<open>CreateClient\<close>
  and goes on to call \<^verbatim>\<open>Do\<close> on the client it was given; the production creator returns
  a nil client with every error, so the handler ends in a nil-pointer panic and writes no
  status.
\<close>

theorem proxyUploadRequest_client_error_panics:
  "CreateClient httpLib \<lparr>CertBytes = Inl (External ''no certificate''), KeyBytes = Inr ''key'',
                         BundleBytes = Inr ''bundle''\<rparr> = (None, Some (External ''no certificate'')) \<and>
   handleUploadRequest httpLib
     (proxyApp (readyFrom 0 ''true'')
        (CreateClient httpLib \<lparr>CertBytes = Inl (External ''no certificate''), KeyBytes = Inr ''key'',
                                BundleBytes = Inr ''bundle''\<rparr>) uploadPayload)
     10 (uploadRequest ''Bearer abc.def'') =
     \<lparr>status = None, body = [],
      calls = [CallValidate ''abc.def'', CallGetPVC ''prod'' ''pvc-dst'', CallCreateClient],
      panicked = True\<rparr>"
  by (simp add: uploadReady_def PollImmediate_def waitReadyTime_def waitReadyImterval_def proxyApp_def readyFrom_def readyCondition_def
        targetPVC_def objectMeta_def lookup_def AnnPodPhase_def AnnPodReady_def PodSucceeded_def
        ParseBool_def handleUploadRequest_def FindStringSubmatch_example uploadRequest_def
        uploadPayload_def proxyUploadRequest_def httpLib_def prependCalls_def CreateClient_def
        panic_def Let_def eval_nat_numeral)

theorem proxyUploadRequest_client_error_panics_witness:
  "panicked (handleUploadRequest httpLib
     (proxyApp (readyFrom 0 ''true'')
        (CreateClient httpLib \<lparr>CertBytes = Inl (External ''no certificate''), KeyBytes = Inr ''key'',
                                BundleBytes = Inr ''bundle''\<rparr>) uploadPayload)
     10 (uploadRequest ''Bearer abc.def'')) \<and>
   status (handleUploadRequest httpLib
     (proxyApp (readyFrom 0 ''true'')
        (CreateClient httpLib \<lparr>CertBytes = Inl (External ''no certificate''), KeyBytes = Inr ''key'',
                                BundleBytes = Inr ''bundle''\<rparr>) uploadPayload)
     10 (uploadRequest ''Bearer abc.def'')) = None"
  by (simp only: proxyUploadRequest_client_error_panics[THEN conjunct2]) simp

section \<open>Properties of the clone reconciler\<close>

lemmas store_defs = samePVC_def samePod_def storeGetPVC_def storeListPods_def storeCreatePod_def
  storeDeletePod_def storeUpdatePVC_def outcome_def serve_def ClientGet_def ClientList_def
  ClientCreate_def ClientDelete_def ClientUpdate_def recorderEvent_def updatePVC_def

lemmas reconciler_defs = HasAnnotation_def checkPVC_def podSucceededFromPVC_def shouldReconcile_def
  hasFinalizer_def addFinalizer_def removeFinalizer_def setAnnotation_def
  waitTargetPodRunningOrSucceeded_def getCloneSourcePodName_def findCloneSourcePod_def
  getCloneRequestSourcePVC_def validateSourceAndTarget_def MetaNamespaceKeyFunc_def
  MakeCloneSourcePodSpec_def CreateCloneSourcePod_def reconcileSourcePod_def updatePvcFromPod_def
  cleanup_def Reconcile_def

lemmas constant_defs = AnnCloneRequest_def AnnCloneOf_def AnnCloneToken_def CloneUniqueID_def
  CloneSucceededPVC_def cloneSourcePodFinalizer_def ResourceStorage_def PersistentVolumeBlock_def
  PersistentVolumeFilesystem_def AnnPodPhase_def AnnPodReady_def AnnPodRestarts_def
  AnnUploadClientName_def PodSucceeded_def PodRunning_def AnnCreatedBy_def AnnOwnerRef_def

lemmas scenario_defs = objectMeta_def targetPVC_def sourcePVC_def clonePayload_def
  cloneValidator_def cloneReconciler_def cloneAnnotations_def clonePod_def

lemmas parser_defs = ParseCloneRequestAnnotation_def Split_def validateCloneToken_def
  ValidateCanCloneSourceAndTargetSpec_def storageRequest_def effectiveVolumeMode_def lookup_def
  ParseBool_def IsNotFound_def

lemma map_eq_upd_iff: "(m = m(k := v)) = (m k = v)"
  by (auto simp: fun_eq_iff)

lemmas eval_defs = store_defs reconciler_defs constant_defs scenario_defs parser_defs Let_def
  freshCluster_def succeededCluster_def runningCluster_def resultOf_def clusterAfter_def
  callsOf_def map_eq_upd_iff

subsection \<open>The lookup of the source pod\<close>

lemma findCloneSourcePod_served:
  assumes "ParseCloneRequestAnnotation pvc = (True, sourceNamespace, sourceName)"
      and "labelSelector r (UID (PvcMeta pvc) @ ''-source-pod'') = None"
      and "Client r (ListPods sourceNamespace CloneUniqueID (UID (PvcMeta pvc) @ ''-source-pod'')) = None"
  shows "findCloneSourcePod r c pvc =
           ((case filter (\<lambda>p. (sourceNamespace = [] \<or> Namespace (PodMeta p) = sourceNamespace) \<and>
                              Labels (PodMeta p) CloneUniqueID = Some (UID (PvcMeta pvc) @ ''-source-pod''))
                    (pods c) of
               [] \<Rightarrow> Inr None
             | [pod] \<Rightarrow> Inr (Some pod)
             | pod # rest \<Rightarrow>
                 Inl (New (''multiple source pods found for clone PVC '' @
                           Namespace (PvcMeta pvc) @ ''/'' @ Name (PvcMeta pvc)))),
            c,
            [(ListPods sourceNamespace CloneUniqueID (UID (PvcMeta pvc) @ ''-source-pod''), None)])"
  using assms
  by (simp add: findCloneSourcePod_def ClientList_def serve_def storeListPods_def outcome_def
      split: list.splits)

text \<open>
  Claim C6. For a claim whose clone request parses, and when the selector is built and the
  list call is served, \<^verbatim>\<open>findCloneSourcePod\<close> makes one call, the list of the pods of the
  source namespace (of every namespace, should the request name an empty one) that carry
  the label \<open>CloneUniqueID\<close> with the value \<^verbatim>\<open><uid>-source-pod\<close>, and leaves the cluster
  as it is: no match gives no pod, one match gives that pod, more than one gives the error
  \<^verbatim>\<open>multiple source pods found\<close>.
\<close>

theorem findCloneSourcePod_cases:
  assumes "ParseCloneRequestAnnotation pvc = (True, sourceNamespace, sourceName)"
      and "labelSelector r (UID (PvcMeta pvc) @ ''-source-pod'') = None"
      and "Client r (ListPods sourceNamespace CloneUniqueID (UID (PvcMeta pvc) @ ''-source-pod'')) = None"
  shows "findCloneSourcePod r c pvc =
           ((case filter (\<lambda>p. (sourceNamespace = [] \<or> Namespace (PodMeta p) = sourceNamespace) \<and>
                              Labels (PodMeta p) CloneUniqueID = Some (UID (PvcMeta pvc) @ ''-source-pod''))
                    (pods c) of
               [] \<Rightarrow> Inr None
             | [pod] \<Rightarrow> Inr (Some pod)
             | pod # rest \<Rightarrow>
                 Inl (New (''multiple source pods found for clone PVC '' @
                           Namespace (PvcMeta pvc) @ ''/'' @ Name (PvcMeta pvc)))),
            c,
            [(ListPods sourceNamespace CloneUniqueID (UID (PvcMeta pvc) @ ''-source-pod''), None)])"
  using assms by (rule findCloneSourcePod_served)

theorem findCloneSourcePod_cases_witness:
  "fst (findCloneSourcePod cloneReconciler \<lparr>pvcs = [], pods = []\<rparr> (targetPVC cloneAnnotations [])) =
     Inr None \<and>
   fst (findCloneSourcePod cloneReconciler
          \<lparr>pvcs = [], pods = [clonePod ''a'' ''Running'' None]\<rparr> (targetPVC cloneAnnotations [])) =
     Inr (Some (clonePod ''a'' ''Running'' None)) \<and>
   fst (findCloneSourcePod cloneReconciler
          \<lparr>pvcs = [], pods = [clonePod ''a'' ''Running'' None, clonePod ''b'' ''Running'' None]\<rparr>
          (targetPVC cloneAnnotations [])) =
     Inl (New ''multiple source pods found for clone PVC prod/pvc-dst'')"
proof -
  let ?pvc = "targetPVC cloneAnnotations []"
  have p: "ParseCloneRequestAnnotation ?pvc = (True, ''stage'', ''pvc-src'')"
    by (simp add: parser_defs scenario_defs constant_defs)
  have l: "labelSelector cloneReconciler (UID (PvcMeta ?pvc) @ ''-source-pod'') = None"
    by (simp add: cloneReconciler_def)
  have f: "Client cloneReconciler
             (ListPods ''stage'' CloneUniqueID (UID (PvcMeta ?pvc) @ ''-source-pod'')) = None"
    by (simp add: cloneReconciler_def)
  note cases = findCloneSourcePod_cases[OF p l f]
  show ?thesis
    by (simp add: cases) (simp add: scenario_defs constant_defs)
qed

subsection \<open>Restart counts as text\<close>

lemma digitVal_digitChar: "d < 10 \<Longrightarrow> digitVal (digitChar d) = Some d"
proof -
  assume "d < 10"
  then have "d = 0 \<or> d = 1 \<or> d = 2 \<or> d = 3 \<or> d = 4 \<or> d = 5 \<or> d = 6 \<or> d = 7 \<or> d = 8 \<or> d = 9"
    by arith
  then show ?thesis
    by (elim disjE) (simp_all add: digitVal_def digitChar_def)
qed

lemma digitChar_not_sign: "d < 10 \<Longrightarrow> digitChar d \<noteq> CHR ''-'' \<and> digitChar d \<noteq> CHR ''+''"
proof -
  assume "d < 10"
  then have "d = 0 \<or> d = 1 \<or> d = 2 \<or> d = 3 \<or> d = 4 \<or> d = 5 \<or> d = 6 \<or> d = 7 \<or> d = 8 \<or> d = 9"
    by arith
  then show ?thesis
    by (elim disjE) (simp_all add: digitChar_def)
qed

lemma parseDigits_snoc:
  "parseDigits acc (xs @ [c]) =
     (case parseDigits acc xs of
        None \<Rightarrow> None
      | Some m \<Rightarrow> (case digitVal c of None \<Rightarrow> None | Some d \<Rightarrow> Some (m * 10 + d)))"
  by (induction xs arbitrary: acc) (auto split: option.splits)

lemma parseDigits_digitsOf: "parseDigits 0 (digitsOf n) = Some n"
proof (induction n rule: digitsOf.induct)
  case (1 n)
  show ?case
  proof (cases "n < 10")
    case True
    then show ?thesis by (simp add: digitVal_digitChar)
  next
    case False
    with 1 have ih: "parseDigits 0 (digitsOf (n div 10)) = Some (n div 10)" by simp
    have "digitsOf n = digitsOf (n div 10) @ [digitChar (n mod 10)]"
      using False by (subst digitsOf.simps) simp
    then show ?thesis
      by (simp add: parseDigits_snoc ih digitVal_digitChar del: digitsOf.simps)
  qed
qed

lemma digitsOf_hd: "digitsOf n \<noteq> [] \<and> hd (digitsOf n) \<noteq> CHR ''-'' \<and> hd (digitsOf n) \<noteq> CHR ''+''"
proof (induction n rule: digitsOf.induct)
  case (1 n)
  show ?case
  proof (cases "n < 10")
    case True
    then show ?thesis using digitChar_not_sign[of n] by simp
  next
    case False
    with 1 have ih: "digitsOf (n div 10) \<noteq> [] \<and> hd (digitsOf (n div 10)) \<noteq> CHR ''-'' \<and>
      hd (digitsOf (n div 10)) \<noteq> CHR ''+''" by simp
    have "digitsOf n = digitsOf (n div 10) @ [digitChar (n mod 10)]"
      using False by (subst digitsOf.simps) simp
    then show ?thesis using ih by (simp del: digitsOf.simps)
  qed
qed

lemma Atoi_Itoa:
  assumes "- (2 ^ 63) \<le> i" and "i \<le> 2 ^ 63 - 1"
  shows "Atoi (Itoa i) = (i, None)"
proof -
  have b1: "\<not> i > 2 ^ 63 - 1" and b2: "\<not> i < - (2 ^ 63)"
    using assms by simp_all
  show ?thesis
  proof (cases "i < 0")
    case True
    let ?n = "nat (- i)"
    have it: "Itoa i = CHR ''-'' # digitsOf ?n" using True by (simp add: Itoa_def)
    have v: "- int ?n = i" using True by simp
    have "Atoi (CHR ''-'' # digitsOf ?n) =
            (if - int ?n > 2 ^ 63 - 1
             then (2 ^ 63 - 1, Some (NumError ''Atoi'' (CHR ''-'' # digitsOf ?n) ErrRange))
             else if - int ?n < - (2 ^ 63)
             then (- (2 ^ 63), Some (NumError ''Atoi'' (CHR ''-'' # digitsOf ?n) ErrRange))
             else (- int ?n, None))"
      using digitsOf_hd[of ?n]
      by (simp add: Atoi_def Let_def parseDigits_digitsOf del: digitsOf.simps)
    then show ?thesis unfolding it v using b1 b2 by simp
  next
    case False
    let ?n = "nat i"
    have it: "Itoa i = digitsOf ?n" using False by (simp add: Itoa_def)
    have v: "int ?n = i" using False by simp
    have "Atoi (digitsOf ?n) =
            (if int ?n > 2 ^ 63 - 1
             then (2 ^ 63 - 1, Some (NumError ''Atoi'' (digitsOf ?n) ErrRange))
             else if int ?n < - (2 ^ 63)
             then (- (2 ^ 63), Some (NumError ''Atoi'' (digitsOf ?n) ErrRange))
             else (int ?n, None))"
      using digitsOf_hd[of ?n]
      by (simp add: Atoi_def Let_def parseDigits_digitsOf del: digitsOf.simps)
    then show ?thesis unfolding it v using b1 b2 by simp
  qed
qed

lemma Atoi_Itoa_sint: "Atoi (Itoa (sint (x :: 32 word))) = (sint x, None)"
proof -
  have "- (2 ^ 31) \<le> sint x" using sint_ge[of x] by simp
  moreover have "sint x < 2 ^ 31" using sint_lt[of x] by simp
  ultimately show ?thesis by (intro Atoi_Itoa) simp_all
qed

subsection \<open>The container statuses\<close>

text \<open>
  Claim C10 fails on the code. The guard before \<^verbatim>\<open>ContainerStatuses[0]\<close> tests the slice
  for nil, not for length: for a pod whose container statuses are an empty slice that is
  not nil, \<^verbatim>\<open>updatePvcFromPod\<close> reads index 0 out of range and panics.
\<close>

theorem updatePvcFromPod_empty_statuses:
  "ContainerStatuses (Status pod) = Some [] \<Longrightarrow>
     fst (updatePvcFromPod r c (Some pod) pvc) = Inl (Panic ''index out of range [0] with length 0'')"
  by (simp add: updatePvcFromPod_def Let_def)

theorem updatePvcFromPod_empty_statuses_witness:
  "fst (updatePvcFromPod cloneReconciler
          \<lparr>pvcs = [targetPVC cloneAnnotations []], pods = [clonePod ''a'' ''Running'' (Some [])]\<rparr>
          (Some (clonePod ''a'' ''Running'' (Some []))) (targetPVC cloneAnnotations [])) =
     Inl (Panic ''index out of range [0] with length 0'') \<and>
   fst (Reconcile cloneReconciler
          \<lparr>pvcs = [targetPVC cloneAnnotations []], pods = [clonePod ''a'' ''Running'' (Some [])]\<rparr>
          ''prod'' ''pvc-dst'') =
     Inl (Panic ''index out of range [0] with length 0'')"
proof -
  have s: "ContainerStatuses (Status (clonePod ''a'' ''Running'' (Some []))) = Some []"
    by (simp add: clonePod_def)
  have a: "fst (updatePvcFromPod cloneReconciler
          \<lparr>pvcs = [targetPVC cloneAnnotations []], pods = [clonePod ''a'' ''Running'' (Some [])]\<rparr>
          (Some (clonePod ''a'' ''Running'' (Some []))) (targetPVC cloneAnnotations [])) =
     Inl (Panic ''index out of range [0] with length 0'')"
    by (rule updatePvcFromPod_empty_statuses[OF s])
  have b: "fst (Reconcile cloneReconciler
          \<lparr>pvcs = [targetPVC cloneAnnotations []], pods = [clonePod ''a'' ''Running'' (Some [])]\<rparr>
          ''prod'' ''pvc-dst'') =
     Inl (Panic ''index out of range [0] with length 0'')"
    by (simp add: store_defs reconciler_defs constant_defs scenario_defs parser_defs Let_def)
  show ?thesis using a b by simp
qed

subsection \<open>One pass of the reconciler\<close>

text \<open>Client calls, written out.\<close>

lemma ClientGet_eq:
  "ClientGet r c ns name =
     (case Client r (GetPVC ns name) of
        Some e \<Rightarrow> (Inl e, c, [(GetPVC ns name, Some e)])
      | None \<Rightarrow>
          (case find (samePVC ns name) (pvcs c) of
             None \<Rightarrow> (Inl StatusNotFound, c, [(GetPVC ns name, Some StatusNotFound)])
           | Some pvc \<Rightarrow> (Inr pvc, c, [(GetPVC ns name, None)])))"
  by (simp add: ClientGet_def serve_def storeGetPVC_def outcome_def split: option.splits)

lemma ClientList_eq:
  "ClientList r c ns l v =
     (case Client r (ListPods ns l v) of
        Some e \<Rightarrow> (Inl e, c, [(ListPods ns l v, Some e)])
      | None \<Rightarrow>
          (Inr (filter (\<lambda>p. (ns = [] \<or> Namespace (PodMeta p) = ns) \<and> Labels (PodMeta p) l = Some v)
                  (pods c)),
           c, [(ListPods ns l v, None)]))"
  by (simp add: ClientList_def serve_def storeListPods_def outcome_def split: option.splits)

lemma ClientUpdate_eq:
  "updatePVC r c q =
     (case Client r (UpdatePVC q) of
        Some e \<Rightarrow> (Inl e, c, [(UpdatePVC q, Some e)])
      | None \<Rightarrow>
          if list_ex (samePVC (Namespace (PvcMeta q)) (Name (PvcMeta q))) (pvcs c)
          then (Inr (),
                c\<lparr>pvcs := map (\<lambda>p. if samePVC (Namespace (PvcMeta q)) (Name (PvcMeta q)) p
                                     then q else p) (pvcs c)\<rparr>,
                [(UpdatePVC q, None)])
          else (Inl StatusNotFound, c, [(UpdatePVC q, Some StatusNotFound)]))"
  by (simp add: updatePVC_def ClientUpdate_def serve_def storeUpdatePVC_def outcome_def
      split: option.splits)

lemma ClientCreate_eq:
  "ClientCreate r c pod =
     (case Client r (CreatePod pod) of
        Some e \<Rightarrow> (Inl e, c, [(CreatePod pod, Some e)])
      | None \<Rightarrow>
          if list_ex (samePod (Namespace (PodMeta pod)) (Name (PodMeta pod))) (pods c)
          then (Inl StatusAlreadyExists, c, [(CreatePod pod, Some StatusAlreadyExists)])
          else (Inr (), c\<lparr>pods := pods c @ [pod]\<rparr>, [(CreatePod pod, None)]))"
  by (simp add: ClientCreate_def serve_def storeCreatePod_def outcome_def split: option.splits)

lemma ClientDelete_eq:
  "ClientDelete r c pod =
     (case Client r (DeletePod pod) of
        Some e \<Rightarrow> (Inl e, c, [(DeletePod pod, Some e)])
      | None \<Rightarrow>
          if list_ex (samePod (Namespace (PodMeta pod)) (Name (PodMeta pod))) (pods c)
          then (Inr (),
                c\<lparr>pods := filter (\<lambda>p. \<not> samePod (Namespace (PodMeta pod)) (Name (PodMeta pod)) p)
                             (pods c)\<rparr>,
                [(DeletePod pod, None)])
          else (Inl StatusNotFound, c, [(DeletePod pod, Some StatusNotFound)]))"
  by (simp add: ClientDelete_def serve_def storeDeletePod_def outcome_def split: option.splits)

lemma find_samePVC: "find (samePVC ns name) xs = Some pvc \<Longrightarrow> samePVC ns name pvc \<and> pvc \<in> set xs"
  by (induction xs) (auto split: if_splits)

lemma find_map_update:
  "find P xs = Some x \<Longrightarrow> P q \<Longrightarrow> find P (map (\<lambda>p. if P p then q else p) xs) = Some q"
  by (induction xs) (auto split: if_splits)

lemma list_ex_find: "find P xs = Some x \<Longrightarrow> list_ex P xs"
  by (induction xs) (auto split: if_splits)

text \<open>What the lookup of the source pod reads and leaves.\<close>

lemma findCloneSourcePod_frame:
  "findCloneSourcePod r c pvc = (res, c', t) \<Longrightarrow> c' = c \<and> (\<forall>x\<in>set t. isRead (fst x))"
  by (auto simp: findCloneSourcePod_def ClientList_eq split: prod.splits if_splits option.splits)

lemma findCloneSourcePod_cong:
  "Annotations (PvcMeta q) AnnCloneRequest = Annotations (PvcMeta pvc) AnnCloneRequest \<Longrightarrow>
   UID (PvcMeta q) = UID (PvcMeta pvc) \<Longrightarrow> pods c' = pods c \<Longrightarrow>
   findCloneSourcePod r c pvc = (Inr sp, c, t) \<Longrightarrow>
   findCloneSourcePod r c' q = (Inr sp, c', t)"
  by (auto simp: findCloneSourcePod_def ClientList_eq ParseCloneRequestAnnotation_def
      split: prod.splits if_splits option.splits list.splits)

lemma validateSourceAndTarget_frame:
  "validateSourceAndTarget r c pvc = (res, c', t) \<Longrightarrow> c' = c \<and> (\<forall>x\<in>set t. isRead (fst x))"
  by (auto simp: validateSourceAndTarget_def getCloneRequestSourcePVC_def ClientGet_eq
      split: prod.splits if_splits option.splits sum.splits)

lemma CreateCloneSourcePod_shape:
  "CreateCloneSourcePod r c img pol clientName pvc = (res, c', t) \<Longrightarrow>
     pvcs c' = pvcs c \<and>
     ((\<exists>e. res = Inl e) \<and> c' = c \<and> (t = [] \<or> (\<exists>pod e. t = [(CreatePod pod, Some e)])) \<or>
      (\<exists>ns nm. ParseCloneRequestAnnotation pvc = (True, ns, nm) \<and>
         res = Inr (MakeCloneSourcePodSpec ns (MetaNamespaceKeyFunc pvc) pvc) \<and>
         c' = c\<lparr>pods := pods c @ [MakeCloneSourcePodSpec ns (MetaNamespaceKeyFunc pvc) pvc]\<rparr> \<and>
         t = [(CreatePod (MakeCloneSourcePodSpec ns (MetaNamespaceKeyFunc pvc) pvc), None)]))"
  by (auto simp: CreateCloneSourcePod_def ClientCreate_eq Let_def
      split: prod.splits if_splits option.splits sum.splits)

text \<open>One pass of \<open>Reconcile\<close>, branch by branch.\<close>

lemma Reconcile_get_fails:
  "Client r (GetPVC ns name) = Some e \<Longrightarrow>
     Reconcile r c ns name =
       (if IsNotFound e then Inr () else Inl e, c, [(GetPVC ns name, Some e)])"
  by (simp add: Reconcile_def ClientGet_eq)

lemma Reconcile_gone:
  "Client r (GetPVC ns name) = None \<Longrightarrow> find (samePVC ns name) (pvcs c) = None \<Longrightarrow>
     Reconcile r c ns name = (Inr (), c, [(GetPVC ns name, Some StatusNotFound)])"
  by (simp add: Reconcile_def ClientGet_eq IsNotFound_def)

lemma Reconcile_irrelevant:
  "Client r (GetPVC ns name) = None \<Longrightarrow> find (samePVC ns name) (pvcs c) = Some pvc \<Longrightarrow>
   \<not> shouldReconcile pvc \<Longrightarrow> \<not> hasFinalizer (PvcMeta pvc) cloneSourcePodFinalizer \<Longrightarrow>
     Reconcile r c ns name = (Inr (), c, [(GetPVC ns name, None)])"
  by (simp add: Reconcile_def ClientGet_eq)

lemma Reconcile_cleanup:
  "Client r (GetPVC ns name) = None \<Longrightarrow> find (samePVC ns name) (pvcs c) = Some pvc \<Longrightarrow>
   \<not> shouldReconcile pvc \<Longrightarrow> hasFinalizer (PvcMeta pvc) cloneSourcePodFinalizer \<Longrightarrow>
     Reconcile r c ns name =
       (case cleanup r c pvc of (res, c1, t1) \<Rightarrow> (res, c1, (GetPVC ns name, None) # t1))"
  by (auto simp: Reconcile_def ClientGet_eq split: prod.splits sum.splits)

lemma Reconcile_wait_fails:
  "Client r (GetPVC ns name) = None \<Longrightarrow> find (samePVC ns name) (pvcs c) = Some pvc \<Longrightarrow>
   shouldReconcile pvc \<Longrightarrow> waitTargetPodRunningOrSucceeded pvc = Inl e \<Longrightarrow>
     Reconcile r c ns name =
       (Inl (Wrap e ''error ensuring target upload pod running''), c, [(GetPVC ns name, None)])"
  by (simp add: Reconcile_def ClientGet_eq)

lemma Reconcile_not_ready:
  "Client r (GetPVC ns name) = None \<Longrightarrow> find (samePVC ns name) (pvcs c) = Some pvc \<Longrightarrow>
   shouldReconcile pvc \<Longrightarrow> waitTargetPodRunningOrSucceeded pvc = Inr False \<Longrightarrow>
     Reconcile r c ns name = (Inr (), c, [(GetPVC ns name, None)])"
  by (simp add: Reconcile_def ClientGet_eq)

lemma Reconcile_ready:
  "Client r (GetPVC ns name) = None \<Longrightarrow> find (samePVC ns name) (pvcs c) = Some pvc \<Longrightarrow>
   shouldReconcile pvc \<Longrightarrow> waitTargetPodRunningOrSucceeded pvc = Inr True \<Longrightarrow>
     Reconcile r c ns name =
       (case findCloneSourcePod r c pvc of
          (Inl err, c1, t1) \<Rightarrow> (Inl err, c1, (GetPVC ns name, None) # t1)
        | (Inr sp, c1, t1) \<Rightarrow>
            (case reconcileSourcePod r c1 sp pvc of
               (Inl err, c2, t2) \<Rightarrow> (Inl err, c2, (GetPVC ns name, None) # t1 @ t2)
             | (Inr u, c2, t2) \<Rightarrow>
                 (case updatePvcFromPod r c2 sp pvc of
                    (res, c3, t3) \<Rightarrow> (res, c3, (GetPVC ns name, None) # t1 @ t2 @ t3))))"
  by (auto simp: Reconcile_def ClientGet_eq split: prod.splits sum.splits)

text \<open>The claim that \<open>updatePvcFromPod\<close> persists, and when it does.\<close>

lemma updatePvcFromPod_eq:
  assumes "\<not> (\<exists>pod. sp = Some pod \<and> ContainerStatuses (Status pod) = Some [])"
  shows "updatePvcFromPod r c sp pvc =
           (let ev = (if podSucceededFromPVC pvc \<and>
                         lookup (Annotations (PvcMeta pvc)) AnnCloneOf \<noteq> ''true''
                      then recorderEvent
                             (setAnnotation (addFinalizer pvc cloneSourcePodFinalizer) AnnCloneOf ''true'')
                             ''Normal'' CloneSucceededPVC ''Clone Successful''
                      else [])
            in if pvc \<noteq> mutatedPVC sp pvc
               then (case updatePVC r c (mutatedPVC sp pvc) of (res, c', t) \<Rightarrow> (res, c', ev @ t))
               else (Inr (), c, ev))"
proof -
  have s: "podSucceededFromPVC (addFinalizer pvc cloneSourcePodFinalizer) = podSucceededFromPVC pvc"
    by (simp add: podSucceededFromPVC_def addFinalizer_def)
  have a: "Annotations (PvcMeta (addFinalizer pvc cloneSourcePodFinalizer)) = Annotations (PvcMeta pvc)"
    by (simp add: addFinalizer_def)
  show ?thesis
  proof (cases sp)
    case None
    then show ?thesis by (simp add: updatePvcFromPod_def mutatedPVC_def Let_def s a)
  next
    case (Some pod)
    show ?thesis
    proof (cases "ContainerStatuses (Status pod)")
      case None
      with Some show ?thesis by (simp add: updatePvcFromPod_def mutatedPVC_def Let_def s a)
    next
      case (Some statuses)
      with assms \<open>sp = Some pod\<close> obtain first others where "statuses = first # others"
        by (cases statuses) auto
      with Some \<open>sp = Some pod\<close> show ?thesis
        by (simp add: updatePvcFromPod_def mutatedPVC_def Let_def s a)
    qed
  qed
qed

lemma mutatedPVC_meta:
  "Name (PvcMeta (mutatedPVC sp pvc)) = Name (PvcMeta pvc) \<and>
   Namespace (PvcMeta (mutatedPVC sp pvc)) = Namespace (PvcMeta pvc) \<and>
   UID (PvcMeta (mutatedPVC sp pvc)) = UID (PvcMeta pvc) \<and>
   hasFinalizer (PvcMeta (mutatedPVC sp pvc)) cloneSourcePodFinalizer"
  by (auto simp: mutatedPVC_def Let_def addFinalizer_def setAnnotation_def hasFinalizer_def
      split: option.splits list.splits)

lemma mutatedPVC_annotations:
  "\<not> podSucceededFromPVC pvc \<Longrightarrow> k \<noteq> AnnPodRestarts \<Longrightarrow>
     Annotations (PvcMeta (mutatedPVC sp pvc)) k = Annotations (PvcMeta pvc) k"
  by (auto simp: mutatedPVC_def Let_def addFinalizer_def setAnnotation_def podSucceededFromPVC_def
      split: option.splits list.splits)

lemma mutatedPVC_idem:
  assumes "\<not> podSucceededFromPVC pvc"
      and "sp' = sp \<or> (\<exists>pod. sp' = Some pod \<and> ContainerStatuses (Status pod) = None)"
  shows "mutatedPVC sp' (mutatedPVC sp pvc) = mutatedPVC sp pvc"
proof -
  define q where "q = mutatedPVC sp pvc"
  have fin: "addFinalizer q cloneSourcePodFinalizer = q"
    using mutatedPVC_meta[of sp pvc] by (simp add: addFinalizer_def q_def)
  have ns: "\<not> podSucceededFromPVC q"
    using assms(1) mutatedPVC_annotations[OF assms(1), of AnnPodPhase sp]
    by (simp add: podSucceededFromPVC_def lookup_def AnnPodPhase_def AnnPodRestarts_def q_def)
  have "mutatedPVC sp' q = q"
  proof (cases sp')
    case None
    then show ?thesis by (simp add: mutatedPVC_def Let_def fin ns)
  next
    case (Some pod')
    show ?thesis
    proof (cases "ContainerStatuses (Status pod')")
      case None
      with Some show ?thesis by (simp add: mutatedPVC_def Let_def fin ns)
    next
      case st: (Some statuses)
      with assms(2) Some have same: "sp = Some pod'" by auto
      show ?thesis
      proof (cases statuses)
        case Nil
        with st Some show ?thesis by (simp add: mutatedPVC_def Let_def fin ns)
      next
        case (Cons first others)
        define p2 where "p2 = addFinalizer pvc cloneSourcePodFinalizer"
        have p2ns: "\<not> podSucceededFromPVC p2"
          using assms(1) by (simp add: podSucceededFromPVC_def addFinalizer_def p2_def)
        have qeq: "q = (if sint (RestartCount first) >
                          fst (Atoi (lookup (Annotations (PvcMeta p2)) AnnPodRestarts))
                       then setAnnotation p2 AnnPodRestarts (Itoa (sint (RestartCount first)))
                       else p2)"
          using same st Cons p2ns by (simp add: mutatedPVC_def Let_def q_def p2_def)
        have ge: "\<not> sint (RestartCount first) >
                    fst (Atoi (lookup (Annotations (PvcMeta q)) AnnPodRestarts))"
          by (simp add: qeq setAnnotation_def lookup_def Atoi_Itoa_sint)
        show ?thesis
          using Some st Cons ge by (simp add: mutatedPVC_def Let_def fin ns)
      qed
    qed
  qed
  then show ?thesis by (simp add: q_def)
qed

lemma reconcileSourcePod_cases:
  assumes "reconcileSourcePod r c sp pvc = (Inr (), c2, t2)"
  shows "(sp \<noteq> None \<and> c2 = c \<and> t2 = []) \<or>
         (sp = None \<and>
          (\<exists>ns' nm reads. ParseCloneRequestAnnotation pvc = (True, ns', nm) \<and>
             c2 = c\<lparr>pods := pods c @ [MakeCloneSourcePodSpec ns' (MetaNamespaceKeyFunc pvc) pvc]\<rparr> \<and>
             t2 = reads @ [(CreatePod (MakeCloneSourcePodSpec ns' (MetaNamespaceKeyFunc pvc) pvc), None)] \<and>
             (\<forall>x\<in>set reads. isRead (fst x))))"
proof (cases "sp = None")
  case False
  with assms show ?thesis by (simp add: reconcileSourcePod_def)
next
  case True
  obtain rv cv tv where v: "validateSourceAndTarget r c pvc = (rv, cv, tv)"
    by (cases "validateSourceAndTarget r c pvc") auto
  from validateSourceAndTarget_frame[OF v] have cv: "cv = c" and tv: "\<forall>x\<in>set tv. isRead (fst x)"
    by auto
  from assms True v obtain clientName where
    cn: "Annotations (PvcMeta pvc) AnnUploadClientName = Some clientName" and rv: "rv = Inr ()"
    by (auto simp: reconcileSourcePod_def split: sum.splits option.splits)
  obtain rc cc tc where cr: "CreateCloneSourcePod r c (Image' r) (PullPolicy r) clientName pvc = (rc, cc, tc)"
    by (cases "CreateCloneSourcePod r c (Image' r) (PullPolicy r) clientName pvc") auto
  from assms True v cn rv cr cv have res: "\<exists>p. rc = Inr p" and c2: "c2 = cc" and t2: "t2 = tv @ tc"
    by (auto simp: reconcileSourcePod_def split: sum.splits)
  from CreateCloneSourcePod_shape[OF cr] res obtain ns' nm where
    "ParseCloneRequestAnnotation pvc = (True, ns', nm)"
    "cc = c\<lparr>pods := pods c @ [MakeCloneSourcePodSpec ns' (MetaNamespaceKeyFunc pvc) pvc]\<rparr>"
    "tc = [(CreatePod (MakeCloneSourcePodSpec ns' (MetaNamespaceKeyFunc pvc) pvc), None)]"
    by auto
  with True c2 t2 tv show ?thesis by auto
qed

lemma removeFinalizer_meta:
  "Name (PvcMeta (removeFinalizer pvc f)) = Name (PvcMeta pvc) \<and>
   Namespace (PvcMeta (removeFinalizer pvc f)) = Namespace (PvcMeta pvc) \<and>
   Annotations (PvcMeta (removeFinalizer pvc f)) = Annotations (PvcMeta pvc) \<and>
   \<not> hasFinalizer (PvcMeta (removeFinalizer pvc f)) f"
  by (auto simp: removeFinalizer_def hasFinalizer_def)

lemma updatePVC_ok:
  "updatePVC r c q = (Inr (), c', t) \<Longrightarrow>
     Client r (UpdatePVC q) = None \<and> t = [(UpdatePVC q, None)] \<and> pods c' = pods c \<and>
     pvcs c' = map (\<lambda>p. if samePVC (Namespace (PvcMeta q)) (Name (PvcMeta q)) p then q else p) (pvcs c)"
  by (auto simp: ClientUpdate_eq split: option.splits if_splits)

lemma cleanup_cases:
  assumes "cleanup r c pvc = (Inr (), c1, t)"
  shows "(c1 = c \<and> (\<forall>x\<in>set t. isRead (fst x))) \<or>
         pvcs c1 = map (\<lambda>p. if samePVC (Namespace (PvcMeta pvc)) (Name (PvcMeta pvc)) p
                             then removeFinalizer pvc cloneSourcePodFinalizer else p) (pvcs c)"
proof -
  let ?q = "removeFinalizer pvc cloneSourcePodFinalizer"
  obtain rf cf tf where f: "findCloneSourcePod r c pvc = (rf, cf, tf)"
    by (cases "findCloneSourcePod r c pvc") auto
  from findCloneSourcePod_frame[OF f] have cf: "cf = c" and tf: "\<forall>x\<in>set tf. isRead (fst x)"
    by auto
  from assms f obtain sp where rf: "rf = Inr sp" by (auto simp: cleanup_def split: sum.splits)
  show ?thesis
  proof (cases "sp \<noteq> None \<and> DeletionTimestamp (PodMeta (the sp)) = None")
    case False
    with assms f rf cf obtain tu where "updatePVC r c ?q = (Inr (), c1, tu)"
      by (auto simp: cleanup_def split: prod.splits)
    from updatePVC_ok[OF this] show ?thesis by (simp add: removeFinalizer_meta)
  next
    case live: True
    show ?thesis
    proof (cases "podSucceededFromPVC pvc \<and> Phase (Status (the sp)) = PodRunning")
      case True
      with assms f rf cf live tf show ?thesis by (auto simp: cleanup_def)
    next
      case False
      obtain rd cd td where d: "ClientDelete r c (the sp) = (rd, cd, td)"
        by (cases "ClientDelete r c (the sp)") auto
      then have pv: "pvcs cd = pvcs c"
        by (auto simp: ClientDelete_eq split: option.splits if_splits)
      from assms f rf cf live False d obtain tu where "updatePVC r cd ?q = (Inr (), c1, tu)"
        by (auto simp: cleanup_def split: prod.splits sum.splits if_splits)
      from updatePVC_ok[OF this] pv show ?thesis by (simp add: removeFinalizer_meta)
    qed
  qed
qed

lemma cleanup_shape:
  assumes "cleanup r c pvc = (res, c', t)"
  shows "(\<forall>x\<in>set t. isRead (fst x)) \<or>
         (\<exists>sp tf. findCloneSourcePod r c pvc = (Inr sp, c, tf) \<and>
            ((\<exists>d. t = tf @ [(DeletePod (the sp), Some d)] \<and> d \<noteq> StatusNotFound) \<or>
             (\<exists>e. t = tf @ [(UpdatePVC (removeFinalizer pvc cloneSourcePodFinalizer), e)] \<and>
                  (sp = None \<or> DeletionTimestamp (PodMeta (the sp)) \<noteq> None)) \<or>
             (\<exists>d e. t = tf @ [(DeletePod (the sp), d),
                              (UpdatePVC (removeFinalizer pvc cloneSourcePodFinalizer), e)] \<and>
                    (d = None \<or> d = Some StatusNotFound))))"
proof -
  let ?q = "removeFinalizer pvc cloneSourcePodFinalizer"
  obtain rf cf tf where f: "findCloneSourcePod r c pvc = (rf, cf, tf)"
    by (cases "findCloneSourcePod r c pvc") auto
  from findCloneSourcePod_frame[OF f] have cf: "cf = c" and tf: "\<forall>x\<in>set tf. isRead (fst x)"
    by auto
  show ?thesis
  proof (cases rf)
    case (Inl e)
    with assms f tf show ?thesis by (auto simp: cleanup_def)
  next
    case (Inr sp)
    have upd: "\<And>cx. \<exists>e. snd (snd (updatePVC r cx ?q)) = [(UpdatePVC ?q, e)]"
      by (auto simp: ClientUpdate_eq split: option.splits)
    show ?thesis
    proof (cases "sp \<noteq> None \<and> DeletionTimestamp (PodMeta (the sp)) = None")
      case False
      with assms f Inr cf have "t = tf @ snd (snd (updatePVC r c ?q))"
        by (auto simp: cleanup_def split: prod.splits)
      with upd[of c] f Inr cf False show ?thesis by auto
    next
      case live: True
      show ?thesis
      proof (cases "podSucceededFromPVC pvc \<and> Phase (Status (the sp)) = PodRunning")
        case True
        with assms f Inr cf live tf show ?thesis by (auto simp: cleanup_def)
      next
        case False
        obtain rd cd td where d: "ClientDelete r c (the sp) = (rd, cd, td)"
          by (cases "ClientDelete r c (the sp)") auto
        then have td: "td = [(DeletePod (the sp), outcome rd)]"
          by (auto simp: ClientDelete_eq outcome_def split: option.splits if_splits)
        show ?thesis
        proof (cases "\<exists>e. rd = Inl e \<and> \<not> IsNotFound e")
          case True
          with assms f Inr cf live False d td have "t = tf @ [(DeletePod (the sp), outcome rd)]"
            by (auto simp: cleanup_def)
          with True f Inr cf show ?thesis by (auto simp: outcome_def IsNotFound_def)
        next
          case nf: False
          with assms f Inr cf live False d td
          have "t = tf @ [(DeletePod (the sp), outcome rd)] @ snd (snd (updatePVC r cd ?q))"
            by (auto simp: cleanup_def split: prod.splits sum.splits)
          moreover from nf have "outcome rd = None \<or> outcome rd = Some StatusNotFound"
            by (cases rd) (auto simp: outcome_def IsNotFound_def)
          ultimately show ?thesis using upd[of cd] f Inr cf by auto
        qed
      qed
    qed
  qed
qed

lemma isRead_not_isEvent: "isRead call \<Longrightarrow> \<not> isEvent call"
  by (cases call) auto

lemma cleanup_reads:
  assumes cl: "cleanup r c pvc = (res, c', t)"
      and s: "podSucceededFromPVC pvc"
  shows "((\<forall>x\<in>set t. isRead (fst x)) =
           ((\<exists>e. fst (findCloneSourcePod r c pvc) = Inl e) \<or>
            (\<exists>pod. fst (findCloneSourcePod r c pvc) = Inr (Some pod) \<and>
                   DeletionTimestamp (PodMeta pod) = None \<and> Phase (Status pod) = PodRunning))) \<and>
         ((\<forall>x\<in>set t. isRead (fst x)) \<longrightarrow> c' = c)"
proof -
  let ?q = "removeFinalizer pvc cloneSourcePodFinalizer"
  obtain rf cf tf where f: "findCloneSourcePod r c pvc = (rf, cf, tf)"
    by (cases "findCloneSourcePod r c pvc") auto
  from findCloneSourcePod_frame[OF f] have cf: "cf = c" and tf: "\<forall>x\<in>set tf. isRead (fst x)"
    by auto
  show ?thesis
  proof (cases rf)
    case (Inl e)
    with cl f cf have "t = tf" "c' = c" by (auto simp: cleanup_def)
    with tf f Inl show ?thesis by simp
  next
    case (Inr sp)
    have upd: "\<And>cx. \<exists>e. snd (snd (updatePVC r cx ?q)) = [(UpdatePVC ?q, e)]"
      by (auto simp: ClientUpdate_eq split: option.splits)
    show ?thesis
    proof (cases "sp \<noteq> None \<and> DeletionTimestamp (PodMeta (the sp)) = None")
      case False
      with cl f Inr cf have "t = tf @ snd (snd (updatePVC r c ?q))"
        by (auto simp: cleanup_def split: prod.splits)
      with upd[of c] obtain e where "t = tf @ [(UpdatePVC ?q, e)]" by auto
      then have "\<not> (\<forall>x\<in>set t. isRead (fst x))" by simp
      moreover have "\<not> ((\<exists>e. fst (findCloneSourcePod r c pvc) = Inl e) \<or>
            (\<exists>pod. fst (findCloneSourcePod r c pvc) = Inr (Some pod) \<and>
                   DeletionTimestamp (PodMeta pod) = None \<and> Phase (Status pod) = PodRunning))"
        using f Inr False by auto
      ultimately show ?thesis by blast
    next
      case live: True
      show ?thesis
      proof (cases "Phase (Status (the sp)) = PodRunning")
        case True
        with cl f Inr cf live s have "t = tf" "c' = c" by (auto simp: cleanup_def)
        moreover have "\<exists>pod. fst (findCloneSourcePod r c pvc) = Inr (Some pod) \<and>
                   DeletionTimestamp (PodMeta pod) = None \<and> Phase (Status pod) = PodRunning"
          using f Inr live True by auto
        ultimately show ?thesis using tf by blast
      next
        case False
        obtain rd cd td where d: "ClientDelete r c (the sp) = (rd, cd, td)"
          by (cases "ClientDelete r c (the sp)") auto
        then have td: "td = [(DeletePod (the sp), outcome rd)]"
          by (auto simp: ClientDelete_eq outcome_def split: option.splits if_splits)
        from cl f Inr cf live False d td have "(DeletePod (the sp), outcome rd) \<in> set t"
          by (auto simp: cleanup_def split: prod.splits sum.splits if_splits)
        then have "\<not> (\<forall>x\<in>set t. isRead (fst x))" by force
        moreover have "\<not> ((\<exists>e. fst (findCloneSourcePod r c pvc) = Inl e) \<or>
            (\<exists>pod. fst (findCloneSourcePod r c pvc) = Inr (Some pod) \<and>
                   DeletionTimestamp (PodMeta pod) = None \<and> Phase (Status pod) = PodRunning))"
          using f Inr False by auto
        ultimately show ?thesis by blast
      qed
    qed
  qed
qed

lemma cleanup_no_event:
  assumes "cleanup r c pvc = (res, c', t)"
  shows "\<forall>x\<in>set t. \<not> isEvent (fst x)"
proof -
  from cleanup_shape[OF assms] show ?thesis
  proof
    assume "\<forall>x\<in>set t. isRead (fst x)"
    then show ?thesis using isRead_not_isEvent by blast
  next
    assume "\<exists>sp tf. findCloneSourcePod r c pvc = (Inr sp, c, tf) \<and>
            ((\<exists>d. t = tf @ [(DeletePod (the sp), Some d)] \<and> d \<noteq> StatusNotFound) \<or>
             (\<exists>e. t = tf @ [(UpdatePVC (removeFinalizer pvc cloneSourcePodFinalizer), e)] \<and>
                  (sp = None \<or> DeletionTimestamp (PodMeta (the sp)) \<noteq> None)) \<or>
             (\<exists>d e. t = tf @ [(DeletePod (the sp), d),
                              (UpdatePVC (removeFinalizer pvc cloneSourcePodFinalizer), e)] \<and>
                    (d = None \<or> d = Some StatusNotFound)))"
    then obtain sp tf where f: "findCloneSourcePod r c pvc = (Inr sp, c, tf)" and
      sh: "(\<exists>d. t = tf @ [(DeletePod (the sp), Some d)]) \<or>
           (\<exists>e. t = tf @ [(UpdatePVC (removeFinalizer pvc cloneSourcePodFinalizer), e)]) \<or>
           (\<exists>d e. t = tf @ [(DeletePod (the sp), d),
                            (UpdatePVC (removeFinalizer pvc cloneSourcePodFinalizer), e)])"
      by blast
    from findCloneSourcePod_frame[OF f] have tf: "\<forall>x\<in>set tf. \<not> isEvent (fst x)"
      using isRead_not_isEvent by blast
    from sh tf show ?thesis by fastforce
  qed
qed

lemma mutatedPVC_succeeded:
  assumes "podSucceededFromPVC pvc"
      and "lookup (Annotations (PvcMeta pvc)) AnnCloneOf \<noteq> ''true''"
  shows "Annotations (PvcMeta (mutatedPVC sp pvc)) AnnCloneOf = Some ''true'' \<and>
         podSucceededFromPVC (mutatedPVC sp pvc)"
  using assms
  by (auto simp: mutatedPVC_def Let_def addFinalizer_def setAnnotation_def podSucceededFromPVC_def
      lookup_def AnnCloneOf_def AnnPodPhase_def AnnPodRestarts_def
      split: option.splits list.splits)

lemma findCloneSourcePod_none:
  assumes "findCloneSourcePod r c pvc = (Inr None, c', t)"
      and "ParseCloneRequestAnnotation pvc = (True, ns', nm)"
  shows "labelSelector r (UID (PvcMeta pvc) @ ''-source-pod'') = None \<and>
         Client r (ListPods ns' CloneUniqueID (UID (PvcMeta pvc) @ ''-source-pod'')) = None \<and>
         filter (\<lambda>p. (ns' = [] \<or> Namespace (PodMeta p) = ns') \<and>
                      Labels (PodMeta p) CloneUniqueID = Some (UID (PvcMeta pvc) @ ''-source-pod''))
           (pods c) = []"
  using assms
  by (auto simp: findCloneSourcePod_def ClientList_eq split: option.splits if_splits)

lemma updatePvcFromPod_panics:
  "sp = Some pod \<Longrightarrow> ContainerStatuses (Status pod) = Some [] \<Longrightarrow>
     fst (updatePvcFromPod r c sp pvc) = Inl (Panic ''index out of range [0] with length 0'')"
  by (simp add: updatePvcFromPod_def Let_def)

lemma second_pass_after_update:
  assumes get: "Client r (GetPVC ns name) = None"
      and found: "find (samePVC ns name) (pvcs c) = Some pvc"
      and should: "shouldReconcile pvc"
      and ready: "waitTargetPodRunningOrSucceeded pvc = Inr True"
      and f: "findCloneSourcePod r c pvc = (Inr sp, c, tf)"
      and rs: "reconcileSourcePod r c sp pvc = (Inr (), c2, t2)"
      and up: "updatePvcFromPod r c2 sp pvc = (Inr (), c1, t3)"
      and noev: "\<forall>x\<in>set t3. \<not> isEvent (fst x)"
  shows "\<exists>t. Reconcile r c1 ns name = (Inr (), c1, t) \<and> (\<forall>x\<in>set t. isRead (fst x))"
proof -
  define q where "q = mutatedPVC sp pvc"
  have key: "samePVC ns name pvc" using find_samePVC[OF found] by simp
  have nopanic: "\<not> (\<exists>pod. sp = Some pod \<and> ContainerStatuses (Status pod) = Some [])"
  proof
    assume "\<exists>pod. sp = Some pod \<and> ContainerStatuses (Status pod) = Some []"
    then obtain pod where "sp = Some pod" "ContainerStatuses (Status pod) = Some []" by blast
    from updatePvcFromPod_panics[OF this, of r c2 pvc] up show False by simp
  qed
  have noCloneOf: "lookup (Annotations (PvcMeta pvc)) AnnCloneOf \<noteq> ''true''"
    using should by (simp add: shouldReconcile_def HasAnnotation_def lookup_def)
  have ns: "\<not> podSucceededFromPVC pvc"
  proof
    assume s: "podSucceededFromPVC pvc"
    from up have "\<exists>x\<in>set t3. isEvent (fst x)"
      unfolding updatePvcFromPod_eq[OF nopanic]
      using s noCloneOf
      by (auto simp: Let_def recorderEvent_def split: if_splits prod.splits)
    with noev show False by blast
  qed
  from up have step: "(q = pvc \<and> c1 = c2 \<and> t3 = []) \<or> (q \<noteq> pvc \<and> updatePVC r c2 q = (Inr (), c1, t3))"
    unfolding updatePvcFromPod_eq[OF nopanic] q_def using ns
    by (auto simp: Let_def split: if_splits prod.splits)
  from reconcileSourcePod_cases[OF rs] have pv2: "pvcs c2 = pvcs c" by auto
  have qkey: "samePVC ns name q"
    using key mutatedPVC_meta[of sp pvc] by (simp add: samePVC_def q_def)
  have stored: "find (samePVC ns name) (pvcs c1) = Some q \<and> pods c1 = pods c2"
  proof (cases "q = pvc")
    case True
    with step found pv2 show ?thesis by auto
  next
    case False
    with step have "updatePVC r c2 q = (Inr (), c1, t3)" by simp
    from updatePVC_ok[OF this] have
      "pvcs c1 = map (\<lambda>p. if samePVC ns name p then q else p) (pvcs c)" and "pods c1 = pods c2"
      using qkey pv2 by (simp_all add: samePVC_def)
    with find_map_update[OF found qkey] show ?thesis by simp
  qed
  have ann: "\<And>k. k \<noteq> AnnPodRestarts \<Longrightarrow> Annotations (PvcMeta q) k = Annotations (PvcMeta pvc) k"
    unfolding q_def by (rule mutatedPVC_annotations[OF ns])
  have qshould: "shouldReconcile q"
    using should ann[of AnnCloneRequest] ann[of AnnCloneOf]
    by (simp add: shouldReconcile_def checkPVC_def HasAnnotation_def AnnCloneRequest_def
        AnnCloneOf_def AnnPodRestarts_def)
  have qns: "\<not> podSucceededFromPVC q"
    using ns ann[of AnnPodPhase]
    by (simp add: podSucceededFromPVC_def lookup_def AnnPodPhase_def AnnPodRestarts_def)
  have qready: "waitTargetPodRunningOrSucceeded q = Inr True"
    using ready ann[of AnnPodReady] ns qns
    by (auto simp: waitTargetPodRunningOrSucceeded_def AnnPodReady_def AnnPodRestarts_def
        split: option.splits sum.splits if_splits)
  have quid: "UID (PvcMeta q) = UID (PvcMeta pvc)"
    using mutatedPVC_meta[of sp pvc] by (simp add: q_def)
  have qreq: "Annotations (PvcMeta q) AnnCloneRequest = Annotations (PvcMeta pvc) AnnCloneRequest"
    using ann[of AnnCloneRequest] by (simp add: AnnCloneRequest_def AnnPodRestarts_def)
  have "\<exists>sp2 tf2. findCloneSourcePod r c1 q = (Inr (Some sp2), c1, tf2) \<and>
          (\<forall>x\<in>set tf2. isRead (fst x)) \<and>
          (Some sp2 = sp \<or> ContainerStatuses (Status sp2) = None)"
  proof (cases sp)
    case (Some pod)
    with reconcileSourcePod_cases[OF rs] have "c2 = c" by auto
    with stored have "pods c1 = pods c" by simp
    from findCloneSourcePod_cong[OF qreq quid this f]
    have "findCloneSourcePod r c1 q = (Inr sp, c1, tf)" .
    moreover from findCloneSourcePod_frame[OF f] have "\<forall>x\<in>set tf. isRead (fst x)" by simp
    ultimately show ?thesis using Some by auto
  next
    case None
    with reconcileSourcePod_cases[OF rs] obtain ns' nm where
      parse: "ParseCloneRequestAnnotation pvc = (True, ns', nm)" and
      c2: "c2 = c\<lparr>pods := pods c @ [MakeCloneSourcePodSpec ns' (MetaNamespaceKeyFunc pvc) pvc]\<rparr>"
      by auto
    let ?pod = "MakeCloneSourcePodSpec ns' (MetaNamespaceKeyFunc pvc) pvc"
    from f None have f0: "findCloneSourcePod r c pvc = (Inr None, c, tf)" by simp
    note facts = findCloneSourcePod_none[OF f0 parse]
    have qparse: "ParseCloneRequestAnnotation q = (True, ns', nm)"
      using parse qreq by (simp add: ParseCloneRequestAnnotation_def)
    have pods1: "pods c1 = pods c @ [?pod]" using stored c2 by simp
    have "findCloneSourcePod r c1 q =
            (Inr (Some ?pod), c1,
             [(ListPods ns' CloneUniqueID (UID (PvcMeta q) @ ''-source-pod''), None)])"
      using facts pods1
      by (subst findCloneSourcePod_served[OF qparse])
         (simp_all add: quid MakeCloneSourcePodSpec_def getCloneSourcePodName_def)
    moreover have "ContainerStatuses (Status ?pod) = None"
      by (simp add: MakeCloneSourcePodSpec_def)
    ultimately show ?thesis by auto
  qed
  then obtain sp2 tf2 where
    f2: "findCloneSourcePod r c1 q = (Inr (Some sp2), c1, tf2)" and
    tf2: "\<forall>x\<in>set tf2. isRead (fst x)" and
    sp2: "Some sp2 = sp \<or> ContainerStatuses (Status sp2) = None"
    by blast
  have rs2: "reconcileSourcePod r c1 (Some sp2) q = (Inr (), c1, [])"
    by (simp add: reconcileSourcePod_def)
  have nopanic2: "\<not> (\<exists>pod. Some sp2 = Some pod \<and> ContainerStatuses (Status pod) = Some [])"
    using sp2 nopanic by auto
  have idem: "mutatedPVC (Some sp2) q = q"
    unfolding q_def using sp2 by (intro mutatedPVC_idem[OF ns]) auto
  have up2: "updatePvcFromPod r c1 (Some sp2) q = (Inr (), c1, [])"
    unfolding updatePvcFromPod_eq[OF nopanic2] using idem qns by (simp add: Let_def)
  have "Reconcile r c1 ns name = (Inr (), c1, (GetPVC ns name, None) # tf2)"
    using Reconcile_ready[OF get _ qshould qready, of c1] stored f2 rs2 up2 by simp
  with tf2 show ?thesis by simp
qed

lemma updatePvcFromPod_persists:
  assumes "updatePvcFromPod r c sp pvc = (res, c', t)"
  shows "(\<forall>q e. (UpdatePVC q, e) \<in> set t \<longrightarrow> q = mutatedPVC sp pvc \<and> q \<noteq> pvc) \<and>
         ((\<forall>q e. (UpdatePVC q, e) \<notin> set t) \<longrightarrow> c' = c)"
proof (cases "\<exists>pod. sp = Some pod \<and> ContainerStatuses (Status pod) = Some []")
  case True
  with assms show ?thesis
    by (auto simp: updatePvcFromPod_def Let_def recorderEvent_def split: if_splits)
next
  case False
  from assms show ?thesis
    unfolding updatePvcFromPod_eq[OF False]
    by (auto simp: Let_def recorderEvent_def ClientUpdate_eq split: if_splits prod.splits option.splits)
qed

lemma updatePvcFromPod_stored:
  assumes up: "updatePvcFromPod r c sp pvc = (Inr (), c', t)"
      and found: "find (samePVC ns name) (pvcs c) = Some pvc"
  shows "find (samePVC ns name) (pvcs c') = Some (mutatedPVC sp pvc)"
proof -
  have nopanic: "\<not> (\<exists>pod. sp = Some pod \<and> ContainerStatuses (Status pod) = Some [])"
  proof
    assume "\<exists>pod. sp = Some pod \<and> ContainerStatuses (Status pod) = Some []"
    then obtain pod where "sp = Some pod" "ContainerStatuses (Status pod) = Some []" by blast
    from updatePvcFromPod_panics[OF this, of r c pvc] up show False by simp
  qed
  have key: "samePVC ns name pvc" using find_samePVC[OF found] by simp
  have qkey: "samePVC ns name (mutatedPVC sp pvc)"
    using key mutatedPVC_meta[of sp pvc] by (simp add: samePVC_def)
  show ?thesis
  proof (cases "pvc = mutatedPVC sp pvc")
    case True
    with up found show ?thesis
      unfolding updatePvcFromPod_eq[OF nopanic] by (auto simp: Let_def)
  next
    case False
    with up obtain tu where "updatePVC r c (mutatedPVC sp pvc) = (Inr (), c', tu)"
      unfolding updatePvcFromPod_eq[OF nopanic] by (auto simp: Let_def split: prod.splits)
    from updatePVC_ok[OF this] have
      "pvcs c' = map (\<lambda>p. if samePVC ns name p then mutatedPVC sp pvc else p) (pvcs c)"
      using qkey by (simp add: samePVC_def)
    with find_map_update[OF found qkey] show ?thesis by simp
  qed
qed

lemma reconcileSourcePod_shape:
  assumes "reconcileSourcePod r c sp pvc = (res, c', t)"
  shows "pvcs c' = pvcs c \<and>
         (\<exists>R C. t = R @ C \<and> (\<forall>x\<in>set R. isRead (fst x)) \<and>
                 (C = [] \<or> (\<exists>pod e. C = [(CreatePod pod, e)])))"
proof (cases "sp = None")
  case False
  with assms show ?thesis by (simp add: reconcileSourcePod_def)
next
  case True
  obtain rv cv tv where v: "validateSourceAndTarget r c pvc = (rv, cv, tv)"
    by (cases "validateSourceAndTarget r c pvc") auto
  from validateSourceAndTarget_frame[OF v] have cv: "cv = c" and tv: "\<forall>x\<in>set tv. isRead (fst x)"
    by auto
  show ?thesis
  proof (cases "\<exists>clientName. rv = Inr () \<and> Annotations (PvcMeta pvc) AnnUploadClientName = Some clientName")
    case False
    with assms True v cv have "c' = c \<and> t = tv"
      by (auto simp: reconcileSourcePod_def split: sum.splits option.splits)
    with tv show ?thesis by auto
  next
    case True
    then obtain clientName where rv: "rv = Inr ()"
      and cn: "Annotations (PvcMeta pvc) AnnUploadClientName = Some clientName" by blast
    obtain rc cc tc where cr: "CreateCloneSourcePod r c (Image' r) (PullPolicy r) clientName pvc = (rc, cc, tc)"
      by (cases "CreateCloneSourcePod r c (Image' r) (PullPolicy r) clientName pvc") auto
    from assms \<open>sp = None\<close> v cn rv cr cv have c': "c' = cc" and t: "t = tv @ tc"
      by (auto simp: reconcileSourcePod_def split: sum.splits)
    from CreateCloneSourcePod_shape[OF cr] have "pvcs cc = pvcs c"
      and "tc = [] \<or> (\<exists>pod e. tc = [(CreatePod pod, e)])" by auto
    with c' t tv show ?thesis by auto
  qed
qed

lemma completing_pass:
  assumes run: "Reconcile r c ns name = (Inr (), c1, t1)"
      and ev: "\<exists>x\<in>set t1. isEvent (fst x)"
  shows "Client r (GetPVC ns name) = None \<and>
         (\<exists>q. find (samePVC ns name) (pvcs c1) = Some q \<and>
              Annotations (PvcMeta q) AnnCloneOf = Some ''true'' \<and>
              hasFinalizer (PvcMeta q) cloneSourcePodFinalizer \<and> podSucceededFromPVC q)"
proof -
  have reads: "(\<forall>x\<in>set t1. isRead (fst x)) \<Longrightarrow> False"
    using ev isRead_not_isEvent by blast
  show ?thesis
  proof (cases "Client r (GetPVC ns name)")
    case (Some e)
    from run Reconcile_get_fails[OF Some, of c] have "\<forall>x\<in>set t1. isRead (fst x)"
      by (auto split: if_splits)
    with reads show ?thesis by blast
  next
    case get: None
    show ?thesis
    proof (cases "find (samePVC ns name) (pvcs c)")
      case None
      from run Reconcile_gone[OF get None] have "\<forall>x\<in>set t1. isRead (fst x)" by auto
      with reads show ?thesis by blast
    next
      case found: (Some pvc)
      show ?thesis
      proof (cases "shouldReconcile pvc")
        case nshould: False
        show ?thesis
        proof (cases "hasFinalizer (PvcMeta pvc) cloneSourcePodFinalizer")
          case False
          from run Reconcile_irrelevant[OF get found nshould False]
          have "\<forall>x\<in>set t1. isRead (fst x)" by auto
          with reads show ?thesis by blast
        next
          case True
          obtain rc cc tc where cl: "cleanup r c pvc = (rc, cc, tc)"
            by (cases "cleanup r c pvc") auto
          with run Reconcile_cleanup[OF get found nshould True]
          have t1: "t1 = (GetPVC ns name, None) # tc" by auto
          from cleanup_no_event[OF cl] t1 have "\<forall>x\<in>set t1. \<not> isEvent (fst x)" by simp
          with ev show ?thesis by blast
        qed
      next
        case should: True
        show ?thesis
        proof (cases "waitTargetPodRunningOrSucceeded pvc")
          case (Inl e)
          from run Reconcile_wait_fails[OF get found should Inl] show ?thesis by simp
        next
          case (Inr ready)
          show ?thesis
          proof (cases ready)
            case False
            with Inr run Reconcile_not_ready[OF get found should]
            have "\<forall>x\<in>set t1. isRead (fst x)" by auto
            with reads show ?thesis by blast
          next
            case True
            with Inr have ready: "waitTargetPodRunningOrSucceeded pvc = Inr True" by simp
            note eq = Reconcile_ready[OF get found should ready]
            obtain rf cf tf where f: "findCloneSourcePod r c pvc = (rf, cf, tf)"
              by (cases "findCloneSourcePod r c pvc") auto
            from findCloneSourcePod_frame[OF f] have cf: "cf = c"
              and tf: "\<forall>x\<in>set tf. isRead (fst x)" by auto
            from run eq f obtain sp0 where rf: "rf = Inr sp0" by (cases rf) auto
            obtain rr c2 t2 where rs: "reconcileSourcePod r c sp0 pvc = (rr, c2, t2)"
              by (cases "reconcileSourcePod r c sp0 pvc") auto
            from run eq f rf cf rs have rr: "rr = Inr ()" by (cases rr) auto
            obtain ru c3 t3 where up: "updatePvcFromPod r c2 sp0 pvc = (ru, c3, t3)"
              by (cases "updatePvcFromPod r c2 sp0 pvc") auto
            from run eq f rf cf rs rr up have ru: "ru = Inr ()" and c3: "c3 = c1"
              and t1: "t1 = (GetPVC ns name, None) # tf @ t2 @ t3" by auto
            from reconcileSourcePod_shape[OF rs] obtain R C where
              pv2: "pvcs c2 = pvcs c" and t2: "t2 = R @ C" and R: "\<forall>x\<in>set R. isRead (fst x)" and
              C: "C = [] \<or> (\<exists>pod e. C = [(CreatePod pod, e)])" by blast
            have "\<forall>x\<in>set t2. \<not> isEvent (fst x)"
              using t2 R C isRead_not_isEvent by fastforce
            moreover have "\<forall>x\<in>set tf. \<not> isEvent (fst x)"
              using tf isRead_not_isEvent by blast
            ultimately have ev3: "\<exists>x\<in>set t3. isEvent (fst x)"
              using ev t1 by auto
            have up1: "updatePvcFromPod r c2 sp0 pvc = (Inr (), c1, t3)"
              using up ru c3 by simp
            have nopanic: "\<not> (\<exists>pod. sp0 = Some pod \<and> ContainerStatuses (Status pod) = Some [])"
            proof
              assume "\<exists>pod. sp0 = Some pod \<and> ContainerStatuses (Status pod) = Some []"
              then obtain pod where "sp0 = Some pod" "ContainerStatuses (Status pod) = Some []"
                by blast
              from updatePvcFromPod_panics[OF this, of r c2 pvc] up1 show False by simp
            qed
            have succ: "podSucceededFromPVC pvc \<and>
                        lookup (Annotations (PvcMeta pvc)) AnnCloneOf \<noteq> ''true''"
            proof (rule ccontr)
              assume n: "\<not> (podSucceededFromPVC pvc \<and>
                           lookup (Annotations (PvcMeta pvc)) AnnCloneOf \<noteq> ''true'')"
              from up1 have "\<forall>x\<in>set t3. \<not> isEvent (fst x)"
                unfolding updatePvcFromPod_eq[OF nopanic] using n
                by (auto simp: Let_def ClientUpdate_eq split: if_splits prod.splits option.splits)
              with ev3 show False by blast
            qed
            from found pv2 have found2: "find (samePVC ns name) (pvcs c2) = Some pvc" by simp
            from updatePvcFromPod_stored[OF up1 found2]
            have "find (samePVC ns name) (pvcs c1) = Some (mutatedPVC sp0 pvc)" .
            with mutatedPVC_succeeded[of pvc sp0] mutatedPVC_meta[of sp0 pvc] succ get
            show ?thesis by auto
          qed
        qed
      qed
    qed
  qed
qed

subsection \<open>Two passes in sequence\<close>

text \<open>
  Claim C9, as the code has it. When a pass of \<open>Reconcile\<close> returns without error and has
  not marked the clone complete (it recorded no \<^verbatim>\<open>CloneSucceeded\<close> event, so it set no
  \<open>CloneOf\<close>), a second pass on the same key and on the cluster the first one left returns
  without error, leaves that cluster as it is and makes only read calls.

  When the first pass returns without error and has marked the clone complete, the stored
  claim has \<open>CloneOf\<close> set and carries the finalizer, and the second pass is the cleanup of
  that claim after the Get. It makes only read calls exactly when the lookup of the source
  pod fails or finds a live pod that is still running, and then it leaves the cluster as it
  is. Otherwise it goes on to write: a delete of the live pod found that fails, or an
  update of the claim without the finalizer when there is no pod or the pod is already
  terminating, or a delete of the live pod found followed by that update.

  And \<^verbatim>\<open>updatePvcFromPod\<close> calls Update only with the mutated claim and only when it differs
  from the claim it was given; when it makes no Update call the cluster is unchanged. This
  part is for a claim that has an annotation, whose map is therefore not nil.
\<close>

theorem Reconcile_idempotent_unless_completed:
  "(Reconcile r c ns name = (Inr (), c1, t1) \<and> (\<forall>x\<in>set t1. \<not> isEvent (fst x)) \<longrightarrow>
      (\<exists>t2. Reconcile r c1 ns name = (Inr (), c1, t2) \<and> (\<forall>x\<in>set t2. isRead (fst x)))) \<and>
   (Reconcile r c ns name = (Inr (), c1, t1) \<and> (\<exists>x\<in>set t1. isEvent (fst x)) \<and>
    Reconcile r c1 ns name = (res2, c2, t2) \<longrightarrow>
      (\<exists>q. find (samePVC ns name) (pvcs c1) = Some q \<and>
           Annotations (PvcMeta q) AnnCloneOf = Some ''true'' \<and>
           hasFinalizer (PvcMeta q) cloneSourcePodFinalizer \<and>
           (\<exists>tc. cleanup r c1 q = (res2, c2, tc) \<and> t2 = (GetPVC ns name, None) # tc) \<and>
           ((\<forall>x\<in>set t2. isRead (fst x)) =
              ((\<exists>e. fst (findCloneSourcePod r c1 q) = Inl e) \<or>
               (\<exists>pod. fst (findCloneSourcePod r c1 q) = Inr (Some pod) \<and>
                      DeletionTimestamp (PodMeta pod) = None \<and>
                      Phase (Status pod) = PodRunning))) \<and>
           ((\<forall>x\<in>set t2. isRead (fst x)) \<longrightarrow> c2 = c1) \<and>
           (\<not> (\<forall>x\<in>set t2. isRead (fst x)) \<longrightarrow>
              (\<exists>sp tf. findCloneSourcePod r c1 q = (Inr sp, c1, tf) \<and>
                 ((\<exists>d. t2 = (GetPVC ns name, None) # tf @ [(DeletePod (the sp), Some d)] \<and>
                       d \<noteq> StatusNotFound) \<or>
                  (\<exists>e. t2 = (GetPVC ns name, None) # tf @
                              [(UpdatePVC (removeFinalizer q cloneSourcePodFinalizer), e)] \<and>
                       (sp = None \<or> DeletionTimestamp (PodMeta (the sp)) \<noteq> None)) \<or>
                  (\<exists>d e. t2 = (GetPVC ns name, None) # tf @
                                [(DeletePod (the sp), d),
                                 (UpdatePVC (removeFinalizer q cloneSourcePodFinalizer), e)] \<and>
                         (d = None \<or> d = Some StatusNotFound))))))) \<and>
   (Annotations (PvcMeta pvc) \<noteq> Map.empty \<and> updatePvcFromPod r c sp pvc = (res, c', t) \<longrightarrow>
      (\<forall>q e. (UpdatePVC q, e) \<in> set t \<longrightarrow> q = mutatedPVC sp pvc \<and> q \<noteq> pvc) \<and>
      ((\<forall>q e. (UpdatePVC q, e) \<notin> set t) \<longrightarrow> c' = c))"
  (is "?unchanged \<and> ?completed \<and> ?persist")
proof (intro conjI)
  show ?persist
  proof (intro impI)
    assume "Annotations (PvcMeta pvc) \<noteq> Map.empty \<and> updatePvcFromPod r c sp pvc = (res, c', t)"
    then have "updatePvcFromPod r c sp pvc = (res, c', t)" by simp
    from updatePvcFromPod_persists[OF this]
    show "(\<forall>q e. (UpdatePVC q, e) \<in> set t \<longrightarrow> q = mutatedPVC sp pvc \<and> q \<noteq> pvc) \<and>
      ((\<forall>q e. (UpdatePVC q, e) \<notin> set t) \<longrightarrow> c' = c)" .
  qed
next
  show ?completed
  proof (intro impI)
    assume a: "Reconcile r c ns name = (Inr (), c1, t1) \<and> (\<exists>x\<in>set t1. isEvent (fst x)) \<and>
      Reconcile r c1 ns name = (res2, c2, t2)"
    then have run: "Reconcile r c ns name = (Inr (), c1, t1)"
      and ev: "\<exists>x\<in>set t1. isEvent (fst x)"
      and second: "Reconcile r c1 ns name = (res2, c2, t2)" by simp_all
    from completing_pass[OF run ev] obtain q where
      get: "Client r (GetPVC ns name) = None" and
      found: "find (samePVC ns name) (pvcs c1) = Some q" and
      cloneOf: "Annotations (PvcMeta q) AnnCloneOf = Some ''true''" and
      fin: "hasFinalizer (PvcMeta q) cloneSourcePodFinalizer" and
      succ: "podSucceededFromPVC q" by blast
    have nshould: "\<not> shouldReconcile q"
      using cloneOf by (simp add: shouldReconcile_def HasAnnotation_def)
    obtain rc cc tc where cl0: "cleanup r c1 q = (rc, cc, tc)"
      by (cases "cleanup r c1 q") auto
    with second Reconcile_cleanup[OF get found nshould fin]
    have cl: "cleanup r c1 q = (res2, c2, tc)" and t2: "t2 = (GetPVC ns name, None) # tc"
      by auto
    have rd: "(\<forall>x\<in>set t2. isRead (fst x)) = (\<forall>x\<in>set tc. isRead (fst x))"
      using t2 by simp
    note reads = cleanup_reads[OF cl succ]
    have shapes: "\<not> (\<forall>x\<in>set t2. isRead (fst x)) \<longrightarrow>
              (\<exists>sp tf. findCloneSourcePod r c1 q = (Inr sp, c1, tf) \<and>
                 ((\<exists>d. t2 = (GetPVC ns name, None) # tf @ [(DeletePod (the sp), Some d)] \<and>
                       d \<noteq> StatusNotFound) \<or>
                  (\<exists>e. t2 = (GetPVC ns name, None) # tf @
                              [(UpdatePVC (removeFinalizer q cloneSourcePodFinalizer), e)] \<and>
                       (sp = None \<or> DeletionTimestamp (PodMeta (the sp)) \<noteq> None)) \<or>
                  (\<exists>d e. t2 = (GetPVC ns name, None) # tf @
                                [(DeletePod (the sp), d),
                                 (UpdatePVC (removeFinalizer q cloneSourcePodFinalizer), e)] \<and>
                         (d = None \<or> d = Some StatusNotFound))))"
      using cleanup_shape[OF cl] unfolding rd t2 by auto
    show "\<exists>q. find (samePVC ns name) (pvcs c1) = Some q \<and>
           Annotations (PvcMeta q) AnnCloneOf = Some ''true'' \<and>
           hasFinalizer (PvcMeta q) cloneSourcePodFinalizer \<and>
           (\<exists>tc. cleanup r c1 q = (res2, c2, tc) \<and> t2 = (GetPVC ns name, None) # tc) \<and>
           ((\<forall>x\<in>set t2. isRead (fst x)) =
              ((\<exists>e. fst (findCloneSourcePod r c1 q) = Inl e) \<or>
               (\<exists>pod. fst (findCloneSourcePod r c1 q) = Inr (Some pod) \<and>
                      DeletionTimestamp (PodMeta pod) = None \<and>
                      Phase (Status pod) = PodRunning))) \<and>
           ((\<forall>x\<in>set t2. isRead (fst x)) \<longrightarrow> c2 = c1) \<and>
           (\<not> (\<forall>x\<in>set t2. isRead (fst x)) \<longrightarrow>
              (\<exists>sp tf. findCloneSourcePod r c1 q = (Inr sp, c1, tf) \<and>
                 ((\<exists>d. t2 = (GetPVC ns name, None) # tf @ [(DeletePod (the sp), Some d)] \<and>
                       d \<noteq> StatusNotFound) \<or>
                  (\<exists>e. t2 = (GetPVC ns name, None) # tf @
                              [(UpdatePVC (removeFinalizer q cloneSourcePodFinalizer), e)] \<and>
                       (sp = None \<or> DeletionTimestamp (PodMeta (the sp)) \<noteq> None)) \<or>
                  (\<exists>d e. t2 = (GetPVC ns name, None) # tf @
                                [(DeletePod (the sp), d),
                                 (UpdatePVC (removeFinalizer q cloneSourcePodFinalizer), e)] \<and>
                         (d = None \<or> d = Some StatusNotFound)))))"
    proof (intro exI[of _ q] conjI)
      show "find (samePVC ns name) (pvcs c1) = Some q" by (rule found)
      show "Annotations (PvcMeta q) AnnCloneOf = Some ''true''" by (rule cloneOf)
      show "hasFinalizer (PvcMeta q) cloneSourcePodFinalizer" by (rule fin)
      show "\<exists>tc. cleanup r c1 q = (res2, c2, tc) \<and> t2 = (GetPVC ns name, None) # tc"
        using cl t2 by blast
      show "(\<forall>x\<in>set t2. isRead (fst x)) =
              ((\<exists>e. fst (findCloneSourcePod r c1 q) = Inl e) \<or>
               (\<exists>pod. fst (findCloneSourcePod r c1 q) = Inr (Some pod) \<and>
                      DeletionTimestamp (PodMeta pod) = None \<and>
                      Phase (Status pod) = PodRunning))"
        using reads[THEN conjunct1] unfolding rd .
      show "(\<forall>x\<in>set t2. isRead (fst x)) \<longrightarrow> c2 = c1"
        using reads[THEN conjunct2] unfolding rd .
      show "\<not> (\<forall>x\<in>set t2. isRead (fst x)) \<longrightarrow>
              (\<exists>sp tf. findCloneSourcePod r c1 q = (Inr sp, c1, tf) \<and>
                 ((\<exists>d. t2 = (GetPVC ns name, None) # tf @ [(DeletePod (the sp), Some d)] \<and>
                       d \<noteq> StatusNotFound) \<or>
                  (\<exists>e. t2 = (GetPVC ns name, None) # tf @
                              [(UpdatePVC (removeFinalizer q cloneSourcePodFinalizer), e)] \<and>
                       (sp = None \<or> DeletionTimestamp (PodMeta (the sp)) \<noteq> None)) \<or>
                  (\<exists>d e. t2 = (GetPVC ns name, None) # tf @
                                [(DeletePod (the sp), d),
                                 (UpdatePVC (removeFinalizer q cloneSourcePodFinalizer), e)] \<and>
                         (d = None \<or> d = Some StatusNotFound))))"
        by (rule shapes)
    qed
  qed
next
  show ?unchanged
  proof (intro impI)
  assume a: "Reconcile r c ns name = (Inr (), c1, t1) \<and> (\<forall>x\<in>set t1. \<not> isEvent (fst x))"
  then have run: "Reconcile r c ns name = (Inr (), c1, t1)"
    and noev: "\<forall>x\<in>set t1. \<not> isEvent (fst x)" by simp_all
  have same: "c1 = c \<Longrightarrow> (\<forall>x\<in>set t1. isRead (fst x)) \<Longrightarrow>
    \<exists>t2. Reconcile r c1 ns name = (Inr (), c1, t2) \<and> (\<forall>x\<in>set t2. isRead (fst x))"
    using run by auto
  show "\<exists>t2. Reconcile r c1 ns name = (Inr (), c1, t2) \<and> (\<forall>x\<in>set t2. isRead (fst x))"
  proof (cases "Client r (GetPVC ns name)")
    case (Some e)
    from run Reconcile_get_fails[OF Some, of c] show ?thesis
      by (intro same) (auto split: if_splits)
  next
    case get: None
    show ?thesis
    proof (cases "find (samePVC ns name) (pvcs c)")
      case None
      from run Reconcile_gone[OF get None] show ?thesis by (intro same) auto
    next
      case (Some pvc)
      have key: "samePVC ns name pvc" using find_samePVC[OF Some] by simp
      show ?thesis
      proof (cases "shouldReconcile pvc")
        case nshould: False
        show ?thesis
        proof (cases "hasFinalizer (PvcMeta pvc) cloneSourcePodFinalizer")
          case False
          from run Reconcile_irrelevant[OF get Some nshould False] show ?thesis
            by (intro same) auto
        next
          case True
          let ?q = "removeFinalizer pvc cloneSourcePodFinalizer"
          obtain rc cc tc where cl: "cleanup r c pvc = (rc, cc, tc)"
            by (cases "cleanup r c pvc") auto
          with run Reconcile_cleanup[OF get Some nshould True]
          have cl': "cleanup r c pvc = (Inr (), c1, tc)" and t1: "t1 = (GetPVC ns name, None) # tc"
            by auto
          from cleanup_cases[OF cl'] show ?thesis
          proof
            assume "c1 = c \<and> (\<forall>x\<in>set tc. isRead (fst x))"
            with t1 show ?thesis by (intro same) auto
          next
            assume "pvcs c1 = map (\<lambda>p. if samePVC (Namespace (PvcMeta pvc)) (Name (PvcMeta pvc)) p
                             then ?q else p) (pvcs c)"
            then have m: "pvcs c1 = map (\<lambda>p. if samePVC ns name p then ?q else p) (pvcs c)"
              using key by (simp add: samePVC_def)
            have qkey: "samePVC ns name ?q"
              using key removeFinalizer_meta[of pvc cloneSourcePodFinalizer] by (simp add: samePVC_def)
            have found: "find (samePVC ns name) (pvcs c1) = Some ?q"
              using find_map_update[OF Some qkey] m by simp
            have ns2: "\<not> shouldReconcile ?q"
              using nshould removeFinalizer_meta[of pvc cloneSourcePodFinalizer]
              by (simp add: shouldReconcile_def checkPVC_def HasAnnotation_def)
            have nf: "\<not> hasFinalizer (PvcMeta ?q) cloneSourcePodFinalizer"
              using removeFinalizer_meta[of pvc cloneSourcePodFinalizer] by simp
            from Reconcile_irrelevant[OF get found ns2 nf] show ?thesis by simp
          qed
        qed
      next
        case should: True
        show ?thesis
        proof (cases "waitTargetPodRunningOrSucceeded pvc")
          case (Inl e)
          from run Reconcile_wait_fails[OF get Some should Inl] show ?thesis by simp
        next
          case (Inr ready)
          show ?thesis
          proof (cases ready)
            case False
            with Inr run Reconcile_not_ready[OF get Some should] show ?thesis
              by (intro same) auto
          next
            case True
            with Inr have ready: "waitTargetPodRunningOrSucceeded pvc = Inr True" by simp
            note eq = Reconcile_ready[OF get Some should ready]
            obtain rf cf tf where f: "findCloneSourcePod r c pvc = (rf, cf, tf)"
              by (cases "findCloneSourcePod r c pvc") auto
            from findCloneSourcePod_frame[OF f] have cf: "cf = c" by simp
            from run eq f obtain sp0 where rf: "rf = Inr sp0" by (cases rf) auto
            obtain rr c2 t2 where rs: "reconcileSourcePod r c sp0 pvc = (rr, c2, t2)"
              by (cases "reconcileSourcePod r c sp0 pvc") auto
            from run eq f rf cf rs have rr: "rr = Inr ()" by (cases rr) auto
            obtain ru c3 t3 where up: "updatePvcFromPod r c2 sp0 pvc = (ru, c3, t3)"
              by (cases "updatePvcFromPod r c2 sp0 pvc") auto
            from run eq f rf cf rs rr up have ru: "ru = Inr ()" and c3: "c3 = c1"
              and t1: "t1 = (GetPVC ns name, None) # tf @ t2 @ t3" by auto
            from noev t1 have noev3: "\<forall>x\<in>set t3. \<not> isEvent (fst x)" by auto
            show ?thesis
              using second_pass_after_update[OF get Some should ready _ _ _ noev3, of sp0 tf c2]
                f rf cf rs rr up ru c3 by simp
          qed
        qed
      qed
    qed
  qed
qed
qed

text \<open>The scenarios, evaluated.\<close>

lemma fresh_pass:
  "Reconcile cloneReconciler freshCluster ''prod'' ''pvc-dst'' =
     (Inr (),
      \<lparr>pvcs = [targetPVC cloneAnnotations [cloneSourcePodFinalizer], sourcePVC],
       pods = [MakeCloneSourcePodSpec ''stage'' ''prod/pvc-dst'' (targetPVC cloneAnnotations [])]\<rparr>,
      [(GetPVC ''prod'' ''pvc-dst'', None),
       (ListPods ''stage'' CloneUniqueID ''uid-1-source-pod'', None),
       (GetPVC ''stage'' ''pvc-src'', None),
       (CreatePod (MakeCloneSourcePodSpec ''stage'' ''prod/pvc-dst'' (targetPVC cloneAnnotations [])),
        None),
       (UpdatePVC (targetPVC cloneAnnotations [cloneSourcePodFinalizer]), None)])"
  by (simp add: eval_defs)

lemma succeeded_pass:
  "Reconcile cloneReconciler succeededCluster ''prod'' ''pvc-dst'' =
     (Inr (),
      \<lparr>pvcs = [targetPVC (cloneAnnotations(AnnPodPhase \<mapsto> ''Succeeded'', AnnCloneOf \<mapsto> ''true''))
                 [cloneSourcePodFinalizer], sourcePVC],
       pods = [clonePod ''uid-1-source-pod'' ''Succeeded'' None]\<rparr>,
      [(GetPVC ''prod'' ''pvc-dst'', None),
       (ListPods ''stage'' CloneUniqueID ''uid-1-source-pod'', None),
       (Event (targetPVC (cloneAnnotations(AnnPodPhase \<mapsto> ''Succeeded'', AnnCloneOf \<mapsto> ''true''))
                 [cloneSourcePodFinalizer]) ''Normal'' CloneSucceededPVC ''Clone Successful'', None),
       (UpdatePVC (targetPVC (cloneAnnotations(AnnPodPhase \<mapsto> ''Succeeded'', AnnCloneOf \<mapsto> ''true''))
                 [cloneSourcePodFinalizer]), None)])"
  by (simp add: eval_defs)

lemma completed_pass:
  "Reconcile cloneReconciler
     \<lparr>pvcs = [targetPVC (cloneAnnotations(AnnPodPhase \<mapsto> ''Succeeded'', AnnCloneOf \<mapsto> ''true''))
                [cloneSourcePodFinalizer], sourcePVC],
      pods = [clonePod ''uid-1-source-pod'' ''Succeeded'' None]\<rparr> ''prod'' ''pvc-dst'' =
     (Inr (),
      \<lparr>pvcs = [targetPVC (cloneAnnotations(AnnPodPhase \<mapsto> ''Succeeded'', AnnCloneOf \<mapsto> ''true'')) [],
               sourcePVC],
       pods = []\<rparr>,
      [(GetPVC ''prod'' ''pvc-dst'', None),
       (ListPods ''stage'' CloneUniqueID ''uid-1-source-pod'', None),
       (DeletePod (clonePod ''uid-1-source-pod'' ''Succeeded'' None), None),
       (UpdatePVC (targetPVC (cloneAnnotations(AnnPodPhase \<mapsto> ''Succeeded'', AnnCloneOf \<mapsto> ''true''))
                 []), None)])"
  by (simp add: eval_defs)

lemma podless_pass:
  "Reconcile cloneReconciler
     \<lparr>pvcs = [targetPVC (cloneAnnotations(AnnCloneOf \<mapsto> ''true'')) [cloneSourcePodFinalizer]],
      pods = []\<rparr> ''prod'' ''pvc-dst'' =
     (Inr (),
      \<lparr>pvcs = [targetPVC (cloneAnnotations(AnnCloneOf \<mapsto> ''true'')) []], pods = []\<rparr>,
      [(GetPVC ''prod'' ''pvc-dst'', None),
       (ListPods ''stage'' CloneUniqueID ''uid-1-source-pod'', None),
       (UpdatePVC (targetPVC (cloneAnnotations(AnnCloneOf \<mapsto> ''true'')) []), None)])"
  by (simp add: eval_defs)

lemma running_pass:
  "Reconcile cloneReconciler runningCluster ''prod'' ''pvc-dst'' =
     (Inr (),
      \<lparr>pvcs = [targetPVC (cloneAnnotations(AnnPodPhase \<mapsto> ''Succeeded'', AnnCloneOf \<mapsto> ''true''))
                 [cloneSourcePodFinalizer], sourcePVC],
       pods = [clonePod ''uid-1-source-pod'' ''Running'' None]\<rparr>,
      [(GetPVC ''prod'' ''pvc-dst'', None),
       (ListPods ''stage'' CloneUniqueID ''uid-1-source-pod'', None),
       (Event (targetPVC (cloneAnnotations(AnnPodPhase \<mapsto> ''Succeeded'', AnnCloneOf \<mapsto> ''true''))
                 [cloneSourcePodFinalizer]) ''Normal'' CloneSucceededPVC ''Clone Successful'', None),
       (UpdatePVC (targetPVC (cloneAnnotations(AnnPodPhase \<mapsto> ''Succeeded'', AnnCloneOf \<mapsto> ''true''))
                 [cloneSourcePodFinalizer]), None)])"
  by (simp add: eval_defs)

lemma waiting_pass:
  "Reconcile cloneReconciler
     \<lparr>pvcs = [targetPVC (cloneAnnotations(AnnPodPhase \<mapsto> ''Succeeded'', AnnCloneOf \<mapsto> ''true''))
                [cloneSourcePodFinalizer], sourcePVC],
      pods = [clonePod ''uid-1-source-pod'' ''Running'' None]\<rparr> ''prod'' ''pvc-dst'' =
     (Inr (),
      \<lparr>pvcs = [targetPVC (cloneAnnotations(AnnPodPhase \<mapsto> ''Succeeded'', AnnCloneOf \<mapsto> ''true''))
                 [cloneSourcePodFinalizer], sourcePVC],
       pods = [clonePod ''uid-1-source-pod'' ''Running'' None]\<rparr>,
      [(GetPVC ''prod'' ''pvc-dst'', None),
       (ListPods ''stage'' CloneUniqueID ''uid-1-source-pod'', None)])"
  by (simp add: eval_defs)

theorem Reconcile_idempotent_unless_completed_witness:
  "(\<exists>t2. Reconcile cloneReconciler
            (clusterAfter (Reconcile cloneReconciler freshCluster ''prod'' ''pvc-dst''))
            ''prod'' ''pvc-dst'' =
          (Inr (), clusterAfter (Reconcile cloneReconciler freshCluster ''prod'' ''pvc-dst''), t2) \<and>
         list_all (\<lambda>x. isRead (fst x)) t2) \<and>
   targetPVC cloneAnnotations [cloneSourcePodFinalizer] \<noteq> targetPVC cloneAnnotations [] \<and>
   list_ex (\<lambda>x. isEvent (fst x))
     (snd (snd (Reconcile cloneReconciler runningCluster ''prod'' ''pvc-dst''))) \<and>
   list_all (\<lambda>x. isRead (fst x))
     (snd (snd (Reconcile cloneReconciler
                  (clusterAfter (Reconcile cloneReconciler runningCluster ''prod'' ''pvc-dst''))
                  ''prod'' ''pvc-dst''))) \<and>
   clusterAfter (Reconcile cloneReconciler
                  (clusterAfter (Reconcile cloneReconciler runningCluster ''prod'' ''pvc-dst''))
                  ''prod'' ''pvc-dst'') =
     clusterAfter (Reconcile cloneReconciler runningCluster ''prod'' ''pvc-dst'')"
proof -
  let ?pod = "MakeCloneSourcePodSpec ''stage'' ''prod/pvc-dst'' (targetPVC cloneAnnotations [])"
  let ?c1 = "\<lparr>pvcs = [targetPVC cloneAnnotations [cloneSourcePodFinalizer], sourcePVC],
              pods = [?pod]\<rparr>"
  let ?t1 = "[(GetPVC ''prod'' ''pvc-dst'', None),
       (ListPods ''stage'' CloneUniqueID ''uid-1-source-pod'', None),
       (GetPVC ''stage'' ''pvc-src'', None),
       (CreatePod ?pod, None),
       (UpdatePVC (targetPVC cloneAnnotations [cloneSourcePodFinalizer]), None)]"
  have pre: "Reconcile cloneReconciler freshCluster ''prod'' ''pvc-dst'' = (Inr (), ?c1, ?t1) \<and>
             (\<forall>x\<in>set ?t1. \<not> isEvent (fst x))"
    by (simp add: fresh_pass)
  have "\<exists>t2. Reconcile cloneReconciler ?c1 ''prod'' ''pvc-dst'' = (Inr (), ?c1, t2) \<and>
          (\<forall>x\<in>set t2. isRead (fst x))"
    by (rule mp[OF Reconcile_idempotent_unless_completed[THEN conjunct1] pre])
  then have a: "\<exists>t2. Reconcile cloneReconciler ?c1 ''prod'' ''pvc-dst'' = (Inr (), ?c1, t2) \<and>
          list_all (\<lambda>x. isRead (fst x)) t2"
    by (simp only: list_all_iff)
  have ne: "Annotations (PvcMeta (targetPVC cloneAnnotations [])) \<noteq> Map.empty"
  proof
    assume "Annotations (PvcMeta (targetPVC cloneAnnotations [])) = Map.empty"
    then have "Annotations (PvcMeta (targetPVC cloneAnnotations [])) AnnCloneRequest = None"
      by simp
    then show False by (simp add: eval_defs)
  qed
  have up: "updatePvcFromPod cloneReconciler
              \<lparr>pvcs = [targetPVC cloneAnnotations [], sourcePVC], pods = [?pod]\<rparr> None
              (targetPVC cloneAnnotations []) =
            (Inr (), ?c1, [(UpdatePVC (targetPVC cloneAnnotations [cloneSourcePodFinalizer]), None)])"
    by (simp add: eval_defs)
  have b: "targetPVC cloneAnnotations [cloneSourcePodFinalizer] \<noteq> targetPVC cloneAnnotations []"
    using mp[OF Reconcile_idempotent_unless_completed[THEN conjunct2, THEN conjunct2]
               conjI[OF ne up], THEN conjunct1]
    by auto
  let ?q = "targetPVC (cloneAnnotations(AnnPodPhase \<mapsto> ''Succeeded'', AnnCloneOf \<mapsto> ''true''))
              [cloneSourcePodFinalizer]"
  let ?d1 = "\<lparr>pvcs = [?q, sourcePVC], pods = [clonePod ''uid-1-source-pod'' ''Running'' None]\<rparr>"
  let ?u1 = "[(GetPVC ''prod'' ''pvc-dst'', None),
       (ListPods ''stage'' CloneUniqueID ''uid-1-source-pod'', None),
       (Event ?q ''Normal'' CloneSucceededPVC ''Clone Successful'', None),
       (UpdatePVC ?q, None)]"
  let ?u2 = "[(GetPVC ''prod'' ''pvc-dst'', None),
       (ListPods ''stage'' CloneUniqueID ''uid-1-source-pod'', None :: error option)]"
  have pre2: "Reconcile cloneReconciler runningCluster ''prod'' ''pvc-dst'' = (Inr (), ?d1, ?u1) \<and>
              (\<exists>x\<in>set ?u1. isEvent (fst x)) \<and>
              Reconcile cloneReconciler ?d1 ''prod'' ''pvc-dst'' = (Inr (), ?d1, ?u2)"
    by (simp add: running_pass waiting_pass)
  from mp[OF Reconcile_idempotent_unless_completed[THEN conjunct2, THEN conjunct1] pre2]
  obtain q where
    q: "find (samePVC ''prod'' ''pvc-dst'') (pvcs ?d1) = Some q" and
    iff: "(\<forall>x\<in>set ?u2. isRead (fst x)) =
            ((\<exists>e. fst (findCloneSourcePod cloneReconciler ?d1 q) = Inl e) \<or>
             (\<exists>pod. fst (findCloneSourcePod cloneReconciler ?d1 q) = Inr (Some pod) \<and>
                    DeletionTimestamp (PodMeta pod) = None \<and> Phase (Status pod) = PodRunning))"
    by blast
  have qv: "q = ?q" using q by (simp add: samePVC_def targetPVC_def objectMeta_def)
  have "fst (findCloneSourcePod cloneReconciler ?d1 ?q) =
          Inr (Some (clonePod ''uid-1-source-pod'' ''Running'' None)) \<and>
        DeletionTimestamp (PodMeta (clonePod ''uid-1-source-pod'' ''Running'' None)) = None \<and>
        Phase (Status (clonePod ''uid-1-source-pod'' ''Running'' None)) = PodRunning"
    by (simp add: eval_defs)
  then have "\<exists>pod. fst (findCloneSourcePod cloneReconciler ?d1 q) = Inr (Some pod) \<and>
                    DeletionTimestamp (PodMeta pod) = None \<and> Phase (Status pod) = PodRunning"
    unfolding qv by blast
  with iff have "\<forall>x\<in>set ?u2. isRead (fst x)" by blast
  then have c: "list_all (\<lambda>x. isRead (fst x)) ?u2" by (simp only: list_all_iff)
  have d: "list_ex (\<lambda>x. isEvent (fst x)) ?u1" by simp
  show ?thesis using a b c d by (simp add: fresh_pass running_pass waiting_pass clusterAfter_def)
qed

text \<open>
  Claim C9 as stated fails after a pass that marks the clone complete. With the upload pod
  succeeded, the source pod no longer running and the finalizer in place, the first pass
  sets \<open>CloneOf\<close>; the second pass, with nothing changed in between, runs the cleanup: it
  deletes the source pod and removes the finalizer.
\<close>

theorem Reconcile_not_idempotent_counterexample:
  "resultOf (Reconcile cloneReconciler succeededCluster ''prod'' ''pvc-dst'') = Inr () \<and>
   callsOf (Reconcile cloneReconciler
              (clusterAfter (Reconcile cloneReconciler succeededCluster ''prod'' ''pvc-dst''))
              ''prod'' ''pvc-dst'') =
     [GetPVC ''prod'' ''pvc-dst'',
      ListPods ''stage'' CloneUniqueID ''uid-1-source-pod'',
      DeletePod (clonePod ''uid-1-source-pod'' ''Succeeded'' None),
      UpdatePVC (targetPVC (cloneAnnotations(AnnPodPhase \<mapsto> ''Succeeded'', AnnCloneOf \<mapsto> ''true'')) [])] \<and>
   clusterAfter (Reconcile cloneReconciler
              (clusterAfter (Reconcile cloneReconciler succeededCluster ''prod'' ''pvc-dst''))
              ''prod'' ''pvc-dst'') \<noteq>
     clusterAfter (Reconcile cloneReconciler succeededCluster ''prod'' ''pvc-dst'')"
  by (simp add: succeeded_pass clusterAfter_def resultOf_def callsOf_def completed_pass)

subsection \<open>The order of pod and finalizer\<close>

lemma create_position:
  "R @ x # U = pre @ y # post \<Longrightarrow> y \<notin> set R \<Longrightarrow> y \<notin> set U \<Longrightarrow> pre = R"
proof (induction R arbitrary: pre)
  case Nil
  then show ?case by (cases pre) auto
next
  case (Cons a R)
  then show ?case by (cases pre) auto
qed

lemma updatePvcFromPod_calls:
  assumes "updatePvcFromPod r c sp pvc = (res, c', t)"
  shows "\<forall>x\<in>set t. isEvent (fst x) \<or>
           (\<exists>q. fst x = UpdatePVC q \<and> hasFinalizer (PvcMeta q) cloneSourcePodFinalizer)"
proof (cases "\<exists>pod. sp = Some pod \<and> ContainerStatuses (Status pod) = Some []")
  case True
  with assms show ?thesis
    by (auto simp: updatePvcFromPod_def Let_def recorderEvent_def split: if_splits)
next
  case False
  from assms show ?thesis
    unfolding updatePvcFromPod_eq[OF False]
    using mutatedPVC_meta[of sp pvc]
    by (auto simp: Let_def recorderEvent_def ClientUpdate_eq
        split: if_splits prod.splits option.splits)
qed

lemma no_create_order:
  assumes "\<forall>x\<in>set t. \<forall>pod. fst x \<noteq> CreatePod pod"
  shows "\<forall>pre pod e post. t = pre @ (CreatePod pod, e) # post \<longrightarrow> (\<forall>x\<in>set pre. isRead (fst x))"
proof (intro allI impI)
  fix pre pod e post
  assume "t = pre @ (CreatePod pod, e) # post"
  then have "(CreatePod pod, e) \<in> set t" by simp
  with assms show "\<forall>x\<in>set pre. isRead (fst x)" by fastforce
qed

lemma shaped_order:
  assumes t: "t = R @ C @ U"
      and R: "\<forall>x\<in>set R. isRead (fst x)"
      and C: "C = [] \<or> (\<exists>pod e. C = [(CreatePod pod, e)])"
      and U: "\<forall>x\<in>set U. isEvent (fst x) \<or>
                (\<exists>q. fst x = UpdatePVC q \<and> hasFinalizer (PvcMeta q) cloneSourcePodFinalizer)"
  shows "(\<forall>pre pod e post. t = pre @ (CreatePod pod, e) # post \<longrightarrow> (\<forall>x\<in>set pre. isRead (fst x))) \<and>
         (\<forall>q e. (UpdatePVC q, e) \<in> set t \<longrightarrow> hasFinalizer (PvcMeta q) cloneSourcePodFinalizer)"
proof (intro conjI allI impI)
  fix q e
  assume "(UpdatePVC q, e) \<in> set t"
  with t R C U show "hasFinalizer (PvcMeta q) cloneSourcePodFinalizer" by fastforce
next
  fix pre pod e post
  assume d: "t = pre @ (CreatePod pod, e) # post"
  have nR: "(CreatePod pod, e) \<notin> set R" using R by fastforce
  have nU: "(CreatePod pod, e) \<notin> set U" using U by fastforce
  from C show "\<forall>x\<in>set pre. isRead (fst x)"
  proof
    assume "C = []"
    with t d nR nU have False
      by (metis append_Nil in_set_conv_decomp Un_iff set_append)
    then show ?thesis ..
  next
    assume "\<exists>pod e. C = [(CreatePod pod, e)]"
    then obtain p0 e0 where "C = [(CreatePod p0, e0)]" by blast
    with t d have "R @ (CreatePod p0, e0) # U = pre @ (CreatePod pod, e) # post" by simp
    from create_position[OF this nR nU] R show ?thesis by simp
  qed
qed

lemma ready_shape:
  assumes get: "Client r (GetPVC ns name) = None"
      and found: "find (samePVC ns name) (pvcs c) = Some pvc"
      and should: "shouldReconcile pvc"
      and ready: "waitTargetPodRunningOrSucceeded pvc = Inr True"
      and run: "Reconcile r c ns name = (res, c', t)"
  shows "(\<exists>R C U. t = R @ C @ U \<and> (\<forall>x\<in>set R. isRead (fst x)) \<and>
            (C = [] \<or> (\<exists>pod e. C = [(CreatePod pod, e)])) \<and>
            (\<forall>x\<in>set U. isEvent (fst x) \<or>
               (\<exists>q. fst x = UpdatePVC q \<and> hasFinalizer (PvcMeta q) cloneSourcePodFinalizer))) \<and>
         (res = Inr () \<longrightarrow>
            (\<exists>q. find (samePVC ns name) (pvcs c') = Some q \<and>
                 hasFinalizer (PvcMeta q) cloneSourcePodFinalizer))"
proof -
  note eq = Reconcile_ready[OF get found should ready]
  obtain rf cf tf where f: "findCloneSourcePod r c pvc = (rf, cf, tf)"
    by (cases "findCloneSourcePod r c pvc") auto
  from findCloneSourcePod_frame[OF f] have cf: "cf = c" and tf: "\<forall>x\<in>set tf. isRead (fst x)"
    by auto
  show ?thesis
  proof (cases rf)
    case (Inl e)
    with run eq f have "t = ((GetPVC ns name, None) # tf) @ [] @ []" and "res \<noteq> Inr ()" by auto
    with tf show ?thesis by (intro conjI exI[of _ "(GetPVC ns name, None) # tf"] exI[of _ "[]"]) auto
  next
    case (Inr sp)
    obtain rr c2 t2 where rs: "reconcileSourcePod r c sp pvc = (rr, c2, t2)"
      by (cases "reconcileSourcePod r c sp pvc") auto
    from reconcileSourcePod_shape[OF rs] obtain R C where
      pv2: "pvcs c2 = pvcs c" and t2: "t2 = R @ C" and R: "\<forall>x\<in>set R. isRead (fst x)" and
      C: "C = [] \<or> (\<exists>pod e. C = [(CreatePod pod, e)])" by blast
    show ?thesis
    proof (cases rr)
      case (Inl e)
      with run eq f Inr cf rs have "t = ((GetPVC ns name, None) # tf @ R) @ C @ []"
        and "res \<noteq> Inr ()" using t2 by auto
      with tf R C show ?thesis
        by (intro conjI exI[of _ "(GetPVC ns name, None) # tf @ R"] exI[of _ C] exI[of _ "[]"]) auto
    next
      case rrok: (Inr u)
      obtain ru c3 t3 where up: "updatePvcFromPod r c2 sp pvc = (ru, c3, t3)"
        by (cases "updatePvcFromPod r c2 sp pvc") auto
      from run eq f Inr cf rs rrok up have t: "t = ((GetPVC ns name, None) # tf @ R) @ C @ t3"
        and res: "res = ru" and c': "c' = c3" using t2 by auto
      have stored: "res = Inr () \<longrightarrow>
            (\<exists>q. find (samePVC ns name) (pvcs c') = Some q \<and>
                 hasFinalizer (PvcMeta q) cloneSourcePodFinalizer)"
      proof
        assume "res = Inr ()"
        with up res c' have "updatePvcFromPod r c2 sp pvc = (Inr (), c', t3)" by simp
        from updatePvcFromPod_stored[OF this, of ns name] found pv2 mutatedPVC_meta[of sp pvc]
        show "\<exists>q. find (samePVC ns name) (pvcs c') = Some q \<and>
                 hasFinalizer (PvcMeta q) cloneSourcePodFinalizer" by simp
      qed
      from updatePvcFromPod_calls[OF up] t tf R C stored show ?thesis
        by (intro conjI exI[of _ "(GetPVC ns name, None) # tf @ R"] exI[of _ C] exI[of _ t3]) auto
    qed
  qed
qed

lemma reads_only_order:
  assumes "\<forall>x\<in>set t. isRead (fst x)"
  shows "(\<forall>pre pod e post. t = pre @ (CreatePod pod, e) # post \<longrightarrow> (\<forall>x\<in>set pre. isRead (fst x))) \<and>
         (\<forall>pod e. (CreatePod pod, e) \<notin> set t) \<and> (\<forall>q e. (UpdatePVC q, e) \<notin> set t)"
  using assms by fastforce

text \<open>
  Claim C1, as the code has it. In one pass of \<open>Reconcile\<close>: only reads come before a pod
  create, so the finalizer is never persisted before the create of that pass; a pass that
  creates the pod and returns without error leaves the stored claim with the finalizer
  (the claim is mutated and persisted after the create, in the same pass); and an update
  that persists the claim without the finalizer is the last call of a cleanup pass, made
  when the lookup found no source pod or one already terminating, or right after a delete
  of the pod found that was accepted or answered not-found.
\<close>

theorem Reconcile_finalizer_order:
  "Reconcile r c ns name = (res, c', t) \<longrightarrow>
     (\<forall>pre pod e post. t = pre @ (CreatePod pod, e) # post \<longrightarrow> (\<forall>x\<in>set pre. isRead (fst x))) \<and>
     (res = Inr () \<and> (\<exists>pod. (CreatePod pod, None) \<in> set t) \<longrightarrow>
        (\<exists>q. find (samePVC ns name) (pvcs c') = Some q \<and>
             hasFinalizer (PvcMeta q) cloneSourcePodFinalizer)) \<and>
     (\<forall>q e. (UpdatePVC q, e) \<in> set t \<and> \<not> hasFinalizer (PvcMeta q) cloneSourcePodFinalizer \<longrightarrow>
        (\<exists>pvc sp tf. find (samePVC ns name) (pvcs c) = Some pvc \<and>
           findCloneSourcePod r c pvc = (Inr sp, c, tf) \<and>
           (t = (GetPVC ns name, None) # tf @ [(UpdatePVC q, e)] \<and>
              (sp = None \<or> DeletionTimestamp (PodMeta (the sp)) \<noteq> None) \<or>
            (\<exists>d. t = (GetPVC ns name, None) # tf @ [(DeletePod (the sp), d), (UpdatePVC q, e)] \<and>
                 (d = None \<or> d = Some StatusNotFound)))))"
  (is "_ \<longrightarrow> ?order t \<and> ?added \<and> ?removed")
proof
  assume run: "Reconcile r c ns name = (res, c', t)"
  have reads: "(\<forall>x\<in>set t. isRead (fst x)) \<Longrightarrow> ?order t \<and> ?added \<and> ?removed"
  proof -
    assume a: "\<forall>x\<in>set t. isRead (fst x)"
    from reads_only_order[OF a] show ?thesis by blast
  qed
  show "?order t \<and> ?added \<and> ?removed"
  proof (cases "Client r (GetPVC ns name)")
    case (Some e)
    from run Reconcile_get_fails[OF Some, of c] show ?thesis by (intro reads) auto
  next
    case get: None
    show ?thesis
    proof (cases "find (samePVC ns name) (pvcs c)")
      case None
      from run Reconcile_gone[OF get None] show ?thesis by (intro reads) auto
    next
      case found: (Some pvc)
      show ?thesis
      proof (cases "shouldReconcile pvc")
        case nshould: False
        show ?thesis
        proof (cases "hasFinalizer (PvcMeta pvc) cloneSourcePodFinalizer")
          case False
          from run Reconcile_irrelevant[OF get found nshould False] show ?thesis
            by (intro reads) auto
        next
          case True
          let ?q = "removeFinalizer pvc cloneSourcePodFinalizer"
          obtain rc cc tc where cl: "cleanup r c pvc = (rc, cc, tc)"
            by (cases "cleanup r c pvc") auto
          with run Reconcile_cleanup[OF get found nshould True]
          have t: "t = (GetPVC ns name, None) # tc" by auto
          from cleanup_shape[OF cl] show ?thesis
          proof
            assume "\<forall>x\<in>set tc. isRead (fst x)"
            with t show ?thesis by (intro reads) auto
          next
            assume "\<exists>sp tf. findCloneSourcePod r c pvc = (Inr sp, c, tf) \<and>
              ((\<exists>d. tc = tf @ [(DeletePod (the sp), Some d)] \<and> d \<noteq> StatusNotFound) \<or>
               (\<exists>e. tc = tf @ [(UpdatePVC ?q, e)] \<and>
                    (sp = None \<or> DeletionTimestamp (PodMeta (the sp)) \<noteq> None)) \<or>
               (\<exists>d e. tc = tf @ [(DeletePod (the sp), d), (UpdatePVC ?q, e)] \<and>
                      (d = None \<or> d = Some StatusNotFound)))"
            then obtain sp tf where f: "findCloneSourcePod r c pvc = (Inr sp, c, tf)" and
              sh: "(\<exists>d. tc = tf @ [(DeletePod (the sp), Some d)] \<and> d \<noteq> StatusNotFound) \<or>
               (\<exists>e. tc = tf @ [(UpdatePVC ?q, e)] \<and>
                    (sp = None \<or> DeletionTimestamp (PodMeta (the sp)) \<noteq> None)) \<or>
               (\<exists>d e. tc = tf @ [(DeletePod (the sp), d), (UpdatePVC ?q, e)] \<and>
                      (d = None \<or> d = Some StatusNotFound))" by blast
            from findCloneSourcePod_frame[OF f] have tf: "\<forall>x\<in>set tf. isRead (fst x)" by simp
            have nocreate: "\<forall>x\<in>set t. \<forall>pod. fst x \<noteq> CreatePod pod"
              using t tf sh by fastforce
            have order: "?order t" by (rule no_create_order[OF nocreate])
            have added: ?added using nocreate by fastforce
            have removed: ?removed
            proof (intro allI impI)
              fix q e
              assume u: "(UpdatePVC q, e) \<in> set t \<and>
                \<not> hasFinalizer (PvcMeta q) cloneSourcePodFinalizer"
              have notin: "(UpdatePVC q, e) \<notin> set tf" using tf by fastforce
              from sh u t notin have
                "(tc = tf @ [(UpdatePVC q, e)] \<and>
                    (sp = None \<or> DeletionTimestamp (PodMeta (the sp)) \<noteq> None)) \<or>
                 (\<exists>d. tc = tf @ [(DeletePod (the sp), d), (UpdatePVC q, e)] \<and>
                      (d = None \<or> d = Some StatusNotFound))"
                by auto
              with t found f show "\<exists>pvc sp tf. find (samePVC ns name) (pvcs c) = Some pvc \<and>
                 findCloneSourcePod r c pvc = (Inr sp, c, tf) \<and>
                 (t = (GetPVC ns name, None) # tf @ [(UpdatePVC q, e)] \<and>
                    (sp = None \<or> DeletionTimestamp (PodMeta (the sp)) \<noteq> None) \<or>
                  (\<exists>d. t = (GetPVC ns name, None) # tf @ [(DeletePod (the sp), d), (UpdatePVC q, e)] \<and>
                       (d = None \<or> d = Some StatusNotFound)))"
                by auto
            qed
            from order added removed show ?thesis by blast
          qed
        qed
      next
        case should: True
        show ?thesis
        proof (cases "waitTargetPodRunningOrSucceeded pvc")
          case (Inl e)
          from run Reconcile_wait_fails[OF get found should Inl] show ?thesis
            by (intro reads) auto
        next
          case (Inr ready)
          show ?thesis
          proof (cases ready)
            case False
            with Inr run Reconcile_not_ready[OF get found should] show ?thesis
              by (intro reads) auto
          next
            case True
            with Inr have ready: "waitTargetPodRunningOrSucceeded pvc = Inr True" by simp
            from ready_shape[OF get found should ready run] obtain R C U where
              t: "t = R @ C @ U" and R: "\<forall>x\<in>set R. isRead (fst x)" and
              C: "C = [] \<or> (\<exists>pod e. C = [(CreatePod pod, e)])" and
              U: "\<forall>x\<in>set U. isEvent (fst x) \<or>
                   (\<exists>q. fst x = UpdatePVC q \<and> hasFinalizer (PvcMeta q) cloneSourcePodFinalizer)" and
              stored: "res = Inr () \<longrightarrow>
                (\<exists>q. find (samePVC ns name) (pvcs c') = Some q \<and>
                     hasFinalizer (PvcMeta q) cloneSourcePodFinalizer)"
              by blast
            from shaped_order[OF t R C U] stored show ?thesis by blast
          qed
        qed
      qed
    qed
  qed
qed

theorem Reconcile_finalizer_order_witness:
  "(\<exists>q. find (samePVC ''prod'' ''pvc-dst'')
          (pvcs (clusterAfter (Reconcile cloneReconciler freshCluster ''prod'' ''pvc-dst''))) = Some q \<and>
        hasFinalizer (PvcMeta q) cloneSourcePodFinalizer) \<and>
   list_all (\<lambda>x. isRead (fst x))
     [(GetPVC ''prod'' ''pvc-dst'', None),
      (ListPods ''stage'' CloneUniqueID ''uid-1-source-pod'', None),
      (GetPVC ''stage'' ''pvc-src'', None)]"
proof -
  let ?pod = "MakeCloneSourcePodSpec ''stage'' ''prod/pvc-dst'' (targetPVC cloneAnnotations [])"
  let ?c' = "\<lparr>pvcs = [targetPVC cloneAnnotations [cloneSourcePodFinalizer], sourcePVC],
              pods = [?pod]\<rparr>"
  let ?pre = "[(GetPVC ''prod'' ''pvc-dst'', None),
       (ListPods ''stage'' CloneUniqueID ''uid-1-source-pod'', None),
       (GetPVC ''stage'' ''pvc-src'', None :: error option)]"
  let ?t = "?pre @ [(CreatePod ?pod, None),
       (UpdatePVC (targetPVC cloneAnnotations [cloneSourcePodFinalizer]), None)]"
  have run: "Reconcile cloneReconciler freshCluster ''prod'' ''pvc-dst'' = (Inr (), ?c', ?t)"
    by (simp add: fresh_pass)
  note order = mp[OF Reconcile_finalizer_order run]
  have added: "\<exists>q. find (samePVC ''prod'' ''pvc-dst'') (pvcs ?c') = Some q \<and>
        hasFinalizer (PvcMeta q) cloneSourcePodFinalizer"
    by (rule mp[OF order[THEN conjunct2, THEN conjunct1]]) simp
  have "?t = ?pre @ (CreatePod ?pod, None) #
                [(UpdatePVC (targetPVC cloneAnnotations [cloneSourcePodFinalizer]), None)] \<longrightarrow>
        (\<forall>x\<in>set ?pre. isRead (fst x))"
    using order[THEN conjunct1] by blast
  then have "\<forall>x\<in>set ?pre. isRead (fst x)" by simp
  then have reads: "list_all (\<lambda>x. isRead (fst x)) ?pre" by (simp only: list_all_iff)
  show ?thesis using added reads by (simp add: run clusterAfter_def)
qed

text \<open>
  Claim C1 as stated fails on the first pass over a fresh target: the stored claim has no
  finalizer, the pod is created, and only then is the claim updated with the finalizer.
  And the cleanup of a claim whose source pod is gone removes the finalizer with no delete
  call at all.
\<close>

theorem Reconcile_creates_before_finalizer_counterexample:
  "find (samePVC ''prod'' ''pvc-dst'') (pvcs freshCluster) = Some (targetPVC cloneAnnotations []) \<and>
   \<not> hasFinalizer (PvcMeta (targetPVC cloneAnnotations [])) cloneSourcePodFinalizer \<and>
   callsOf (Reconcile cloneReconciler freshCluster ''prod'' ''pvc-dst'') =
     [GetPVC ''prod'' ''pvc-dst'',
      ListPods ''stage'' CloneUniqueID ''uid-1-source-pod'',
      GetPVC ''stage'' ''pvc-src'',
      CreatePod (MakeCloneSourcePodSpec ''stage'' ''prod/pvc-dst'' (targetPVC cloneAnnotations [])),
      UpdatePVC (targetPVC cloneAnnotations [cloneSourcePodFinalizer])] \<and>
   callsOf (Reconcile cloneReconciler
     \<lparr>pvcs = [targetPVC (cloneAnnotations(AnnCloneOf \<mapsto> ''true'')) [cloneSourcePodFinalizer]],
      pods = []\<rparr> ''prod'' ''pvc-dst'') =
     [GetPVC ''prod'' ''pvc-dst'',
      ListPods ''stage'' CloneUniqueID ''uid-1-source-pod'',
      UpdatePVC (targetPVC (cloneAnnotations(AnnCloneOf \<mapsto> ''true'')) [])]"
  by (simp add: fresh_pass podless_pass callsOf_def)
     (simp add: freshCluster_def samePVC_def targetPVC_def objectMeta_def hasFinalizer_def)

end
